theory Spec2Isabelle
  imports Complex_Main "HOL-Library.Word" "HOL-Library.Sublist"
begin

section \<open>JavaScript strings and JSON values\<close>

text \<open>
  A JavaScript string is a sequence of 16-bit code units. Regular expressions without
  the \<open>u\<close> flag (all of the ones in \<open>server.js\<close>) match code unit by code unit.
  \<open>lit\<close> turns an ASCII literal of the theory into such a string.
\<close>

type_synonym jschar = "16 word"
type_synonym jsstring = "jschar list"

definition lit :: "string \<Rightarrow> jsstring" where
  "lit s = map of_char s"

text \<open>
  The values a request body parsed by \<open>express.json()\<close> can hold. A number is kept as
  its exact mathematical value; \<open>JNaN\<close> and the infinities are separate constructors.
  An object is the list of its own properties in the order \<open>Object.keys\<close> gives them.
\<close>

datatype jsnum = Fin rat | PosInf | NegInf | JNaN

datatype json =
    JNull
  | JBool bool
  | JNum jsnum
  | JStr jsstring
  | JArr "json list"
  | JObj "(jsstring \<times> json) list"

type_synonym jsobject = "(jsstring \<times> json) list"

text \<open>ToBoolean, as applied by \<open>!x\<close>, \<open>x || y\<close> and \<open>x ? a : b\<close>.\<close>

fun truthy :: "json \<Rightarrow> bool" where
  "truthy JNull = False"
| "truthy (JBool b) = b"
| "truthy (JNum (Fin q)) = (q \<noteq> 0)"
| "truthy (JNum JNaN) = False"
| "truthy (JNum _) = True"
| "truthy (JStr s) = (s \<noteq> [])"
| "truthy (JArr _) = True"
| "truthy (JObj _) = True"

section \<open>Numbers\<close>

text \<open>
  A JavaScript number is an IEEE 754 double. \<open>roundToDouble\<close> rounds an exact value to
  the nearest double, ties to the even significand: the value is scaled by a power of
  two so that its significand has 53 bits (fewer below the normal range, whose least
  exponent is \<open>-1074\<close>), rounded to an integer and scaled back; a result of \<open>2^1024\<close> or
  more is an infinity.
\<close>

fun bitLength :: "nat \<Rightarrow> nat" where
  "bitLength n = (if n = 0 then 0 else Suc (bitLength (n div 2)))"

declare bitLength.simps [simp del]

definition pow2 :: "int \<Rightarrow> rat" where
  "pow2 e = (if 0 \<le> e then 2 ^ nat e else 1 / 2 ^ nat (- e))"

text \<open>The integer part of the binary logarithm of a positive rational.\<close>

definition floorLog2 :: "rat \<Rightarrow> int" where
  "floorLog2 a =
     (let (p, q) = quotient_of a;
          d = int (bitLength (nat p)) - int (bitLength (nat q))
      in if pow2 d \<le> a then d else d - 1)"

definition roundHalfEven :: "rat \<Rightarrow> int" where
  "roundHalfEven x =
     (let f = \<lfloor>x\<rfloor>; r = x - of_int f
      in if r < 1 / 2 then f else if 1 / 2 < r then f + 1 else if even f then f else f + 1)"

definition roundToDouble :: "rat \<Rightarrow> jsnum" where
  "roundToDouble x =
     (if x = 0 then Fin 0
      else
        (let a = \<bar>x\<bar>;
             e = max (floorLog2 a - 52) (- 1074);
             y = of_int (roundHalfEven (a / pow2 e)) * pow2 e
         in if 2 ^ 1024 \<le> y then (if x < 0 then NegInf else PosInf)
            else Fin (if x < 0 then - y else y)))"

text \<open>The product \<open>x * y\<close> of two numbers.\<close>

fun numTimes :: "jsnum \<Rightarrow> jsnum \<Rightarrow> jsnum" where
  "numTimes (Fin a) (Fin b) = roundToDouble (a * b)"
| "numTimes JNaN y = JNaN"
| "numTimes x JNaN = JNaN"
| "numTimes (Fin a) PosInf = (if a = 0 then JNaN else if 0 < a then PosInf else NegInf)"
| "numTimes (Fin a) NegInf = (if a = 0 then JNaN else if 0 < a then NegInf else PosInf)"
| "numTimes PosInf (Fin b) = (if b = 0 then JNaN else if 0 < b then PosInf else NegInf)"
| "numTimes NegInf (Fin b) = (if b = 0 then JNaN else if 0 < b then NegInf else PosInf)"
| "numTimes PosInf PosInf = PosInf"
| "numTimes PosInf NegInf = NegInf"
| "numTimes NegInf PosInf = NegInf"
| "numTimes NegInf NegInf = PosInf"

text \<open>
  \<open>Math.round\<close>: the nearest integer, a tie going towards positive infinity.
\<close>

fun mathRound :: "jsnum \<Rightarrow> jsnum" where
  "mathRound (Fin q) = Fin (of_int \<lfloor>q + 1 / 2\<rfloor>)"
| "mathRound x = x"

text \<open>The comparison \<open>x <= 0\<close> of a number.\<close>

fun numLeqZero :: "jsnum \<Rightarrow> bool" where
  "numLeqZero (Fin q) = (q \<le> 0)"
| "numLeqZero NegInf = True"
| "numLeqZero PosInf = False"
| "numLeqZero JNaN = False"

section \<open>Conversion of numbers to strings and of strings to numbers\<close>

text \<open>
  Number-to-string conversion: the digits are the shortest decimal numeral that rounds
  back to the same double (among several of that length the one nearest to the number,
  then the even one), printed plainly, with a decimal point, or in exponent notation,
  according to the position of the decimal point. \<open>digitCandidate x k\<close> looks for
  such a numeral of \<open>k\<close> digits among the two neighbours of \<open>x\<close>; seventeen digits
  always suffice for a double.
\<close>

fun digitsOf :: "nat \<Rightarrow> jsstring" where
  "digitsOf n =
     (if n < 10 then [of_nat (48 + n)] else digitsOf (n div 10) @ [of_nat (48 + n mod 10)])"

declare digitsOf.simps [simp del]

definition pow10 :: "int \<Rightarrow> rat" where
  "pow10 e = (if 0 \<le> e then 10 ^ nat e else 1 / 10 ^ nat (- e))"

text \<open>The integer part of the decimal logarithm of a positive rational.\<close>

definition floorLog10 :: "rat \<Rightarrow> int" where
  "floorLog10 a =
     (let (p, q) = quotient_of a;
          d = int (length (digitsOf (nat p))) - int (length (digitsOf (nat q)))
      in if pow10 d \<le> a then d else d - 1)"

definition digitCandidate :: "rat \<Rightarrow> nat \<Rightarrow> (int \<times> int) option" where
  "digitCandidate x k =
     (let n = floorLog10 x + 1;
          scale = pow10 (n - int k);
          lo = \<lfloor>x / scale\<rfloor>;
          hi = lo + 1;
          okLo = (roundToDouble (of_int lo * scale) = Fin x);
          okHi = (roundToDouble (of_int hi * scale) = Fin x);
          dLo = x - of_int lo * scale;
          dHi = of_int hi * scale - x;
          s = (if okLo \<and> okHi then
                 (if dLo < dHi then lo else if dHi < dLo then hi else if even lo then lo else hi)
               else if okLo then lo else hi)
      in if okLo \<or> okHi then Some (s, n - int k + int (length (digitsOf (nat s)))) else None)"

definition shortestDigits :: "rat \<Rightarrow> int \<times> int" where
  "shortestDigits x =
     (case List.map_filter (digitCandidate x) [1..<18] of
        c # cs \<Rightarrow> c
      | [] \<Rightarrow> (\<lfloor>x / pow10 (floorLog10 x - 16)\<rfloor>, floorLog10 x + 1))"

definition stripZeros :: "jsstring \<Rightarrow> jsstring" where
  "stripZeros ds = (case rev (dropWhile (\<lambda>c. c = 0x30) (rev ds)) of [] \<Rightarrow> lit ''0'' | r \<Rightarrow> r)"

text \<open>
  The digits \<open>ds\<close> with the decimal point after the first \<open>n\<close> of them: plain up to
  \<open>10^21\<close>, with leading zeros down to \<open>10^-7\<close>, in exponent notation otherwise.
\<close>

definition formatDigits :: "jsstring \<Rightarrow> int \<Rightarrow> jsstring" where
  "formatDigits ds n =
     (let k = int (length ds) in
      if k \<le> n \<and> n \<le> 21 then ds @ replicate (nat (n - k)) 0x30
      else if 0 < n \<and> n \<le> 21 then take (nat n) ds @ lit ''.'' @ drop (nat n) ds
      else if - 6 < n \<and> n \<le> 0 then lit ''0.'' @ replicate (nat (- n)) 0x30 @ ds
      else
        (let e = n - 1;
             exponent = (if e < 0 then lit ''-'' else lit ''+'') @ digitsOf (nat \<bar>e\<bar>)
         in if k = 1 then ds @ lit ''e'' @ exponent
            else take 1 ds @ lit ''.'' @ drop 1 ds @ lit ''e'' @ exponent))"

definition positiveToString :: "rat \<Rightarrow> jsstring" where
  "positiveToString x =
     (let (s, n) = shortestDigits x in formatDigits (stripZeros (digitsOf (nat s))) n)"

fun numberToString :: "jsnum \<Rightarrow> jsstring" where
  "numberToString JNaN = lit ''NaN''"
| "numberToString PosInf = lit ''Infinity''"
| "numberToString NegInf = lit ''-Infinity''"
| "numberToString (Fin q) =
     (if q = 0 then lit ''0''
      else if q < 0 then lit ''-'' @ positiveToString (- q)
      else positiveToString q)"

text \<open>
  ToString. An array is joined with commas, \<open>null\<close> elements giving the empty string.
  An object is converted by the method \<open>toString\<close> that it inherits, which answers
  \<open>[object Object]\<close>; an object parsed from JSON with an own property of that name has
  no usable method, and the conversion throws a TypeError: that is the result \<open>None\<close>.
\<close>

fun joinWith :: "jsstring \<Rightarrow> jsstring list \<Rightarrow> jsstring" where
  "joinWith sep [] = []"
| "joinWith sep [x] = x"
| "joinWith sep (x # y # r) = x @ sep @ joinWith sep (y # r)"

fun toString :: "json \<Rightarrow> jsstring option" where
  "toString JNull = Some (lit ''null'')"
| "toString (JBool b) = Some (if b then lit ''true'' else lit ''false'')"
| "toString (JNum n) = Some (numberToString n)"
| "toString (JStr s) = Some s"
| "toString (JArr xs) =
     map_option (joinWith (lit '',''))
       (those (map (\<lambda>x. if x = JNull then Some [] else toString x) xs))"
| "toString (JObj ps) =
     (if map_of ps (lit ''toString'') = None then Some (lit ''[object Object]'') else None)"

text \<open>
  String-to-number conversion: white space and line terminators are trimmed; the empty
  string is zero; a hexadecimal, octal or binary integer has no sign; a decimal
  numeral has an optional sign, digits with an optional point, and an optional
  exponent; \<open>Infinity\<close> may carry a sign; anything else is \<open>NaN\<close>. The value is rounded
  to the nearest double.
\<close>

definition isDigit :: "jschar \<Rightarrow> bool" where
  "isDigit c \<longleftrightarrow> 0x30 \<le> c \<and> c \<le> 0x39"

definition strWhiteSpace :: "jschar list" where
  "strWhiteSpace =
     [0x09, 0x0B, 0x0C, 0x20, 0xA0, 0xFEFF, 0x1680, 0x2000, 0x2001, 0x2002, 0x2003, 0x2004,
      0x2005, 0x2006, 0x2007, 0x2008, 0x2009, 0x200A, 0x202F, 0x205F, 0x3000,
      0x0A, 0x0D, 0x2028, 0x2029]"

definition trimString :: "jsstring \<Rightarrow> jsstring" where
  "trimString s =
     rev (dropWhile (\<lambda>c. c \<in> set strWhiteSpace) (rev (dropWhile (\<lambda>c. c \<in> set strWhiteSpace) s)))"

definition digitValue :: "jschar \<Rightarrow> nat option" where
  "digitValue c =
     (if 0x30 \<le> c \<and> c \<le> 0x39 then Some (unat c - 0x30)
      else if 0x61 \<le> c \<and> c \<le> 0x66 then Some (unat c - 0x61 + 10)
      else if 0x41 \<le> c \<and> c \<le> 0x46 then Some (unat c - 0x41 + 10)
      else None)"

text \<open>The value of a non-empty run of digits of the given radix.\<close>

definition digitsValue :: "nat \<Rightarrow> jsstring \<Rightarrow> nat option" where
  "digitsValue radix ds =
     (if ds = [] then None
      else foldl
             (\<lambda>acc c. case (acc, digitValue c) of
                (Some n, Some d) \<Rightarrow> if d < radix then Some (radix * n + d) else None
              | _ \<Rightarrow> None)
             (Some 0) ds)"

text \<open>The value of a run of decimal digits.\<close>

definition indexValue :: "jsstring \<Rightarrow> nat" where
  "indexValue k = foldl (\<lambda>n c. 10 * n + (unat c - 48)) 0 k"

definition signedInteger :: "jsstring \<Rightarrow> int option" where
  "signedInteger t =
     (case t of
        [] \<Rightarrow> None
      | c # r \<Rightarrow>
          if c = 0x2B then map_option int (digitsValue 10 r)
          else if c = 0x2D then map_option (\<lambda>n. - int n) (digitsValue 10 r)
          else map_option int (digitsValue 10 t))"

definition unsignedDecimal :: "jsstring \<Rightarrow> rat option" where
  "unsignedDecimal t =
     (let whole = takeWhile isDigit t;
          r1 = dropWhile isDigit t;
          dot = (r1 \<noteq> [] \<and> hd r1 = 0x2E);
          fraction = (if dot then takeWhile isDigit (tl r1) else []);
          r2 = (if dot then dropWhile isDigit (tl r1) else r1);
          exponent =
            (if r2 = [] then Some 0
             else if hd r2 = 0x65 \<or> hd r2 = 0x45 then signedInteger (tl r2)
             else None)
      in if whole = [] \<and> fraction = [] then None
         else
           (case (digitsValue 10 (whole @ fraction), exponent) of
              (Some m, Some e) \<Rightarrow> Some (of_nat m * pow10 (e - int (length fraction)))
            | _ \<Rightarrow> None))"

definition nonDecimalInteger :: "jsstring \<Rightarrow> nat option" where
  "nonDecimalInteger t =
     (case t of
        c # d # r \<Rightarrow>
          if c \<noteq> 0x30 then None
          else if d = 0x78 \<or> d = 0x58 then digitsValue 16 r
          else if d = 0x6F \<or> d = 0x4F then digitsValue 8 r
          else if d = 0x62 \<or> d = 0x42 then digitsValue 2 r
          else None
      | _ \<Rightarrow> None)"

definition signedDecimal :: "bool \<Rightarrow> jsstring \<Rightarrow> jsnum" where
  "signedDecimal negative t =
     (if t = lit ''Infinity'' then (if negative then NegInf else PosInf)
      else
        (case unsignedDecimal t of
           None \<Rightarrow> JNaN
         | Some m \<Rightarrow> roundToDouble (if negative then - m else m)))"

definition stringToNumber :: "jsstring \<Rightarrow> jsnum" where
  "stringToNumber s =
     (let t = trimString s in
      if t = [] then Fin 0
      else
        (case nonDecimalInteger t of
           Some n \<Rightarrow> roundToDouble (of_nat n)
         | None \<Rightarrow>
             if hd t = 0x2B then signedDecimal False (tl t)
             else if hd t = 0x2D then signedDecimal True (tl t)
             else signedDecimal False t))"

text \<open>
  ToNumber, as the operators \<open><=\<close> and \<open>*\<close> apply it to a value that is not a number.
  An array or an object is converted to a string first (\<open>valueOf\<close> returns the object
  itself), and that string is read as a number; \<open>None\<close> is the TypeError of a value
  that has no string form.
\<close>

fun toNumber :: "json \<Rightarrow> jsnum option" where
  "toNumber JNull = Some (Fin 0)"
| "toNumber (JBool b) = Some (Fin (if b then 1 else 0))"
| "toNumber (JNum n) = Some n"
| "toNumber (JStr s) = Some (stringToNumber s)"
| "toNumber (JArr xs) = map_option stringToNumber (toString (JArr xs))"
| "toNumber (JObj ps) = map_option stringToNumber (toString (JObj ps))"

text \<open>
  Property lookup \<open>data[key]\<close> on a plain object: an own property, else a member
  inherited from \<open>Object.prototype\<close> (a built-in function or the prototype itself, all
  truthy), else \<open>undefined\<close>.
\<close>

datatype propval = Own json | Inherited | Missing

definition objectPrototypeNames :: "jsstring list" where
  "objectPrototypeNames = map lit
     [''constructor'', ''hasOwnProperty'', ''isPrototypeOf'', ''propertyIsEnumerable'',
      ''toLocaleString'', ''toString'', ''valueOf'', ''__proto__'',
      ''__defineGetter__'', ''__defineSetter__'', ''__lookupGetter__'', ''__lookupSetter__'']"

definition getProp :: "jsobject \<Rightarrow> jsstring \<Rightarrow> propval" where
  "getProp obj k =
     (case map_of obj k of
        Some v \<Rightarrow> Own v
      | None \<Rightarrow> if k \<in> set objectPrototypeNames then Inherited else Missing)"

fun truthyProp :: "propval \<Rightarrow> bool" where
  "truthyProp (Own v) = truthy v"
| "truthyProp Inherited = True"
| "truthyProp Missing = False"

section \<open>Regular expressions\<close>

text \<open>
  A computation of the server returns a value or throws; for some inputs this theory
  does not say which: they are \<open>Unmodelled\<close>, and nothing is claimed about them.
\<close>

datatype 'a outcome = Returns 'a | Throws | Unmodelled

text \<open>The class \<open>\w\<close>: ASCII letters, digits and the underscore.\<close>

definition isWordChar :: "jschar \<Rightarrow> bool" where
  "isWordChar c \<longleftrightarrow>
     (0x30 \<le> c \<and> c \<le> 0x39) \<or> (0x41 \<le> c \<and> c \<le> 0x5A) \<or> c = 0x5F \<or> (0x61 \<le> c \<and> c \<le> 0x7A)"

subsection \<open>Patterns\<close>

text \<open>
  \<open>processTemplate\<close> builds a pattern from each key of the data with \<open>new RegExp\<close>, so
  the key is read as regular-expression syntax. This section models the patterns of
  JavaScript without the \<open>u\<close> flag (with the extensions for web browsers, which Node
  implements): characters, the dot, escapes, character classes, groups, alternatives,
  quantifiers, and the assertions \<open>^\<close>, \<open>$\<close>, \<open>\b\<close> and \<open>\B\<close>. Lookaround assertions, named
  groups, group modifiers, backreferences, and the escapes with digits or with \<open>c\<close>,
  \<open>x\<close>, \<open>u\<close> and \<open>k\<close> are \<open>Unmodelled\<close>.

  A set of code units is a list of items, possibly negated: a range, or the complement
  of some ranges (for the escapes \<open>\D\<close>, \<open>\S\<close> and \<open>\W\<close>).
\<close>

datatype classItem = Range jschar jschar | Outside "(jschar \<times> jschar) list"

datatype charset = CharSet bool "classItem list"

fun inItem :: "jschar \<Rightarrow> classItem \<Rightarrow> bool" where
  "inItem c (Range lo hi) = (lo \<le> c \<and> c \<le> hi)"
| "inItem c (Outside rs) = (\<not> list_ex (\<lambda>(lo, hi). lo \<le> c \<and> c \<le> hi) rs)"

fun inSet :: "jschar \<Rightarrow> charset \<Rightarrow> bool" where
  "inSet c (CharSet negated items) = (list_ex (inItem c) items \<noteq> negated)"

definition single :: "jschar \<Rightarrow> charset" where
  "single c = CharSet False [Range c c]"

definition digitRanges :: "(jschar \<times> jschar) list" where
  "digitRanges = [(0x30, 0x39)]"

definition wordRanges :: "(jschar \<times> jschar) list" where
  "wordRanges = [(0x30, 0x39), (0x41, 0x5A), (0x5F, 0x5F), (0x61, 0x7A)]"

definition spaceRanges :: "(jschar \<times> jschar) list" where
  "spaceRanges =
     [(0x09, 0x0D), (0x20, 0x20), (0xA0, 0xA0), (0x1680, 0x1680), (0x2000, 0x200A),
      (0x2028, 0x2029), (0x202F, 0x202F), (0x205F, 0x205F), (0x3000, 0x3000), (0xFEFF, 0xFEFF)]"

text \<open>The line terminators, which the dot does not match.\<close>

definition lineTerminatorRanges :: "(jschar \<times> jschar) list" where
  "lineTerminatorRanges = [(0x0A, 0x0A), (0x0D, 0x0D), (0x2028, 0x2029)]"

definition inside :: "(jschar \<times> jschar) list \<Rightarrow> classItem list" where
  "inside rs = map (\<lambda>(lo, hi). Range lo hi) rs"

text \<open>
  The code unit \<open>d\<close> after a backslash, with the text \<open>r\<close> after it: a class escape, a
  control escape, the null escape \<open>\0\<close>, or the code unit itself.
\<close>

datatype escaped = EChar jschar | ESet "classItem list" | EUnsupported

definition characterEscape :: "jschar \<Rightarrow> jsstring \<Rightarrow> escaped" where
  "characterEscape d r =
     (if d = 0x64 then ESet (inside digitRanges)
      else if d = 0x44 then ESet [Outside digitRanges]
      else if d = 0x73 then ESet (inside spaceRanges)
      else if d = 0x53 then ESet [Outside spaceRanges]
      else if d = 0x77 then ESet (inside wordRanges)
      else if d = 0x57 then ESet [Outside wordRanges]
      else if d = 0x66 then EChar 0x0C
      else if d = 0x6E then EChar 0x0A
      else if d = 0x72 then EChar 0x0D
      else if d = 0x74 then EChar 0x09
      else if d = 0x76 then EChar 0x0B
      else if d = 0x30 then (if r \<noteq> [] \<and> isDigit (hd r) then EUnsupported else EChar 0)
      else if isDigit d then EUnsupported
      else if d = 0x63 \<or> d = 0x78 \<or> d = 0x75 \<or> d = 0x6B then EUnsupported
      else EChar d)"

text \<open>
  A character class, read after its opening bracket (and circumflex): the atoms up to
  the closing bracket and the number of code units read. A class that is not closed
  is a syntax error. In a class, \<open>\b\<close> is the backspace.
\<close>

datatype classAtom = CDash | CChar jschar | CSet "classItem list"

datatype classScan = ClassEnd "classAtom list" nat | ClassError | ClassUnsupported

fun consAtom :: "classAtom \<Rightarrow> nat \<Rightarrow> classScan \<Rightarrow> classScan" where
  "consAtom a k (ClassEnd atoms n) = ClassEnd (a # atoms) (n + k)"
| "consAtom a k ClassError = ClassError"
| "consAtom a k ClassUnsupported = ClassUnsupported"

fun scanClass :: "jsstring \<Rightarrow> classScan" where
  "scanClass [] = ClassError"
| "scanClass [c] = (if c = 0x5D then ClassEnd [] 1 else ClassError)"
| "scanClass (c # d # r) =
     (if c = 0x5D then ClassEnd [] 1
      else if c = 0x5C then
        (case (if d = 0x62 then EChar 0x08 else characterEscape d r) of
           EChar e \<Rightarrow> consAtom (CChar e) 2 (scanClass r)
         | ESet items \<Rightarrow> consAtom (CSet items) 2 (scanClass r)
         | EUnsupported \<Rightarrow> ClassUnsupported)
      else consAtom (if c = 0x2D then CDash else CChar c) 1 (scanClass (d # r)))"

fun atomItems :: "classAtom \<Rightarrow> classItem list" where
  "atomItems CDash = [Range 0x2D 0x2D]"
| "atomItems (CChar c) = [Range c c]"
| "atomItems (CSet items) = items"

fun atomChar :: "classAtom \<Rightarrow> jschar option" where
  "atomChar CDash = Some 0x2D"
| "atomChar (CChar c) = Some c"
| "atomChar (CSet items) = None"

text \<open>
  The ranges of a class: an atom, a dash and an atom are a range (a syntax error,
  \<open>None\<close>, when out of order) unless one of them is a class escape, and then they are
  three members.
\<close>

fun classRanges :: "classAtom list \<Rightarrow> classItem list option" where
  "classRanges (a # CDash # b # r) =
     (case (atomChar a, atomChar b) of
        (Some lo, Some hi) \<Rightarrow>
          if hi < lo then None else map_option (\<lambda>items. Range lo hi # items) (classRanges r)
      | _ \<Rightarrow>
          map_option (\<lambda>items. atomItems a @ [Range 0x2D 0x2D] @ atomItems b @ items)
            (classRanges r))"
| "classRanges (a # r) = map_option (\<lambda>items. atomItems a @ items) (classRanges r)"
| "classRanges [] = Some []"

text \<open>
  A quantifier in braces, read after the opening brace: the bounds and the number of
  code units read. Braces that do not have this form are ordinary characters.
\<close>

definition bracedQuantifier :: "jsstring \<Rightarrow> (nat \<times> nat option \<times> nat) option" where
  "bracedQuantifier cs =
     (let d1 = takeWhile isDigit cs; r1 = dropWhile isDigit cs in
      case digitsValue 10 d1 of
        None \<Rightarrow> None
      | Some lo \<Rightarrow>
          (case r1 of
             [] \<Rightarrow> None
           | c # r2 \<Rightarrow>
               if c = 0x7D then Some (lo, Some lo, length d1 + 1)
               else if c = 0x2C then
                 (let d2 = takeWhile isDigit r2; r3 = dropWhile isDigit r2 in
                  if r3 \<noteq> [] \<and> hd r3 = 0x7D
                  then Some (lo, digitsValue 10 d2, length d1 + length d2 + 2)
                  else None)
               else None))"

datatype assertion = InputStart | InputEnd | WordBoundary | NotWordBoundary

datatype token =
    TAtom charset
  | TAssert assertion
  | TQuant nat "nat option" bool
  | TOpen bool
  | TClose
  | TBar

text \<open>
  The token that starts with the code unit \<open>c\<close>, followed by \<open>cs\<close>, and the number of
  code units of \<open>cs\<close> that belong to it. A quantifier followed by a question mark is
  lazy.
\<close>

datatype lexed = Tok token nat | LexError | LexUnsupported

definition quantifier :: "nat \<Rightarrow> nat option \<Rightarrow> nat \<Rightarrow> jsstring \<Rightarrow> lexed" where
  "quantifier lo hi used cs =
     (if drop used cs \<noteq> [] \<and> hd (drop used cs) = 0x3F then Tok (TQuant lo hi False) (used + 1)
      else Tok (TQuant lo hi True) used)"

definition lexAt :: "jschar \<Rightarrow> jsstring \<Rightarrow> lexed" where
  "lexAt c cs =
     (if c = 0x5C then
        (case cs of
           [] \<Rightarrow> LexError
         | d # r \<Rightarrow>
             if d = 0x62 then Tok (TAssert WordBoundary) 1
             else if d = 0x42 then Tok (TAssert NotWordBoundary) 1
             else
               (case characterEscape d r of
                  EChar e \<Rightarrow> Tok (TAtom (single e)) 1
                | ESet items \<Rightarrow> Tok (TAtom (CharSet False items)) 1
                | EUnsupported \<Rightarrow> LexUnsupported))
      else if c = 0x2E then Tok (TAtom (CharSet True (inside lineTerminatorRanges))) 0
      else if c = 0x5E then Tok (TAssert InputStart) 0
      else if c = 0x24 then Tok (TAssert InputEnd) 0
      else if c = 0x2A then quantifier 0 None 0 cs
      else if c = 0x2B then quantifier 1 None 0 cs
      else if c = 0x3F then quantifier 0 (Some 1) 0 cs
      else if c = 0x7B then
        (case bracedQuantifier cs of
           None \<Rightarrow> Tok (TAtom (single c)) 0
         | Some (lo, hi, used) \<Rightarrow>
             if (case hi of Some h \<Rightarrow> h < lo | None \<Rightarrow> False) then LexError
             else quantifier lo hi used cs)
      else if c = 0x28 then
        (if cs \<noteq> [] \<and> hd cs = 0x3F then
           (if tl cs \<noteq> [] \<and> hd (tl cs) = 0x3A then Tok (TOpen False) 2 else LexUnsupported)
         else Tok (TOpen True) 0)
      else if c = 0x29 then Tok TClose 0
      else if c = 0x7C then Tok TBar 0
      else if c = 0x5B then
        (let negated = (cs \<noteq> [] \<and> hd cs = 0x5E) in
         case scanClass (if negated then tl cs else cs) of
           ClassEnd atoms used \<Rightarrow>
             (case classRanges atoms of
                None \<Rightarrow> LexError
              | Some items \<Rightarrow> Tok (TAtom (CharSet negated items)) (if negated then used + 1 else used))
         | ClassError \<Rightarrow> LexError
         | ClassUnsupported \<Rightarrow> LexUnsupported)
      else Tok (TAtom (single c)) 0)"

text \<open>The tokens of a pattern; the first argument counts the code units to skip.\<close>

fun lexer :: "nat \<Rightarrow> jsstring \<Rightarrow> token list outcome" where
  "lexer n [] = Returns []"
| "lexer (Suc n) (c # cs) = lexer n cs"
| "lexer 0 (c # cs) =
     (case lexAt c cs of
        Tok t used \<Rightarrow>
          (case lexer used cs of
             Returns ts \<Rightarrow> Returns (t # ts)
           | Throws \<Rightarrow> Throws
           | Unmodelled \<Rightarrow> Unmodelled)
      | LexError \<Rightarrow> Throws
      | LexUnsupported \<Rightarrow> Unmodelled)"

datatype regex =
    Empty
  | Atom charset
  | Assert assertion
  | Seq regex regex
  | Alt regex regex
  | Group "nat option" regex
  | Repeat regex nat "nat option" bool

text \<open>
  The parser keeps a stack of the groups that are open, the innermost first: for each
  one its kind, the alternatives that are complete, and the terms of the alternative
  being read, the latest first, each with a mark telling whether a quantifier may
  follow it. A quantifier with nothing to repeat, a closing parenthesis without an
  opening one and a group that is not closed are syntax errors (\<open>None\<close>). The result
  is the pattern and the number of its capturing groups.
\<close>

datatype groupKind = Whole | Capturing nat | NonCapturing

type_synonym frame = "groupKind \<times> regex list \<times> (regex \<times> bool) list"

definition sequence :: "(regex \<times> bool) list \<Rightarrow> regex" where
  "sequence terms = foldl (\<lambda>r (t, q). Seq t r) Empty terms"

fun alternatives :: "regex list \<Rightarrow> regex" where
  "alternatives [] = Empty"
| "alternatives [a] = a"
| "alternatives (a # b # r) = Alt a (alternatives (b # r))"

definition disjunction :: "regex list \<Rightarrow> (regex \<times> bool) list \<Rightarrow> regex" where
  "disjunction alts terms = alternatives (rev (sequence terms # alts))"

fun parseTokens :: "token list \<Rightarrow> frame list \<Rightarrow> nat \<Rightarrow> (regex \<times> nat) option" where
  "parseTokens [] [(Whole, alts, terms)] count = Some (disjunction alts terms, count)"
| "parseTokens [] stack count = None"
| "parseTokens (t # ts) [] count = None"
| "parseTokens (TAtom cs # ts) ((kind, alts, terms) # stack) count =
     parseTokens ts ((kind, alts, (Atom cs, True) # terms) # stack) count"
| "parseTokens (TAssert a # ts) ((kind, alts, terms) # stack) count =
     parseTokens ts ((kind, alts, (Assert a, False) # terms) # stack) count"
| "parseTokens (TQuant lo hi greedy # ts) ((kind, alts, terms) # stack) count =
     (case terms of
        (r, True) # earlier \<Rightarrow>
          parseTokens ts ((kind, alts, (Repeat r lo hi greedy, False) # earlier) # stack) count
      | _ \<Rightarrow> None)"
| "parseTokens (TOpen capturing # ts) stack count =
     (if capturing then parseTokens ts ((Capturing (Suc count), [], []) # stack) (Suc count)
      else parseTokens ts ((NonCapturing, [], []) # stack) count)"
| "parseTokens (TClose # ts) ((kind, alts, terms) # stack) count =
     (case (kind, stack) of
        (Capturing i, (kind', alts', terms') # outer) \<Rightarrow>
          parseTokens ts
            ((kind', alts', (Group (Some i) (disjunction alts terms), True) # terms') # outer) count
      | (NonCapturing, (kind', alts', terms') # outer) \<Rightarrow>
          parseTokens ts
            ((kind', alts', (Group None (disjunction alts terms), True) # terms') # outer) count
      | _ \<Rightarrow> None)"
| "parseTokens (TBar # ts) ((kind, alts, terms) # stack) count =
     parseTokens ts ((kind, sequence terms # alts, []) # stack) count"

text \<open>\<open>new RegExp(pattern)\<close>: a syntax error throws.\<close>

definition compile :: "jsstring \<Rightarrow> (regex \<times> nat) outcome" where
  "compile pattern =
     (case lexer 0 pattern of
        Returns ts \<Rightarrow>
          (case parseTokens ts [(Whole, [], [])] 0 of
             Some r \<Rightarrow> Returns r
           | None \<Rightarrow> Throws)
      | Throws \<Rightarrow> Throws
      | Unmodelled \<Rightarrow> Unmodelled)"

subsection \<open>Matching\<close>

text \<open>
  The state of a match: the input read so far, in reverse, the input that remains,
  and the text captured by each group. A pattern maps a state to the states in which
  a match of it can end, in the order in which backtracking tries them; the first
  one is the match.
\<close>

type_synonym matchState = "jsstring \<times> jsstring \<times> jsstring option list"

definition remaining :: "matchState \<Rightarrow> jsstring" where
  "remaining x = fst (snd x)"

fun groupsIn :: "regex \<Rightarrow> nat list" where
  "groupsIn (Seq a b) = groupsIn a @ groupsIn b"
| "groupsIn (Alt a b) = groupsIn a @ groupsIn b"
| "groupsIn (Group (Some i) r) = i # groupsIn r"
| "groupsIn (Group None r) = groupsIn r"
| "groupsIn (Repeat r lo hi greedy) = groupsIn r"
| "groupsIn r = []"

definition clearCaptures :: "nat list \<Rightarrow> matchState \<Rightarrow> matchState" where
  "clearCaptures groups x =
     (case x of (seen, rest, caps) \<Rightarrow>
        (seen, rest, foldl (\<lambda>caps i. caps[i - 1 := None]) caps groups))"

text \<open>
  A quantified term: each turn clears the captures of the groups inside; once the
  lower bound is reached, a turn that reads nothing is given up; a greedy quantifier
  tries another turn before it tries to stop, a lazy one after.
\<close>

function repeatMatcher ::
  "(matchState \<Rightarrow> matchState list) \<Rightarrow> nat list \<Rightarrow> nat \<Rightarrow> nat option \<Rightarrow> bool
     \<Rightarrow> matchState \<Rightarrow> matchState list" where
  "repeatMatcher m groups lo hi greedy x =
     (if hi = Some 0 then [x]
      else
        (let z = concat
                   (map (repeatMatcher m groups (lo - 1) (map_option (\<lambda>k. k - 1) hi) greedy)
                      (filter (\<lambda>y. lo \<noteq> 0 \<or> length (remaining y) < length (remaining x))
                         (m (clearCaptures groups x))))
         in if lo \<noteq> 0 then z else if greedy then z @ [x] else x # z))"
  by pat_completeness auto
termination
  by (relation "measures [\<lambda>(m, groups, lo, hi, greedy, x). lo,
                          \<lambda>(m, groups, lo, hi, greedy, x). length (remaining x)]")
     auto

declare repeatMatcher.simps [simp del]

definition holds :: "assertion \<Rightarrow> matchState \<Rightarrow> bool" where
  "holds a x =
     (case x of (seen, rest, caps) \<Rightarrow>
        (case a of
           InputStart \<Rightarrow> seen = []
         | InputEnd \<Rightarrow> rest = []
         | WordBoundary \<Rightarrow>
             (seen \<noteq> [] \<and> isWordChar (hd seen)) \<noteq> (rest \<noteq> [] \<and> isWordChar (hd rest))
         | NotWordBoundary \<Rightarrow>
             (seen \<noteq> [] \<and> isWordChar (hd seen)) = (rest \<noteq> [] \<and> isWordChar (hd rest))))"

fun matchR :: "regex \<Rightarrow> matchState \<Rightarrow> matchState list" where
  "matchR Empty x = [x]"
| "matchR (Atom cs) x =
     (case x of
        (seen, [], caps) \<Rightarrow> []
      | (seen, c # rest, caps) \<Rightarrow> if inSet c cs then [(c # seen, rest, caps)] else [])"
| "matchR (Assert a) x = (if holds a x then [x] else [])"
| "matchR (Seq a b) x = concat (map (matchR b) (matchR a x))"
| "matchR (Alt a b) x = matchR a x @ matchR b x"
| "matchR (Group None r) x = matchR r x"
| "matchR (Group (Some i) r) x =
     map (\<lambda>(seen, rest, caps).
            (seen, rest, caps[i - 1 := Some (take (length (remaining x) - length rest) (remaining x))]))
       (matchR r x)"
| "matchR (Repeat r lo hi greedy) x = repeatMatcher (matchR r) (groupsIn r) lo hi greedy x"

subsection \<open>Replacement\<close>

text \<open>
  GetSubstitution: in the replacement text, \<open>$$\<close> is a dollar sign, \<open>$&\<close> the matched
  text, \<open>$`\<close> the text before the match and \<open>$'\<close> the text after it; \<open>$n\<close> and \<open>$nn\<close> are
  the text captured by a group, when the pattern has that many groups (two digits
  that name no group are read as one digit and a character); any other dollar sign
  stands for itself.
\<close>

definition capture :: "jsstring option list \<Rightarrow> jsstring \<Rightarrow> jsstring \<Rightarrow> jsstring" where
  "capture caps digits ref =
     (if 1 \<le> indexValue digits \<and> indexValue digits \<le> length caps then
        (case caps ! (indexValue digits - 1) of Some t \<Rightarrow> t | None \<Rightarrow> [])
      else ref)"

function getSubstitution ::
  "jsstring \<Rightarrow> jsstring \<Rightarrow> jsstring \<Rightarrow> jsstring option list \<Rightarrow> jsstring \<Rightarrow> jsstring" where
  "getSubstitution matched pre post caps [] = []"
| "getSubstitution matched pre post caps [c] = [c]"
| "getSubstitution matched pre post caps (c # d # r) =
     (if c \<noteq> 0x24 then c # getSubstitution matched pre post caps (d # r)
      else if d = 0x24 then d # getSubstitution matched pre post caps r
      else if d = 0x26 then matched @ getSubstitution matched pre post caps r
      else if d = 0x60 then pre @ getSubstitution matched pre post caps r
      else if d = 0x27 then post @ getSubstitution matched pre post caps r
      else if isDigit d then
        (case r of
           [] \<Rightarrow> capture caps [d] [c, d]
         | e # r' \<Rightarrow>
             if isDigit e \<and> indexValue [d, e] \<le> length caps then
               capture caps [d, e] [c, d, e] @ getSubstitution matched pre post caps r'
             else capture caps [d] [c, d] @ getSubstitution matched pre post caps (e # r'))
      else c # getSubstitution matched pre post caps (d # r))"
  by pat_completeness auto
termination
  by (relation "measure (\<lambda>(matched, pre, post, caps, template). length template)") auto

text \<open>
  \<open>str.replace(regex, replacement)\<close> for a pattern with the flag \<open>g\<close>: a match is looked
  for at each position from left to right; after a match the search goes on where the
  match ended, one code unit further when the match is empty. \<open>seen\<close> is the part
  of the subject already scanned, in reverse.
\<close>

function replaceRegex ::
  "regex \<Rightarrow> nat \<Rightarrow> jsstring \<Rightarrow> jsstring \<Rightarrow> jsstring \<Rightarrow> jsstring" where
  "replaceRegex re count repl seen s =
     (case matchR re (seen, s, replicate count None) of
        [] \<Rightarrow> (case s of [] \<Rightarrow> [] | c # cs \<Rightarrow> c # replaceRegex re count repl (c # seen) cs)
      | y # ys \<Rightarrow>
          (let matched = take (length s - length (remaining y)) s;
               post = drop (length matched) s;
               out = getSubstitution matched (rev seen) post (snd (snd y)) repl
           in if matched = [] then
                out @ (case s of [] \<Rightarrow> []
                       | c # cs \<Rightarrow> c # replaceRegex re count repl (c # seen) cs)
              else out @ replaceRegex re count repl (rev matched @ seen) post))"
  by pat_completeness auto
termination
  by (relation "measure (\<lambda>(re, count, repl, seen, s). length s)") auto

declare replaceRegex.simps [simp del]

section \<open>The template processor\<close>

subsection \<open>Merge tags: a pattern built from the key\<close>

text \<open>The pattern of a key: the escaped braces and the key spliced in between.\<close>

definition patternOf :: "jsstring \<Rightarrow> jsstring" where
  "patternOf key = [0x5C, 0x7B, 0x5C, 0x7B] @ key @ [0x5C, 0x7D, 0x5C, 0x7D]"

text \<open>
  The replacement text \<open>data[key] || ''\<close>, converted to a string by \<open>replace\<close>; \<open>None\<close>
  is the TypeError of a value that has no string form.
\<close>

definition replacementOf :: "json \<Rightarrow> jsstring option" where
  "replacementOf v = (if truthy v then toString v else Some [])"

text \<open>
  One turn of the \<open>forEach\<close>: the pattern is built, the replacement is converted to a
  string, and every match is replaced.
\<close>

definition replaceTag :: "jsstring \<Rightarrow> json \<Rightarrow> jsstring \<Rightarrow> jsstring outcome" where
  "replaceTag key v s =
     (case compile (patternOf key) of
        Returns (re, count) \<Rightarrow>
          (case replacementOf v of
             None \<Rightarrow> Throws
           | Some repl \<Rightarrow> Returns (replaceRegex re count repl [] s))
      | Throws \<Rightarrow> Throws
      | Unmodelled \<Rightarrow> Unmodelled)"

text \<open>The \<open>forEach\<close> over \<open>Object.keys(data)\<close>; \<open>data[key]\<close> is the key's own value.\<close>

fun mergeTags :: "jsobject \<Rightarrow> jsstring \<Rightarrow> jsstring outcome" where
  "mergeTags [] s = Returns s"
| "mergeTags ((key, v) # kvs) s =
     (case replaceTag key v s of
        Returns s' \<Rightarrow> mergeTags kvs s'
      | Throws \<Rightarrow> Throws
      | Unmodelled \<Rightarrow> Unmodelled)"

subsection \<open>Conditional blocks\<close>

text \<open>The first occurrence of \<open>pat\<close>: the text before it and the text after it.\<close>

fun findFirst :: "jsstring \<Rightarrow> jsstring \<Rightarrow> (jsstring \<times> jsstring) option" where
  "findFirst pat [] = (if pat = [] then Some ([], []) else None)"
| "findFirst pat (c # cs) =
     (if prefix pat (c # cs) then Some ([], drop (length pat) (c # cs))
      else map_option (\<lambda>(b, a). (c # b, a)) (findFirst pat cs))"

text \<open>
  One match of the conditional pattern at the start of \<open>s\<close>: the opening marker, a
  non-empty run of word characters, the closing braces, then the shortest text up to
  the next closing marker. The run of word characters is the longest one: a shorter
  run would have to be followed by a brace, and is followed by a word character.
  The result is the condition, the content and the text after the match.
\<close>

definition matchIf :: "jsstring \<Rightarrow> (jsstring \<times> jsstring \<times> jsstring) option" where
  "matchIf s =
     (if prefix (lit ''{{#if '') s then
        (let r = drop 6 s; w = takeWhile isWordChar r; r2 = dropWhile isWordChar r in
         if w \<noteq> [] \<and> prefix (lit ''}}'') r2 then
           (case findFirst (lit ''{{/if}}'') (drop 2 r2) of
              Some (content, rest) \<Rightarrow> Some (w, content, rest)
            | None \<Rightarrow> None)
         else None)
      else None)"

lemma findFirst_length:
  "findFirst pat s = Some (b, a) \<Longrightarrow> length b + length pat + length a = length s"
proof (induction s arbitrary: b)
  case Nil
  then show ?case by (simp split: if_splits)
next
  case (Cons c cs)
  show ?case
  proof (cases "prefix pat (c # cs)")
    case True
    then obtain r where r: "c # cs = pat @ r" by (auto simp: prefix_def)
    from Cons.prems True have "b = []" "a = drop (length pat) (c # cs)" by auto
    with r show ?thesis by simp
  next
    case False
    with Cons.prems obtain b' where "findFirst pat cs = Some (b', a)" "b = c # b'"
      by auto
    with Cons.IH show ?thesis by fastforce
  qed
qed

lemma matchIf_shorter:
  assumes "matchIf s = Some (w, content, rest)"
  shows "length rest < length s"
proof -
  from assms have p: "prefix (lit ''{{#if '') s"
    by (simp add: matchIf_def split: if_splits)
  from assms obtain r2 where
    f: "findFirst (lit ''{{/if}}'') (drop 2 r2) = Some (content, rest)"
    and r2: "r2 = dropWhile isWordChar (drop 6 s)"
    by (auto simp: matchIf_def Let_def split: if_splits option.splits)
  from findFirst_length [OF f] have "length rest < length (drop 2 r2) \<or> drop 2 r2 = []"
    by (auto simp: lit_def)
  moreover from findFirst_length [OF f] have "drop 2 r2 \<noteq> []"
    by (auto simp: lit_def)
  ultimately have "length rest < length r2" by simp
  also have "\<dots> \<le> length (drop 6 s)"
    unfolding r2 by (rule length_dropWhile_le)
  also have "\<dots> \<le> length s" by simp
  finally show ?thesis .
qed

text \<open>
  The replacement of every conditional block, left to right; the callback keeps the
  content when \<open>data[condition]\<close> is truthy and returns the empty string otherwise.
\<close>

function resolveIfs :: "jsobject \<Rightarrow> jsstring \<Rightarrow> jsstring" where
  "resolveIfs dat [] = []"
| "resolveIfs dat (c # cs) =
     (case matchIf (c # cs) of
        Some (condition, content, rest) \<Rightarrow>
          (if truthyProp (getProp dat condition) then content else []) @ resolveIfs dat rest
      | None \<Rightarrow> c # resolveIfs dat cs)"
  by pat_completeness auto
termination
  by (relation "measure (\<lambda>(dat, s). length s)") (auto dest: matchIf_shorter)

subsection \<open>Bold markers and newlines\<close>

text \<open>
  The dot of a pattern without the \<open>s\<close> flag matches any code unit but the line
  terminators: line feed, carriage return, U+2028 and U+2029.
\<close>

definition isLineTerminator :: "jschar \<Rightarrow> bool" where
  "isLineTerminator c \<longleftrightarrow> c = 0x0A \<or> c = 0x0D \<or> c = 0x2028 \<or> c = 0x2029"

text \<open>
  After the opening asterisks: the shortest run of non-terminators that is followed
  by two asterisks. The result is the captured text and the text after the match.
\<close>

fun findClose :: "jsstring \<Rightarrow> (jsstring \<times> jsstring) option" where
  "findClose [] = None"
| "findClose (c # cs) =
     (if prefix (lit ''**'') (c # cs) then Some ([], drop 2 (c # cs))
      else if isLineTerminator c then None
      else map_option (\<lambda>(x, r). (c # x, r)) (findClose cs))"

definition matchBold :: "jsstring \<Rightarrow> (jsstring \<times> jsstring) option" where
  "matchBold s = (if prefix (lit ''**'') s then findClose (drop 2 s) else None)"

lemma findClose_length: "findClose s = Some (x, r) \<Longrightarrow> length r < length s"
proof (induction s arbitrary: x)
  case Nil
  then show ?case by simp
next
  case (Cons c cs)
  then show ?case
    by (fastforce split: if_splits)
qed

lemma matchBold_shorter: "matchBold s = Some (x, r) \<Longrightarrow> length r < length s"
  by (auto simp: matchBold_def split: if_splits dest!: findClose_length)

text \<open>The replacement text is the capture between the two tags.\<close>

function boldToStrong :: "jsstring \<Rightarrow> jsstring" where
  "boldToStrong [] = []"
| "boldToStrong (c # cs) =
     (case matchBold (c # cs) of
        Some (x, rest) \<Rightarrow> lit ''<strong>'' @ x @ lit ''</strong>'' @ boldToStrong rest
      | None \<Rightarrow> c # boldToStrong cs)"
  by pat_completeness auto
termination
  by (relation "measure length") (auto dest: matchBold_shorter)

fun newlineToBr :: "jsstring \<Rightarrow> jsstring" where
  "newlineToBr [] = []"
| "newlineToBr (c # cs) = (if c = 0x0A then lit ''<br>'' @ newlineToBr cs else c # newlineToBr cs)"

subsection \<open>The four steps\<close>

definition processTemplate :: "jsstring \<Rightarrow> jsobject \<Rightarrow> jsstring outcome" where
  "processTemplate template dat =
     (case mergeTags dat template of
        Returns result \<Rightarrow> Returns (newlineToBr (boldToStrong (resolveIfs dat result)))
      | Throws \<Rightarrow> Throws
      | Unmodelled \<Rightarrow> Unmodelled)"

section \<open>Requests, responses and the process environment\<close>

text \<open>
  The request body that \<open>express.json()\<close> hands to a handler is the list of the
  properties of the parsed object (a body that is an array has none of the properties
  the handlers read, like the empty object). A destructured field of the body is
  \<open>None\<close> when the body has no such property (\<open>undefined\<close>). \<open>truthyField\<close> is
  ToBoolean on it, and \<open>orElse\<close> is \<open>x || d\<close>.
\<close>

definition field :: "jsobject \<Rightarrow> string \<Rightarrow> json option" where
  "field body name = map_of body (lit name)"

fun truthyField :: "json option \<Rightarrow> bool" where
  "truthyField None = False"
| "truthyField (Some v) = truthy v"

definition orElse :: "json option \<Rightarrow> json \<Rightarrow> json" where
  "orElse x d = (case x of Some v \<Rightarrow> if truthy v then v else d | None \<Rightarrow> d)"

text \<open>
  A response: the status (200 unless \<open>res.status\<close> sets it) and the JSON body. The
  message of an exception that the runtime itself throws (a TypeError, say) is
  engine-defined text, kept as \<open>RuntimeError\<close>.
\<close>

datatype resBody =
    ErrorBody jsstring
  | RuntimeError
  | SuccessBody jsstring
  | SessionBody json json

record response =
  status :: nat
  body :: resBody

text \<open>The environment variables the server reads; \<open>None\<close> is an unset variable.\<close>

record environment =
  envSTRIPE_SECRET_KEY :: "jsstring option"
  envRESEND_API_KEY :: "jsstring option"
  envGMAIL_USER :: "jsstring option"
  envGMAIL_APP_PASSWORD :: "jsstring option"

definition envOr :: "jsstring option \<Rightarrow> jsstring \<Rightarrow> jsstring" where
  "envOr x d = (case x of Some v \<Rightarrow> if v \<noteq> [] then v else d | None \<Rightarrow> d)"

definition STRIPE_SECRET_KEY :: "environment \<Rightarrow> jsstring" where
  "STRIPE_SECRET_KEY env = envOr (envSTRIPE_SECRET_KEY env) []"

definition RESEND_API_KEY :: "environment \<Rightarrow> jsstring" where
  "RESEND_API_KEY env = envOr (envRESEND_API_KEY env) []"

definition REPLY_TO_EMAIL :: "environment \<Rightarrow> jsstring" where
  "REPLY_TO_EMAIL env = envOr (envGMAIL_USER env) (lit ''jack@poolauthoritycny.com'')"

definition emailConfigured :: "environment \<Rightarrow> bool" where
  "emailConfigured env \<longleftrightarrow> RESEND_API_KEY env \<noteq> []"

definition runtimeError :: response where
  "runtimeError = \<lparr>status = 500, body = RuntimeError\<rparr>"

section \<open>The checkout endpoint\<close>

text \<open>
  The configuration object handed to \<open>stripe.checkout.sessions.create\<close>. The payment
  provider is a parameter of the handler: it answers with the message of the error it
  throws, or with the identifier and the address of the session. The handler returns
  the response together with the calls it made to the provider, in order.
\<close>

record sessionConfig =
  payment_method_types :: "jsstring list"
  currency :: jsstring
  product_name :: json
  product_description :: jsstring
  unit_amount :: jsnum
  quantity :: nat
  mode :: jsstring
  success_url :: jsstring
  cancel_url :: jsstring
  metadata :: json
  customer_email :: "json option"

type_synonym paymentProvider = "sessionConfig \<Rightarrow> jsstring + (json \<times> json)"

text \<open>
  The guard \<open>!amount || amount <= 0\<close>; \<open>None\<close> is the TypeError of an amount that is
  truthy and has no numeric form.
\<close>

definition invalidAmount :: "json option \<Rightarrow> bool option" where
  "invalidAmount amount =
     (case amount of
        None \<Rightarrow> Some True
      | Some a \<Rightarrow>
          if \<not> truthy a then Some True
          else (case toNumber a of None \<Rightarrow> None | Some n \<Rightarrow> Some (numLeqZero n)))"

text \<open>
  An exception thrown by a conversion is caught by the handler, which answers 500
  with the message of the exception; the provider has not been called then.
\<close>

definition createCheckoutSession ::
  "paymentProvider \<Rightarrow> jsstring option \<Rightarrow> jsobject \<Rightarrow> response \<times> sessionConfig list" where
  "createCheckoutSession stripe origin reqBody =
     (let amount = field reqBody ''amount'';
          customerEmail = field reqBody ''customerEmail'';
          description = field reqBody ''description'';
          customerName = field reqBody ''customerName'';
          metadata = field reqBody ''metadata''
      in case invalidAmount amount of
           None \<Rightarrow> (runtimeError, [])
         | Some True \<Rightarrow> (\<lparr>status = 400, body = ErrorBody (lit ''Invalid amount'')\<rparr>, [])
         | Some False \<Rightarrow>
            (case (toString (orElse customerName (JStr (lit ''Customer''))),
                   Option.bind amount toNumber) of
               (Some name, Some n) \<Rightarrow>
                 (let sessionConfig =
                    \<lparr>payment_method_types = [lit ''card''],
                     currency = lit ''usd'',
                     product_name = orElse description (JStr (lit ''Pool Service'')),
                     product_description = lit ''Invoice for '' @ name,
                     unit_amount = mathRound (numTimes n (Fin 100)),
                     quantity = 1,
                     mode = lit ''payment'',
                     success_url =
                       envOr origin (lit ''http://localhost:3000'') @ lit ''?payment=success'',
                     cancel_url =
                       envOr origin (lit ''http://localhost:3000'') @ lit ''?payment=cancelled'',
                     metadata = orElse metadata (JObj []),
                     customer_email =
                       (if truthyField customerEmail then customerEmail else None)\<rparr>
                  in case stripe sessionConfig of
                       Inl message \<Rightarrow>
                         (\<lparr>status = 500, body = ErrorBody message\<rparr>, [sessionConfig])
                     | Inr (sessionId, url) \<Rightarrow>
                         (\<lparr>status = 200, body = SessionBody sessionId url\<rparr>, [sessionConfig]))
             | _ \<Rightarrow> (runtimeError, [])))"

section \<open>The email endpoints\<close>

subsection \<open>Company settings and the HTML wrapper\<close>

text \<open>
  \<open>companySettings?.name\<close>: \<open>undefined\<close> unless the settings are an object with that
  property. \<open>textOr\<close> is \<open>x || d\<close> spliced into a template literal; the result
  is \<open>None\<close> when the value has no string form, and the template literal throws a
  TypeError. \<open>wrapInHtmlEmail\<close> throws when one of the settings it splices in does.
\<close>

definition csField :: "json option \<Rightarrow> string \<Rightarrow> json option" where
  "csField companySettings name =
     (case companySettings of Some (JObj ps) \<Rightarrow> map_of ps (lit name) | _ \<Rightarrow> None)"

definition textOr :: "json option \<Rightarrow> jsstring \<Rightarrow> jsstring option" where
  "textOr x d = toString (orElse x (JStr d))"

definition newline :: jsstring where
  "newline = [0x0A]"

definition quoteMark :: jsstring where
  "quoteMark = [0x27]"

definition wrapInHtmlEmail :: \<open>jsstring \<Rightarrow> json option \<Rightarrow> jsstring option\<close> where
  \<open>wrapInHtmlEmail content companySettings =
     (case those
        [textOr (csField companySettings ''primaryColor'') (lit ''#1e3a5f''),
         textOr (csField companySettings ''accentColor'') (lit ''#5bb4d8''),
         (if truthyField (csField companySettings ''logoUrl'') then
            map_option
              (\<lambda>logoUrl. lit ''<img src="'' @ logoUrl @
                 lit ''" alt="Logo" style="max-height: 60px; margin-bottom: 10px;">'')
              (Option.bind (csField companySettings ''logoUrl'') toString)
          else Some []),
         textOr (csField companySettings ''companyName'') (lit ''Pool Authority''),
         textOr (csField companySettings ''companyName'') [],
         textOr (csField companySettings ''address'') [],
         textOr (csField companySettings ''phone'') [],
         textOr (csField companySettings ''email'') []] of
        Some [primaryColor, accentColor, logo, headerName, footerName, address, phone, email] \<Rightarrow>
          Some (concat
       [newline, lit ''<!DOCTYPE html>'',
        newline, lit ''<html>'',
        newline, lit ''<head>'',
        newline, lit ''  <meta charset="utf-8">'',
        newline, lit ''  <meta name="viewport" content="width=device-width, initial-scale=1.0">'',
        newline, lit ''  <style>'',
        newline, lit ''    body { font-family: '', quoteMark, lit ''Segoe UI'', quoteMark, lit '', Arial, sans-serif; line-height: 1.6; color: #333; margin: 0; padding: 0; background: #f5f5f5; }'',
        newline, lit ''    .container { max-width: 600px; margin: 20px auto; background: white; border-radius: 12px; overflow: hidden; box-shadow: 0 2px 10px rgba(0,0,0,0.1); }'',
        newline, lit ''    .header { background: linear-gradient(135deg, '', primaryColor, lit '' 0%, '', accentColor, lit '' 100%); color: white; padding: 30px; text-align: center; }'',
        newline, lit ''    .header h1 { margin: 0; font-size: 24px; }'',
        newline, lit ''    .content { padding: 30px; }'',
        newline, lit ''    .footer { background: #f8f9fa; padding: 20px; text-align: center; font-size: 12px; color: #666; }'',
        newline, lit ''    .btn { display: inline-block; padding: 12px 30px; background: '', primaryColor, lit ''; color: white; text-decoration: none; border-radius: 6px; margin: 10px 0; }'',
        newline, lit ''  </style>'',
        newline, lit ''</head>'',
        newline, lit ''<body>'',
        newline, lit ''  <div class="container">'',
        newline, lit ''    <div class="header">'',
        newline, lit ''      '', logo,
        newline, lit ''      <h1>'', headerName, lit ''</h1>'',
        newline, lit ''    </div>'',
        newline, lit ''    <div class="content">'',
        newline, lit ''      '', content,
        newline, lit ''    </div>'',
        newline, lit ''    <div class="footer">'',
        newline, lit ''      '', footerName, lit ''<br>'',
        newline, lit ''      '', address, lit ''<br>'',
        newline, lit ''      '', phone, lit '' | '', email,
        newline, lit ''    </div>'',
        newline, lit ''  </div>'',
        newline, lit ''</body>'',
        newline, lit ''</html>''])
      | _ \<Rightarrow> None)\<close>

subsection \<open>The merge data\<close>

text \<open>
  An object literal creates its properties in the order written, and \<open>...data\<close> then
  sets the own properties of \<open>data\<close> one by one. Setting a property that exists keeps
  its place; a new property goes to the end, except that array indices (canonical
  decimal numerals below \<open>2^32 - 1\<close>) come first, in ascending order.
\<close>

definition isArrayIndex :: "jsstring \<Rightarrow> bool" where
  "isArrayIndex k \<longleftrightarrow>
     k \<noteq> [] \<and> list_all isDigit k \<and> (k = lit ''0'' \<or> hd k \<noteq> 0x30) \<and> indexValue k < 2 ^ 32 - 1"

fun insertIndexed :: "jsstring \<Rightarrow> json \<Rightarrow> jsobject \<Rightarrow> jsobject" where
  "insertIndexed k v [] = [(k, v)]"
| "insertIndexed k v ((k', v') # r) =
     (if isArrayIndex k' \<and> indexValue k' < indexValue k then (k', v') # insertIndexed k v r
      else (k, v) # (k', v') # r)"

definition setProperty :: "jsobject \<Rightarrow> jsstring \<Rightarrow> json \<Rightarrow> jsobject" where
  "setProperty obj k v =
     (if k \<in> set (map fst obj) then map (\<lambda>(k', v'). if k' = k then (k', v) else (k', v')) obj
      else if isArrayIndex k then insertIndexed k v obj
      else obj @ [(k, v)])"

text \<open>
  The own enumerable properties that a spread copies: those of an object, the elements
  of an array and the code units of a string under their indices, none for the other
  values.
\<close>

fun ownProperties :: "json option \<Rightarrow> jsobject" where
  "ownProperties (Some (JObj ps)) = ps"
| "ownProperties (Some (JArr xs)) = map (\<lambda>i. (digitsOf i, xs ! i)) [0..<length xs]"
| "ownProperties (Some (JStr s)) = map (\<lambda>i. (digitsOf i, JStr [s ! i])) [0..<length s]"
| "ownProperties _ = []"

definition spread :: "jsobject \<Rightarrow> json option \<Rightarrow> jsobject" where
  "spread obj dat = foldl (\<lambda>obj (k, v). setProperty obj k v) obj (ownProperties dat)"

text \<open>The derived keys of the weekly-update and quote handlers, and of the invoice handler.\<close>

definition derivedKeys :: "json option \<Rightarrow> jsobject" where
  "derivedKeys companySettings =
     [(lit ''company_name'', orElse (csField companySettings ''companyName'') (JStr (lit ''Pool Authority''))),
      (lit ''owner_name'', orElse (csField companySettings ''ownerName'') (JStr [])),
      (lit ''company_phone'', orElse (csField companySettings ''phone'') (JStr [])),
      (lit ''company_email'', orElse (csField companySettings ''email'') (JStr []))]"

definition mergeData :: "json option \<Rightarrow> json option \<Rightarrow> jsobject" where
  "mergeData companySettings dat = spread (derivedKeys companySettings) dat"

definition invoiceMergeData :: "json option \<Rightarrow> json option \<Rightarrow> json option \<Rightarrow> jsobject" where
  "invoiceMergeData companySettings paymentLink dat =
     spread (derivedKeys companySettings @ [(lit ''payment_link'', orElse paymentLink (JStr []))]) dat"

subsection \<open>The email provider\<close>

text \<open>
  The request that \<open>sendEmailWithResend\<close> posts. The provider is a parameter: it makes
  \<open>fetch\<close> or the reading of the answer throw an error with a message, or answers
  with a failure status and an optional message, or accepts the email.
\<close>

record resendRequest =
  authorization :: jsstring
  mailFrom :: jsstring
  mailTo :: "json list"
  replyTo :: jsstring
  mailSubject :: json
  mailHtml :: jsstring

datatype resendAnswer = FetchThrows jsstring | NotOk "jsstring option" | Accepted

type_synonym emailProvider = "resendRequest \<Rightarrow> resendAnswer"

text \<open>The result is the message of the error thrown, if any, and the requests posted.\<close>

definition sendEmailWithResend ::
  "environment \<Rightarrow> emailProvider \<Rightarrow> json \<Rightarrow> json \<Rightarrow> jsstring \<Rightarrow> jsstring
     \<Rightarrow> jsstring option \<times> resendRequest list" where
  "sendEmailWithResend env provider to subject htmlContent fromName =
     (if RESEND_API_KEY env = [] then (Some (lit ''Resend API key not configured''), [])
      else
        (let request =
           \<lparr>authorization = lit ''Bearer '' @ RESEND_API_KEY env,
            mailFrom = fromName @ lit '' <onboarding@resend.dev>'',
            mailTo = [to],
            replyTo = REPLY_TO_EMAIL env,
            mailSubject = subject,
            mailHtml = htmlContent\<rparr>
         in case provider request of
              FetchThrows message \<Rightarrow> (Some message, [request])
            | NotOk message \<Rightarrow> (Some (envOr message (lit ''Failed to send email'')), [request])
            | Accepted \<Rightarrow> (None, [request])))"

text \<open>
  The end of every handler: send, then answer 200, or 500 with the error's message.
  Four of the handlers splice the recipient into a log line once the email is sent
  (\<open>logged\<close>); a recipient that has no string form makes that throw, and the answer
  is 500 then.
\<close>

definition sendAndRespond ::
  "environment \<Rightarrow> emailProvider \<Rightarrow> json \<Rightarrow> json \<Rightarrow> jsstring \<Rightarrow> jsstring \<Rightarrow> json option
     \<Rightarrow> jsstring \<Rightarrow> response \<times> resendRequest list" where
  "sendAndRespond env provider to subject htmlContent fromName logged successMessage =
     (case sendEmailWithResend env provider to subject htmlContent fromName of
        (Some message, calls) \<Rightarrow> (\<lparr>status = 500, body = ErrorBody message\<rparr>, calls)
      | (None, calls) \<Rightarrow>
          (case logged of
             None \<Rightarrow> (\<lparr>status = 200, body = SuccessBody successMessage\<rparr>, calls)
           | Some v \<Rightarrow>
               if toString v = None then (runtimeError, calls)
               else (\<lparr>status = 200, body = SuccessBody successMessage\<rparr>, calls)))"

definition notConfigured :: response where
  "notConfigured = \<lparr>status = 400, body = ErrorBody (lit ''Email not configured. Set RESEND_API_KEY.'')\<rparr>"

definition recipientRequired :: response where
  "recipientRequired = \<lparr>status = 400, body = ErrorBody (lit ''Recipient email required'')\<rparr>"

subsection \<open>The handlers\<close>

text \<open>
  Rendering \<open>template.subject\<close> or \<open>template.body\<close>. Reading a property of
  \<open>undefined\<close> or \<open>null\<close> throws, and so does \<open>processTemplate\<close> on a value that is
  not a string, which has no \<open>replace\<close> method (the merge data always has keys, and
  the first of them is free of pattern syntax, so the method is always called).
\<close>

definition renderPart :: "json option \<Rightarrow> string \<Rightarrow> jsobject \<Rightarrow> jsstring outcome" where
  "renderPart template name dat =
     (case template of
        None \<Rightarrow> Throws
      | Some JNull \<Rightarrow> Throws
      | Some (JObj ps) \<Rightarrow>
          (case map_of ps (lit name) of
             Some (JStr s) \<Rightarrow> processTemplate s dat
           | _ \<Rightarrow> Throws)
      | Some _ \<Rightarrow> Throws)"

text \<open>
  What the three templated handlers do once the recipient is known; \<open>extra\<close> is the
  text the invoice handler appends to the rendered body. An exception is caught by
  the handler, which answers 500; the result is \<open>None\<close> where the rendering is
  \<open>Unmodelled\<close>.
\<close>

definition sendTemplated ::
  "environment \<Rightarrow> emailProvider \<Rightarrow> json \<Rightarrow> json option \<Rightarrow> jsobject \<Rightarrow> json option
     \<Rightarrow> jsstring option \<Rightarrow> jsstring \<Rightarrow> (response \<times> resendRequest list) option" where
  "sendTemplated env provider to template dat companySettings extra successMessage =
     (case renderPart template ''subject'' dat of
        Unmodelled \<Rightarrow> None
      | Throws \<Rightarrow> Some (runtimeError, [])
      | Returns subject \<Rightarrow>
          (case renderPart template ''body'' dat of
             Unmodelled \<Rightarrow> None
           | Throws \<Rightarrow> Some (runtimeError, [])
           | Returns bodyContent \<Rightarrow>
               (case (Option.bind extra (\<lambda>x. wrapInHtmlEmail (bodyContent @ x) companySettings),
                      textOr (csField companySettings ''companyName'') (lit ''Pool Authority'')) of
                  (Some bodyHtml, Some fromName) \<Rightarrow>
                    Some (sendAndRespond env provider to (JStr subject) bodyHtml fromName
                            (Some to) successMessage)
                | _ \<Rightarrow> Some (runtimeError, []))))"

definition sendWeeklyUpdate ::
  "environment \<Rightarrow> emailProvider \<Rightarrow> jsobject \<Rightarrow> (response \<times> resendRequest list) option" where
  "sendWeeklyUpdate env provider reqBody =
     (if \<not> emailConfigured env then Some (notConfigured, [])
      else
        (let template = field reqBody ''template'';
             dat = field reqBody ''data'';
             companySettings = field reqBody ''companySettings''
         in case field reqBody ''to'' of
              None \<Rightarrow> Some (recipientRequired, [])
            | Some to \<Rightarrow>
                if \<not> truthy to then Some (recipientRequired, [])
                else sendTemplated env provider to template (mergeData companySettings dat)
                       companySettings (Some []) (lit ''Weekly update sent successfully'')))"

text \<open>The button appended by the invoice handler; \<open>None\<close> is a TypeError.\<close>

definition payNowButton :: "json option \<Rightarrow> jsstring option" where
  \<open>payNowButton paymentLink =
     (case paymentLink of
        None \<Rightarrow> Some []
      | Some link \<Rightarrow>
          if \<not> truthy link then Some []
          else map_option
                 (\<lambda>href. lit ''<br><br><a href="'' @ href @ lit ''" class="btn">'' @
                    [0xD83D, 0xDCB3] @ lit '' Pay Now</a>'')
                 (toString link))\<close>

definition sendInvoice ::
  "environment \<Rightarrow> emailProvider \<Rightarrow> jsobject \<Rightarrow> (response \<times> resendRequest list) option" where
  "sendInvoice env provider reqBody =
     (if \<not> emailConfigured env then Some (notConfigured, [])
      else
        (let template = field reqBody ''template'';
             dat = field reqBody ''data'';
             companySettings = field reqBody ''companySettings'';
             paymentLink = field reqBody ''paymentLink''
         in case field reqBody ''to'' of
              None \<Rightarrow> Some (recipientRequired, [])
            | Some to \<Rightarrow>
                if \<not> truthy to then Some (recipientRequired, [])
                else sendTemplated env provider to template
                       (invoiceMergeData companySettings paymentLink dat)
                       companySettings (payNowButton paymentLink)
                       (lit ''Invoice sent successfully'')))"

definition sendQuote ::
  "environment \<Rightarrow> emailProvider \<Rightarrow> jsobject \<Rightarrow> (response \<times> resendRequest list) option" where
  "sendQuote env provider reqBody =
     (if \<not> emailConfigured env then Some (notConfigured, [])
      else
        (let template = field reqBody ''template'';
             dat = field reqBody ''data'';
             companySettings = field reqBody ''companySettings''
         in case field reqBody ''to'' of
              None \<Rightarrow> Some (recipientRequired, [])
            | Some to \<Rightarrow>
                if \<not> truthy to then Some (recipientRequired, [])
                else sendTemplated env provider to template (mergeData companySettings dat)
                       companySettings (Some []) (lit ''Quote sent successfully'')))"

text \<open>
  The generic handler: a body that is truthy but not a string has no \<open>replace\<close>
  method, and the call throws. This handler writes no log line.
\<close>

definition sendEmail ::
  "environment \<Rightarrow> emailProvider \<Rightarrow> jsobject \<Rightarrow> (response \<times> resendRequest list) option" where
  "sendEmail env provider reqBody =
     (if \<not> emailConfigured env then Some (notConfigured, [])
      else
        (let companySettings = field reqBody ''companySettings''
         in case (field reqBody ''to'', field reqBody ''subject'', field reqBody ''body'') of
              (Some to, Some subject, Some content) \<Rightarrow>
                if \<not> truthy to \<or> \<not> truthy subject \<or> \<not> truthy content then
                  Some (\<lparr>status = 400, body = ErrorBody (lit ''to, subject, and body are required'')\<rparr>, [])
                else
                  (case content of
                     JStr text \<Rightarrow>
                       (case (wrapInHtmlEmail (newlineToBr text) companySettings,
                              textOr (csField companySettings ''companyName'') (lit ''Pool Authority'')) of
                          (Some bodyHtml, Some fromName) \<Rightarrow>
                            Some (sendAndRespond env provider to subject bodyHtml fromName None
                                    (lit ''Email sent successfully''))
                        | _ \<Rightarrow> Some (runtimeError, []))
                   | _ \<Rightarrow> Some (runtimeError, []))
            | _ \<Rightarrow>
                Some (\<lparr>status = 400, body = ErrorBody (lit ''to, subject, and body are required'')\<rparr>, [])))"

definition testEmail ::
  "environment \<Rightarrow> emailProvider \<Rightarrow> jsobject \<Rightarrow> response \<times> resendRequest list" where
  "testEmail env provider reqBody =
     (if \<not> emailConfigured env then (notConfigured, [])
      else
        (let recipient = orElse (field reqBody ''to'') (JStr (REPLY_TO_EMAIL env))
         in sendAndRespond env provider recipient (JStr (lit ''Pool Authority - Email Test''))
              (lit ''<h1>'' @ [0x2705] @
               lit '' Email is working!</h1><p>Your Pool Authority email configuration is correct.</p>'')
              (lit ''Pool Authority'') (Some recipient) (lit ''Test email sent!'')))"

subsection \<open>The test endpoint of the Gmail variant\<close>

text \<open>
  The second server of the repository sends through a Gmail transporter, which exists
  only when both mailbox credentials are set. The transporter is a parameter:
  \<open>sendMail\<close> throws an error with a message, or succeeds.
\<close>

definition GMAIL_USER :: "environment \<Rightarrow> jsstring" where
  "GMAIL_USER env = envOr (envGMAIL_USER env) []"

definition GMAIL_APP_PASSWORD :: "environment \<Rightarrow> jsstring" where
  "GMAIL_APP_PASSWORD env = envOr (envGMAIL_APP_PASSWORD env) []"

definition emailTransporter :: "environment \<Rightarrow> bool" where
  "emailTransporter env \<longleftrightarrow> GMAIL_USER env \<noteq> [] \<and> GMAIL_APP_PASSWORD env \<noteq> []"

record mailOptions =
  optFrom :: jsstring
  optTo :: json
  optSubject :: jsstring
  optHtml :: jsstring

definition gmailTestEmail ::
  "environment \<Rightarrow> (mailOptions \<Rightarrow> jsstring option) \<Rightarrow> jsobject \<Rightarrow> response \<times> mailOptions list" where
  "gmailTestEmail env sendMail reqBody =
     (if \<not> emailTransporter env then
        (\<lparr>status = 400,
          body = ErrorBody (lit ''Email not configured. Set GMAIL_USER and GMAIL_APP_PASSWORD.'')\<rparr>, [])
      else
        (let options =
           \<lparr>optFrom = GMAIL_USER env,
            optTo = orElse (field reqBody ''to'') (JStr (GMAIL_USER env)),
            optSubject = lit ''Pool Authority - Email Test'',
            optHtml = lit ''<h1>'' @ [0x2705] @
              lit '' Email is working!</h1><p>Your Pool Authority email configuration is correct.</p>''\<rparr>
         in case sendMail options of
              Some message \<Rightarrow> (\<lparr>status = 500, body = ErrorBody message\<rparr>, [options])
            | None \<Rightarrow> (\<lparr>status = 200, body = SuccessBody (lit ''Test email sent!'')\<rparr>, [options])))"

section \<open>Sample providers and environments\<close>

text \<open>
  Providers and environments for the concrete instances below: a provider that accepts
  every email and one that refuses every email, an environment with every variable set
  and one with none.
\<close>

definition acceptingProvider :: emailProvider where
  "acceptingProvider request = Accepted"

definition rejectingProvider :: emailProvider where
  "rejectingProvider request = NotOk (Some (lit ''Invalid API key''))"

definition sampleEnvironment :: environment where
  "sampleEnvironment =
     \<lparr>envSTRIPE_SECRET_KEY = Some (lit ''sk_test_1''),
      envRESEND_API_KEY = Some (lit ''re_1''),
      envGMAIL_USER = Some (lit ''owner@example.com''),
      envGMAIL_APP_PASSWORD = Some (lit ''secret'')\<rparr>"

definition bareEnvironment :: environment where
  "bareEnvironment =
     \<lparr>envSTRIPE_SECRET_KEY = None, envRESEND_API_KEY = None,
      envGMAIL_USER = None, envGMAIL_APP_PASSWORD = None\<rparr>"

definition acceptingMailer :: "mailOptions \<Rightarrow> jsstring option" where
  "acceptingMailer options = None"


text \<open>A payment provider that opens a session for every configuration.\<close>

definition acceptingPayments :: paymentProvider where
  "acceptingPayments config =
     Inr (JStr (lit ''cs_test_1''), JStr (lit ''https://checkout.example/cs_test_1''))"

text \<open>A provider whose request throws, and a mailbox that refuses the login.\<close>

definition throwingProvider :: emailProvider where
  "throwingProvider request = FetchThrows (lit ''fetch failed'')"

definition failingMailer :: "mailOptions \<Rightarrow> jsstring option" where
  "failingMailer options = Some (lit ''Invalid login'')"

text \<open>A provider that refuses every email without a message.\<close>

definition silentProvider :: emailProvider where
  "silentProvider request = NotOk None"

section \<open>Templates as sequences of segments\<close>

text \<open>
  A key made of pattern characters only (none of the syntax characters
  \<open>^ $ . * + ? ( ) [ ] { } |\<close> and the backslash) gives a pattern that matches the text
  \<open>{{key}}\<close> and nothing else. \<open>replaceLiteral\<close> replaces every occurrence of a text,
  found from left to right, and \<open>literal\<close> is the pattern that matches a text.
\<close>

definition syntaxChars :: "jschar list" where
  "syntaxChars = 0x5C # lit ''^$.*+?()[]{}|''"

definition plainKey :: "jsstring \<Rightarrow> bool" where
  "plainKey k = list_all (\<lambda>c. c \<notin> set syntaxChars) k"

definition tagOf :: "jsstring \<Rightarrow> jsstring" where
  "tagOf k = lit ''{{'' @ k @ lit ''}}''"

fun replaceLiteral :: "jsstring \<Rightarrow> jsstring \<Rightarrow> jsstring \<Rightarrow> jsstring \<Rightarrow> jsstring" where
  "replaceLiteral pat repl seen [] = []"
| "replaceLiteral pat repl seen (c # cs) =
     (if pat \<noteq> [] \<and> prefix pat (c # cs) then
        getSubstitution pat (rev seen) (drop (length pat) (c # cs)) [] repl
          @ replaceLiteral pat repl (rev pat @ seen) (drop (length pat) (c # cs))
      else c # replaceLiteral pat repl (c # seen) cs)"

definition literal :: "jsstring \<Rightarrow> regex" where
  "literal p = foldr (\<lambda>c r. Seq (Atom (single c)) r) p Empty"

text \<open>
  To speak of each conditional block of a template, a template is written as a
  sequence of segments: plain text without an opening brace, and blocks. A block is
  well formed when its condition is a non-empty run of word characters and its content
  does not contain the closing marker, so that the closing marker written after the
  content is the nearest one.
\<close>

datatype ifSegment = IfText jsstring | IfBlock jsstring jsstring

fun ifSource :: "ifSegment \<Rightarrow> jsstring" where
  "ifSource (IfText t) = t"
| "ifSource (IfBlock key content) =
     lit ''{{#if '' @ key @ lit ''}}'' @ content @ lit ''{{/if}}''"

fun ifResolved :: "jsobject \<Rightarrow> ifSegment \<Rightarrow> jsstring" where
  "ifResolved dat (IfText t) = t"
| "ifResolved dat (IfBlock key content) =
     (if truthyProp (getProp dat key) then content else [])"

fun wellFormedIf :: "ifSegment \<Rightarrow> bool" where
  "wellFormedIf (IfText t) = (0x7B \<notin> set t)"
| "wellFormedIf (IfBlock key content) =
     (key \<noteq> [] \<and> list_all isWordChar key \<and> \<not> sublist (lit ''{{/if}}'') content)"






text \<open>
  The data mappings whose keys are free of regular-expression syntax and whose values
  have a string form (the replacement text can be computed without a TypeError).
\<close>

definition supported :: "jsobject \<Rightarrow> bool" where
  "supported dat = list_all (\<lambda>(k, v). plainKey k \<and> replacementOf v \<noteq> None) dat"

text \<open>
  For the merge tags, a template is a sequence of plain text without an opening brace
  and of tags \<open>{{key}}\<close> whose keys hold no brace. An entry of the data mapping is plain
  when its key is free of regular-expression syntax and its value has a string form
  that holds no opening brace (so that it cannot form a tag for a later key) and no
  replacement pattern (a dollar sign followed by a dollar sign, an ampersand, a
  backquote or a quote). \<open>tagMerged\<close> is what a segment becomes: the string form of
  the value of the key when that value is truthy, the empty string when it is falsy,
  and the tag itself when the data mapping does not have the key.
\<close>

datatype tagSegment = TagText jsstring | Tag jsstring

fun tagSource :: "tagSegment \<Rightarrow> jsstring" where
  "tagSource (TagText t) = t"
| "tagSource (Tag k) = tagOf k"

fun wellFormedTag :: "tagSegment \<Rightarrow> bool" where
  "wellFormedTag (TagText t) = (0x7B \<notin> set t)"
| "wellFormedTag (Tag k) = (0x7B \<notin> set k \<and> 0x7D \<notin> set k)"

fun noDollarPattern :: "jsstring \<Rightarrow> bool" where
  "noDollarPattern (c # d # r) =
     (\<not> (c = 0x24 \<and> (d = 0x24 \<or> d = 0x26 \<or> d = 0x60 \<or> d = 0x27)) \<and> noDollarPattern (d # r))"
| "noDollarPattern r = True"

definition plainEntry :: "jsstring \<times> json \<Rightarrow> bool" where
  "plainEntry kv =
     (plainKey (fst kv) \<and>
      (case replacementOf (snd kv) of
         None \<Rightarrow> False
       | Some r \<Rightarrow> 0x7B \<notin> set r \<and> noDollarPattern r))"

fun tagMerged :: "jsobject \<Rightarrow> tagSegment \<Rightarrow> jsstring" where
  "tagMerged dat (TagText t) = t"
| "tagMerged dat (Tag k) =
     (case map_of dat k of
        None \<Rightarrow> tagOf k
      | Some v \<Rightarrow> if truthy v then (case toString v of Some r \<Rightarrow> r | None \<Rightarrow> []) else [])"

fun substSegment :: "jsstring \<Rightarrow> jsstring \<Rightarrow> tagSegment \<Rightarrow> tagSegment" where
  "substSegment k r (TagText t) = TagText t"
| "substSegment k r (Tag k') = (if k' = k then TagText r else Tag k')"

section \<open>Keys without pattern syntax\<close>

lemma lexAt_plain: "c \<notin> set syntaxChars \<Longrightarrow> lexAt c cs = Tok (TAtom (single c)) 0"
  by (simp add: lexAt_def syntaxChars_def lit_def)

lemma lexer_plain:
  "plainKey k \<Longrightarrow>
   lexer 0 (k @ r) =
     (case lexer 0 r of
        Returns ts \<Rightarrow> Returns (map (\<lambda>c. TAtom (single c)) k @ ts)
      | Throws \<Rightarrow> Throws
      | Unmodelled \<Rightarrow> Unmodelled)"
proof (induction k)
  case Nil
  show ?case by (simp split: outcome.splits)
next
  case (Cons c k)
  then have c: "c \<notin> set syntaxChars" and k: "plainKey k" by (simp_all add: plainKey_def)
  show ?case
    by (simp add: lexAt_plain [OF c] Cons.IH [OF k] split: outcome.splits)
qed

lemma lexer_escaped_brace:
  "b = 0x7B \<or> b = 0x7D \<Longrightarrow>
   lexer 0 (0x5C # b # r) =
     (case lexer 0 r of
        Returns ts \<Rightarrow> Returns (TAtom (single b) # ts)
      | Throws \<Rightarrow> Throws
      | Unmodelled \<Rightarrow> Unmodelled)"
  by (auto simp: lexAt_def characterEscape_def isDigit_def split: outcome.splits)

lemma lexer_patternOf:
  assumes "plainKey k"
  shows "lexer 0 (patternOf k) = Returns (map (\<lambda>c. TAtom (single c)) (tagOf k))"
proof -
  have "lexer 0 [0x5C, 0x7D] = Returns [TAtom (single 0x7D)]"
    using lexer_escaped_brace [of "0x7D" "[]"] by simp
  then have e: "lexer 0 [0x5C, 0x7D, 0x5C, 0x7D] = Returns [TAtom (single 0x7D), TAtom (single 0x7D)]"
    using lexer_escaped_brace [of "0x7D" "[0x5C, 0x7D]"] by simp
  have "lexer 0 (k @ [0x5C, 0x7D, 0x5C, 0x7D]) =
          Returns (map (\<lambda>c. TAtom (single c)) k @ [TAtom (single 0x7D), TAtom (single 0x7D)])"
    by (simp add: lexer_plain [OF assms] e del: lexer.simps)
  then have "lexer 0 (0x5C # 0x7B # k @ [0x5C, 0x7D, 0x5C, 0x7D]) =
          Returns (TAtom (single 0x7B) # map (\<lambda>c. TAtom (single c)) k
                     @ [TAtom (single 0x7D), TAtom (single 0x7D)])"
    using lexer_escaped_brace [of "0x7B" "k @ [0x5C, 0x7D, 0x5C, 0x7D]"] by simp
  then have "lexer 0 (0x5C # 0x7B # 0x5C # 0x7B # k @ [0x5C, 0x7D, 0x5C, 0x7D]) =
          Returns (TAtom (single 0x7B) # TAtom (single 0x7B) # map (\<lambda>c. TAtom (single c)) k
                     @ [TAtom (single 0x7D), TAtom (single 0x7D)])"
    using lexer_escaped_brace [of "0x7B" "0x5C # 0x7B # k @ [0x5C, 0x7D, 0x5C, 0x7D]"] by simp
  then show ?thesis
    by (simp add: patternOf_def tagOf_def lit_def del: lexer.simps)
qed

lemma parseTokens_atoms:
  "parseTokens (map (\<lambda>c. TAtom (single c)) p @ ts) ((kind, alts, terms) # stack) n =
   parseTokens ts ((kind, alts, rev (map (\<lambda>c. (Atom (single c), True)) p) @ terms) # stack) n"
  by (induction p arbitrary: terms) simp_all

lemma sequence_atoms:
  "foldl (\<lambda>r (t, q). Seq t r) acc (rev (map (\<lambda>c. (Atom (single c), True)) p)) =
   foldr (\<lambda>c r. Seq (Atom (single c)) r) p acc"
  by (induction p arbitrary: acc) simp_all

lemma compile_patternOf:
  assumes "plainKey k"
  shows "compile (patternOf k) = Returns (literal (tagOf k), 0)"
proof -
  have "parseTokens (map (\<lambda>c. TAtom (single c)) (tagOf k) @ []) [(Whole, [], [])] 0 =
        Some (literal (tagOf k), 0)"
    unfolding parseTokens_atoms
    by (simp add: disjunction_def sequence_def sequence_atoms literal_def)
  then show ?thesis
    by (simp add: compile_def lexer_patternOf [OF assms])
qed

lemma matchR_literal:
  "matchR (literal p) (seen, s, caps) =
     (if prefix p s then [(rev p @ seen, drop (length p) s, caps)] else [])"
proof (induction p arbitrary: seen s)
  case Nil
  show ?case by (simp add: literal_def)
next
  case (Cons c p)
  have l: "literal (c # p) = Seq (Atom (single c)) (literal p)" by (simp add: literal_def)
  show ?case
  proof (cases s)
    case Nil
    then show ?thesis by (simp add: l)
  next
    case (Cons d r)
    then show ?thesis
      using Cons.IH [of "d # seen" r]
      by (auto simp: l single_def)
  qed
qed

lemma replaceRegex_literal:
  "p \<noteq> [] \<Longrightarrow> replaceRegex (literal p) 0 repl seen s = replaceLiteral p repl seen s"
proof (induction p repl seen s rule: replaceLiteral.induct)
  case (1 pat repl seen)
  then show ?case
    by (subst replaceRegex.simps) (simp add: matchR_literal)
next
  case (2 pat repl seen c cs)
  show ?case
  proof (cases "prefix pat (c # cs)")
    case True
    then obtain r where r: "c # cs = pat @ r" by (auto simp: prefix_def)
    have t: "take (length pat) (c # cs) = pat" "drop (length pat) (c # cs) = r"
      unfolding r by simp_all
    have len: "length (c # cs) - length r = length pat" unfolding r by simp
    from 2(1) [OF _ 2(3)] True 2(3)
    have ih: "replaceRegex (literal pat) 0 repl (rev pat @ seen) r =
              replaceLiteral pat repl (rev pat @ seen) r"
      by (simp add: t)
    show ?thesis
      apply (subst replaceRegex.simps)
      apply (simp only: matchR_literal True if_True list.case Let_def remaining_def
          fst_conv snd_conv t len replicate_0)
      using 2(3) True ih
      apply (simp add: t)
      done
  next
    case False
    from 2(2) [OF _ 2(3)] False
    have ih: "replaceRegex (literal pat) 0 repl (c # seen) cs =
              replaceLiteral pat repl (c # seen) cs"
      by simp
    show ?thesis
      apply (subst replaceRegex.simps)
      using False ih
      apply (simp add: matchR_literal)
      done
  qed
qed

lemma replaceTag_plain:
  assumes "plainKey k"
  shows "replaceTag k v s =
           (case replacementOf v of
              None \<Rightarrow> Throws
            | Some repl \<Rightarrow> Returns (replaceLiteral (tagOf k) repl [] s))"
proof -
  have "tagOf k \<noteq> []" by (simp add: tagOf_def lit_def)
  then show ?thesis
    by (simp add: replaceTag_def compile_patternOf [OF assms] replaceRegex_literal
        split: option.splits)
qed

section \<open>Text that no pattern matches\<close>

lemma replaceLiteral_absent:
  "\<not> sublist pat s \<Longrightarrow> replaceLiteral pat repl seen s = s"
proof (induction s arbitrary: seen)
  case Nil
  then show ?case by simp
next
  case (Cons c cs)
  then have "\<not> prefix pat (c # cs)" "\<not> sublist pat cs"
    by (auto simp: sublist_Cons_right)
  with Cons.IH show ?case by simp
qed

lemma mergeTags_absent:
  "supported dat \<Longrightarrow> list_all (\<lambda>(k, v). \<not> sublist (tagOf k) t) dat \<Longrightarrow> mergeTags dat t = Returns t"
proof (induction dat)
  case Nil
  then show ?case by simp
next
  case (Cons kv dat)
  obtain k v where kv: "kv = (k, v)" by (cases kv)
  from Cons.prems kv have pk: "plainKey k" and rv: "replacementOf v \<noteq> None"
    and ab: "\<not> sublist (tagOf k) t" and rest: "supported dat"
      "list_all (\<lambda>(k, v). \<not> sublist (tagOf k) t) dat"
    by (simp_all add: supported_def)
  from rv obtain r where r: "replacementOf v = Some r" by auto
  have "replaceTag k v t = Returns t"
    by (simp add: replaceTag_plain [OF pk] r replaceLiteral_absent [OF ab])
  with Cons.IH [OF rest] kv show ?case by simp
qed

lemma resolveIfs_no_block:
  "list_all (\<lambda>s. matchIf s = None) (suffixes t) \<Longrightarrow> resolveIfs dat t = t"
  by (induction t) simp_all

section \<open>Merge tags\<close>

lemma noDollarPattern_tail: "noDollarPattern (c # r) \<Longrightarrow> noDollarPattern r"
  by (cases r) simp_all

lemma getSubstitution_plain:
  "noDollarPattern r \<Longrightarrow> getSubstitution m p q [] r = r"
proof (induction r rule: length_induct)
  case (1 r)
  show ?case
  proof (cases r)
    case Nil
    then show ?thesis by simp
  next
    case c: (Cons c r1)
    show ?thesis
    proof (cases r1)
      case Nil
      with c show ?thesis by simp
    next
      case d: (Cons d r2)
      from 1(2) c have n1: "noDollarPattern r1" by (auto dest: noDollarPattern_tail)
      with d have n2: "noDollarPattern r2" by (auto dest: noDollarPattern_tail)
      from 1(1) c n1 have i1: "getSubstitution m p q [] r1 = r1" by simp
      from 1(1) c d n2 have i2: "getSubstitution m p q [] r2 = r2" by simp
      have i3: "getSubstitution m p q [] r3 = r3" if "r2 = e # r3" for e r3
      proof -
        from n2 that have "noDollarPattern r3" by (auto dest: noDollarPattern_tail)
        with 1(1) c d that show ?thesis by simp
      qed
      from 1(2) c d have nd: "\<not> (c = 0x24 \<and> (d = 0x24 \<or> d = 0x26 \<or> d = 0x60 \<or> d = 0x27))"
        by simp
      have "getSubstitution m p q [] (c # d # r2) = c # d # r2"
        using nd i1 [unfolded d] i2 i3
        by (auto simp: capture_def split: list.splits)
      then show ?thesis by (simp add: c d)
    qed
  qed
qed

lemma plainKey_braces: "plainKey k \<Longrightarrow> 0x7B \<notin> set k \<and> 0x7D \<notin> set k"
  by (auto simp: plainKey_def syntaxChars_def lit_def list_all_iff)

lemma key_prefix_eq:
  "0x7D \<notin> set k \<Longrightarrow> 0x7D \<notin> set k' \<Longrightarrow> prefix (k @ 0x7D # x) (k' @ 0x7D # y) \<Longrightarrow> k = k'"
proof (induction k arbitrary: k')
  case Nil
  then show ?case by (cases k') auto
next
  case (Cons a as)
  then show ?case by (cases k') auto
qed

lemma tag_prefix_eq:
  assumes "0x7D \<notin> set k" "0x7D \<notin> set k'" "prefix (tagOf k) (tagOf k' @ s)"
  shows "k = k'"
proof -
  from assms(3) have "prefix (k @ 0x7D # [0x7D]) (k' @ 0x7D # (0x7D # s))"
    by (simp add: tagOf_def lit_def)
  with assms(1,2) show ?thesis
    by (blast intro: key_prefix_eq)
qed

lemma tagOf_not_prefix: "c \<noteq> 0x7B \<Longrightarrow> \<not> prefix (tagOf k) (c # cs)"
  by (simp add: tagOf_def lit_def)

lemma replaceLiteral_text:
  "0x7B \<notin> set t \<Longrightarrow>
   replaceLiteral (tagOf k) r seen (t @ s) = t @ replaceLiteral (tagOf k) r (rev t @ seen) s"
proof (induction t arbitrary: seen)
  case Nil
  then show ?case by simp
next
  case (Cons c cs)
  then have "\<not> prefix (tagOf k) (c # cs @ s)" by (simp add: tagOf_not_prefix)
  with Cons show ?case by simp
qed

lemma replaceLiteral_other_tag:
  assumes "0x7D \<notin> set k" "0x7B \<notin> set k'" "0x7D \<notin> set k'" "k' \<noteq> k"
  shows "replaceLiteral (tagOf k) r seen (tagOf k' @ s)
         = tagOf k' @ replaceLiteral (tagOf k) r (rev (tagOf k') @ seen) s"
proof -
  let ?inner = "k' @ lit ''}}''"
  have t: "tagOf k' @ s = 0x7B # 0x7B # ?inner @ s"
    by (simp add: tagOf_def lit_def)
  have n0: "\<not> prefix (tagOf k) (0x7B # 0x7B # ?inner @ s)"
    using tag_prefix_eq [OF assms(1,3), of s] assms(4) unfolding t by blast
  have inner: "0x7B \<notin> set ?inner"
    using assms(2) by (simp add: lit_def)
  have "\<not> prefix (lit ''{{'') (0x7B # ?inner @ s)"
    using inner by (cases k') (auto simp: lit_def)
  then have n1: "\<not> prefix (tagOf k) (0x7B # ?inner @ s)"
    by (auto simp: tagOf_def prefix_def)
  have "replaceLiteral (tagOf k) r seen (0x7B # 0x7B # ?inner @ s)
      = 0x7B # 0x7B # ?inner @ replaceLiteral (tagOf k) r (rev ?inner @ 0x7B # 0x7B # seen) s"
    using n0 n1 replaceLiteral_text [OF inner, of k r "0x7B # 0x7B # seen" s] by simp
  moreover have t2: "tagOf k' = 0x7B # 0x7B # ?inner"
    by (simp add: tagOf_def lit_def)
  moreover have "rev (tagOf k') @ seen = rev ?inner @ 0x7B # 0x7B # seen"
    by (simp add: t2)
  ultimately show ?thesis
    unfolding t by (simp add: t2)
qed

lemma replaceLiteral_same_tag:
  assumes "noDollarPattern r"
  shows "replaceLiteral (tagOf k) r seen (tagOf k @ s)
         = r @ replaceLiteral (tagOf k) r (rev (tagOf k) @ seen) s"
proof -
  obtain c cs where cs: "tagOf k @ s = c # cs" and ne: "tagOf k \<noteq> []"
    by (auto simp: tagOf_def lit_def)
  have p: "prefix (tagOf k) (c # cs)" unfolding cs [symmetric] by simp
  have d: "drop (length (tagOf k)) (c # cs) = s" unfolding cs [symmetric] by simp
  show ?thesis
    unfolding cs
    using p ne d by (simp add: getSubstitution_plain [OF assms])
qed

lemma replaceLiteral_segments:
  assumes "0x7D \<notin> set k" "noDollarPattern r"
  shows "list_all wellFormedTag segs \<Longrightarrow>
     replaceLiteral (tagOf k) r seen (concat (map tagSource segs))
       = concat (map tagSource (map (substSegment k r) segs))"
proof (induction segs arbitrary: seen)
  case Nil
  then show ?case by simp
next
  case (Cons seg segs)
  then have IH: "\<And>seen. replaceLiteral (tagOf k) r seen (concat (map tagSource segs))
       = concat (map tagSource (map (substSegment k r) segs))"
    by simp
  show ?case
  proof (cases seg)
    case (TagText t)
    with Cons.prems have "0x7B \<notin> set t" by simp
    with IH TagText show ?thesis by (simp add: replaceLiteral_text)
  next
    case (Tag k')
    with Cons.prems have pk: "0x7B \<notin> set k'" "0x7D \<notin> set k'" by simp_all
    show ?thesis
    proof (cases "k' = k")
      case True
      with Tag IH show ?thesis
        by (simp add: replaceLiteral_same_tag [OF assms(2)])
    next
      case False
      with Tag IH show ?thesis
        by (simp add: replaceLiteral_other_tag [OF assms(1) pk False])
    qed
  qed
qed

lemma wellFormedTag_subst:
  "0x7B \<notin> set r \<Longrightarrow> list_all wellFormedTag segs \<Longrightarrow>
   list_all wellFormedTag (map (substSegment k r) segs)"
proof (induction segs)
  case Nil
  then show ?case by simp
next
  case (Cons seg segs)
  then show ?case by (cases seg) auto
qed

lemma tagMerged_subst:
  "replacementOf v = Some r \<Longrightarrow>
   tagMerged dat (substSegment k r seg) = tagMerged ((k, v) # dat) seg"
  by (cases seg) (auto simp: replacementOf_def split: if_splits)

lemma mergeTags_segments:
  "list_all plainEntry dat \<Longrightarrow> list_all wellFormedTag segs \<Longrightarrow>
   mergeTags dat (concat (map tagSource segs)) = Returns (concat (map (tagMerged dat) segs))"
proof (induction dat arbitrary: segs)
  case Nil
  have "tagMerged [] seg = tagSource seg" for seg
    by (cases seg) simp_all
  then have "tagMerged [] = tagSource" by (rule ext)
  then show ?case by simp
next
  case (Cons kv dat)
  obtain k v where kv: "kv = (k, v)" by (cases kv)
  from Cons.prems(1) kv have pe: "plainEntry (k, v)" and rest: "list_all plainEntry dat"
    by simp_all
  from pe obtain r where pk: "plainKey k" and r: "replacementOf v = Some r"
    and rb: "0x7B \<notin> set r" and rd: "noDollarPattern r"
    by (auto simp: plainEntry_def split: option.splits)
  from pk have kb: "0x7D \<notin> set k" by (simp add: plainKey_braces)
  let ?segs = "map (substSegment k r) segs"
  have step: "replaceTag k v (concat (map tagSource segs)) = Returns (concat (map tagSource ?segs))"
    by (simp add: replaceTag_plain [OF pk] r replaceLiteral_segments [OF kb rd Cons.prems(2)])
  have wf: "list_all wellFormedTag ?segs"
    using rb Cons.prems(2) by (rule wellFormedTag_subst)
  have mm: "map (tagMerged dat) ?segs = map (tagMerged (kv # dat)) segs"
    unfolding kv by (simp add: tagMerged_subst [OF r])
  have "mergeTags (kv # dat) (concat (map tagSource segs))
      = mergeTags dat (concat (map tagSource ?segs))"
    using step kv by simp
  also have "\<dots> = Returns (concat (map (tagMerged dat) ?segs))"
    by (rule Cons.IH [OF rest wf])
  finally show ?case by (simp only: mm)
qed

text \<open>
  C1, as the code has it: for a template of plain text and tags and a data mapping of
  plain entries, every \<open>{{key}}\<close> whose key is in the data mapping is replaced by the
  string form of \<open>data[key]\<close> when that value is truthy and by the empty string when it
  is falsy, and every \<open>{{key}}\<close> whose key is absent from the data mapping is left as it
  is; the conditional, bold and newline steps then run on that text.
\<close>

theorem merge_tags_replaced:
  assumes "list_all plainEntry dat" and "list_all wellFormedTag segs"
  shows "processTemplate (concat (map tagSource segs)) dat
         = Returns (newlineToBr (boldToStrong (resolveIfs dat (concat (map (tagMerged dat) segs)))))"
  using mergeTags_segments [OF assms] by (simp add: processTemplate_def)

theorem merge_tags_replaced_witness:
  "list_all plainEntry
     [(lit ''name'', JStr (lit ''Sam'')), (lit ''paid'', JBool True), (lit ''visits'', JArr [JStr (lit ''1''), JNull]),
      (lit ''note'', JStr []), (lit ''price'', JStr (lit ''$40'')), (lit ''first-name'', JStr (lit ''S.''))]
   \<and> list_all wellFormedTag
     [TagText (lit ''Hi ''), Tag (lit ''name''), TagText (lit '': ''), Tag (lit ''paid''),
      TagText (lit ''/''), Tag (lit ''visits''), TagText (lit ''/''), Tag (lit ''note''),
      TagText (lit ''/''), Tag (lit ''price''), TagText (lit ''/''), Tag (lit ''other.*''),
      TagText (lit ''/''), Tag (lit ''first-name'')]
   \<and> processTemplate
       (lit ''Hi {{name}}: {{paid}}/{{visits}}/{{note}}/{{price}}/{{other.*}}/{{first-name}}'')
       [(lit ''name'', JStr (lit ''Sam'')), (lit ''paid'', JBool True), (lit ''visits'', JArr [JStr (lit ''1''), JNull]),
        (lit ''note'', JStr []), (lit ''price'', JStr (lit ''$40'')), (lit ''first-name'', JStr (lit ''S.''))]
     = Returns (lit ''Hi Sam: true/1,//$40/{{other.*}}/S.'')"
proof -
  let ?dat = "[(lit ''name'', JStr (lit ''Sam'')), (lit ''paid'', JBool True), (lit ''visits'', JArr [JStr (lit ''1''), JNull]),
      (lit ''note'', JStr []), (lit ''price'', JStr (lit ''$40'')), (lit ''first-name'', JStr (lit ''S.''))]"
  let ?segs = "[TagText (lit ''Hi ''), Tag (lit ''name''), TagText (lit '': ''), Tag (lit ''paid''),
      TagText (lit ''/''), Tag (lit ''visits''), TagText (lit ''/''), Tag (lit ''note''),
      TagText (lit ''/''), Tag (lit ''price''), TagText (lit ''/''), Tag (lit ''other.*''),
      TagText (lit ''/''), Tag (lit ''first-name'')]"
  have h1: "list_all plainEntry ?dat"
    by (simp add: plainEntry_def plainKey_def syntaxChars_def lit_def replacementOf_def)
  have h2: "list_all wellFormedTag ?segs"
    by (simp add: lit_def)
  have src: "concat (map tagSource ?segs)
      = lit ''Hi {{name}}: {{paid}}/{{visits}}/{{note}}/{{price}}/{{other.*}}/{{first-name}}''"
    by (simp add: tagOf_def lit_def)
  have res: "newlineToBr (boldToStrong (resolveIfs ?dat (concat (map (tagMerged ?dat) ?segs))))
      = lit ''Hi Sam: true/1,//$40/{{other.*}}/S.''"
    by code_simp
  from merge_tags_replaced [OF h1 h2] h1 h2 show ?thesis
    unfolding src res by simp
qed

text \<open>
  A tag whose key is absent from the data mapping is not replaced by the empty string:
  the loop visits the keys of the data mapping only.
\<close>

theorem absent_key_left_in_place:
  "processTemplate (lit ''Hi {{name}}!'') [] = Returns (lit ''Hi {{name}}!'')
   \<and> processTemplate (lit ''Hi {{name}}!'') [] \<noteq> Returns (lit ''Hi !'')"
  by (simp add: processTemplate_def lit_def matchIf_def matchBold_def)

section \<open>Templates without merge tags and conditional blocks\<close>

text \<open>
  C8, for the data mappings whose keys are free of regular-expression syntax and whose
  values have a string form: when the template contains \<open>{{key}}\<close> for no key of the
  data mapping and the conditional pattern matches nowhere in it, rendering returns the
  template with only the bold and the newline conversion applied.
\<close>

theorem plain_template_unchanged:
  assumes "supported dat"
    and "list_all (\<lambda>(k, v). \<not> sublist (tagOf k) template) dat"
    and "list_all (\<lambda>s. matchIf s = None) (suffixes template)"
  shows "processTemplate template dat = Returns (newlineToBr (boldToStrong template))"
  using assms by (simp add: processTemplate_def mergeTags_absent resolveIfs_no_block)

theorem plain_template_unchanged_witness:
  "supported [(lit ''name'', JStr (lit ''Sam'')), (lit ''paid'', JBool True), (lit ''note'', JNull)]
   \<and> list_all (\<lambda>(k, v). \<not> sublist (tagOf k) (lit ''Dear {{customer}}, {name}'' @ [0x0A] @ lit ''**Total** due{{/if}}''))
        [(lit ''name'', JStr (lit ''Sam'')), (lit ''paid'', JBool True), (lit ''note'', JNull)]
   \<and> list_all (\<lambda>s. matchIf s = None) (suffixes (lit ''Dear {{customer}}, {name}'' @ [0x0A] @ lit ''**Total** due{{/if}}''))
   \<and> processTemplate (lit ''Dear {{customer}}, {name}'' @ [0x0A] @ lit ''**Total** due{{/if}}'')
        [(lit ''name'', JStr (lit ''Sam'')), (lit ''paid'', JBool True), (lit ''note'', JNull)]
     = Returns (lit ''Dear {{customer}}, {name}<br><strong>Total</strong> due{{/if}}'')"
proof -
  have h1: "supported [(lit ''name'', JStr (lit ''Sam'')), (lit ''paid'', JBool True), (lit ''note'', JNull)]"
    by (simp add: supported_def plainKey_def syntaxChars_def lit_def replacementOf_def)
  have h2: "list_all (\<lambda>(k, v). \<not> sublist (tagOf k) (lit ''Dear {{customer}}, {name}'' @ [0x0A] @ lit ''**Total** due{{/if}}''))
        [(lit ''name'', JStr (lit ''Sam'')), (lit ''paid'', JBool True), (lit ''note'', JNull)]"
    by (simp add: tagOf_def lit_def sublist_code)
  have h3: "list_all (\<lambda>s. matchIf s = None) (suffixes (lit ''Dear {{customer}}, {name}'' @ [0x0A] @ lit ''**Total** due{{/if}}''))"
    by (simp add: lit_def matchIf_def)
  have e: "newlineToBr (boldToStrong (lit ''Dear {{customer}}, {name}'' @ [0x0A] @ lit ''**Total** due{{/if}}''))
     = lit ''Dear {{customer}}, {name}<br><strong>Total</strong> due{{/if}}''"
    by code_simp
  from plain_template_unchanged [OF h1 h2 h3] h1 h2 h3 e show ?thesis by simp
qed

text \<open>
  The claim does not hold for every data mapping. A key is spliced into the pattern
  as it is, so a key with a dot matches tags that the template does not write with
  that key: the template below contains no \<open>{{a.}}\<close> and no conditional block, and
  the bold and newline steps leave it alone, yet it is rendered as \<open>Z\<close>. A key that is
  not a well-formed pattern makes the rendering throw.
\<close>

theorem key_read_as_pattern:
  "\<not> sublist (tagOf (lit ''a.'')) (lit ''{{ab}}'')
   \<and> \<not> sublist (lit ''{{#if'') (lit ''{{ab}}'')
   \<and> newlineToBr (boldToStrong (lit ''{{ab}}'')) = lit ''{{ab}}''
   \<and> processTemplate (lit ''{{ab}}'') [(lit ''a.'', JStr (lit ''Z''))] = Returns (lit ''Z'')
   \<and> processTemplate (lit ''Dear {{customer}}'') [(lit ''.*'', JStr (lit ''Z''))]
       = Returns (lit ''Dear Z'')
   \<and> processTemplate (lit ''plain text'') [(lit ''a('', JStr (lit ''Z''))] = Throws"
proof (intro conjI)
  show "\<not> sublist (tagOf (lit ''a.'')) (lit ''{{ab}}'')"
    by (simp add: tagOf_def lit_def sublist_code)
  show "\<not> sublist (lit ''{{#if'') (lit ''{{ab}}'')"
    by (simp add: lit_def sublist_code)
  show "newlineToBr (boldToStrong (lit ''{{ab}}'')) = lit ''{{ab}}''"
    by code_simp
  show "processTemplate (lit ''{{ab}}'') [(lit ''a.'', JStr (lit ''Z''))] = Returns (lit ''Z'')"
    by code_simp
  show "processTemplate (lit ''Dear {{customer}}'') [(lit ''.*'', JStr (lit ''Z''))]
       = Returns (lit ''Dear Z'')"
    by code_simp
  show "processTemplate (lit ''plain text'') [(lit ''a('', JStr (lit ''Z''))] = Throws"
    by code_simp
qed

section \<open>Conditional blocks\<close>

lemma endIf_not_early:
  assumes "\<not> sublist (lit ''{{/if}}'') content" "content \<noteq> []"
  shows "\<not> prefix (lit ''{{/if}}'') (content @ lit ''{{/if}}'' @ rest)"
proof
  assume p: "prefix (lit ''{{/if}}'') (content @ lit ''{{/if}}'' @ rest)"
  show False
  proof (cases "7 \<le> length content")
    case True
    have "prefix (lit ''{{/if}}'') content"
      by (rule prefix_length_prefix [OF p]) (use True in \<open>simp_all add: lit_def\<close>)
    then have "sublist (lit ''{{/if}}'') content"
      by (rule prefix_imp_sublist)
    with assms show False by simp
  next
    case False
    then have "length content < 7" by simp
    let ?pat = "lit ''{{/if}}''"
    let ?n = "length content"
    have nth: "?pat ! (?n + k) = ?pat ! k" if "?n + k < 7" for k
    proof -
      from p obtain zs where zs: "content @ ?pat @ rest = ?pat @ zs"
        by (auto simp: prefix_def)
      have len: "length ?pat = 7" by (simp add: lit_def)
      have "(content @ ?pat @ rest) ! (?n + k) = ?pat ! k"
        using that by (simp add: nth_append len)
      moreover have "(?pat @ zs) ! (?n + k) = ?pat ! (?n + k)"
        using that by (simp add: nth_append len)
      ultimately show ?thesis using zs by simp
    qed
    from assms(2) have "0 < ?n" by simp
    with \<open>?n < 7\<close> consider "?n = 1" | "?n = 2" | "?n = 3" | "?n = 4" | "?n = 5" | "?n = 6"
      by linarith
    then show False
    proof cases
      case 1
      with nth [of 4] show False by (simp add: lit_def)
    next
      case 2
      with nth [of 4] show False by (simp add: lit_def)
    next
      case 3
      with nth [of 3] show False by (simp add: lit_def)
    next
      case 4
      with nth [of 2] show False by (simp add: lit_def)
    next
      case 5
      with nth [of 1] show False by (simp add: lit_def)
    next
      case 6
      with nth [of 0] show False by (simp add: lit_def)
    qed
  qed
qed

lemma findFirst_endIf:
  "\<not> sublist (lit ''{{/if}}'') content \<Longrightarrow>
   findFirst (lit ''{{/if}}'') (content @ lit ''{{/if}}'' @ rest) = Some (content, rest)"
proof (induction content)
  case Nil
  then show ?case by (simp add: lit_def)
next
  case (Cons c cs)
  from Cons.prems have ns: "\<not> sublist (lit ''{{/if}}'') cs"
    by (auto simp: sublist_Cons_right)
  from endIf_not_early [OF Cons.prems, of rest]
  have "\<not> prefix (lit ''{{/if}}'') ((c # cs) @ lit ''{{/if}}'' @ rest)" by simp
  with Cons.IH [OF ns] show ?case by simp
qed

lemma findFirst_sound:
  "findFirst pat s = Some (b, a) \<Longrightarrow> s = b @ pat @ a"
proof (induction s arbitrary: b)
  case Nil
  then show ?case by (simp split: if_splits)
next
  case (Cons c cs)
  show ?case
  proof (cases "prefix pat (c # cs)")
    case True
    then obtain r where r: "c # cs = pat @ r" by (auto simp: prefix_def)
    from Cons.prems True have "b = []" "a = drop (length pat) (c # cs)" by auto
    with r show ?thesis by simp
  next
    case False
    with Cons.prems obtain b' where "findFirst pat cs = Some (b', a)" "b = c # b'"
      by auto
    with Cons.IH show ?thesis by fastforce
  qed
qed

lemma findFirst_complete:
  "sublist pat s \<Longrightarrow> findFirst pat s \<noteq> None"
proof (induction s)
  case Nil
  then show ?case by simp
next
  case (Cons c cs)
  then show ?case by (auto simp: sublist_Cons_right)
qed

lemma not_word_rbrace: "\<not> isWordChar 0x7D"
  by (simp add: isWordChar_def)

lemma matchIf_block:
  assumes "key \<noteq> []" "list_all isWordChar key" "\<not> sublist (lit ''{{/if}}'') content"
  shows "matchIf (lit ''{{#if '' @ key @ lit ''}}'' @ content @ lit ''{{/if}}'' @ rest)
         = Some (key, content, rest)"
proof -
  let ?tail = "lit ''}}'' @ content @ lit ''{{/if}}'' @ rest"
  have tw: "takeWhile isWordChar (key @ ?tail) = key"
    using assms(2) by (simp add: takeWhile_append2 list_all_iff lit_def isWordChar_def)
  have dw: "dropWhile isWordChar (key @ ?tail) = ?tail"
    using assms(2) by (simp add: dropWhile_append2 list_all_iff lit_def isWordChar_def)
  have d6: "drop 6 (lit ''{{#if '' @ key @ ?tail) = key @ ?tail"
    by (simp add: lit_def)
  have d2: "drop 2 ?tail = content @ lit ''{{/if}}'' @ rest"
    by (simp add: lit_def)
  have p1: "prefix (lit ''{{#if '') (lit ''{{#if '' @ key @ ?tail)" by simp
  have p2: "prefix (lit ''}}'') ?tail" by simp
  show ?thesis
    unfolding matchIf_def Let_def d6 tw dw d2
    using p1 p2 assms(1) findFirst_endIf [OF assms(3), of rest] by simp
qed

text \<open>
  The conditional pattern matches at the start of a text exactly when the text starts
  with an opening marker whose condition is a non-empty run of word characters and a
  closing marker follows somewhere.
\<close>

lemma matchIf_sound:
  assumes "matchIf s = Some (w, content, rest)"
  shows "s = lit ''{{#if '' @ w @ lit ''}}'' @ content @ lit ''{{/if}}'' @ rest
         \<and> w \<noteq> [] \<and> list_all isWordChar w"
proof -
  let ?r = "drop 6 s"
  let ?r2 = "dropWhile isWordChar ?r"
  from assms have p: "prefix (lit ''{{#if '') s"
    by (simp add: matchIf_def split: if_splits)
  from assms have w: "w = takeWhile isWordChar ?r" and ne: "w \<noteq> []"
    and p2: "prefix (lit ''}}'') ?r2"
    and f: "findFirst (lit ''{{/if}}'') (drop 2 ?r2) = Some (content, rest)"
    by (auto simp: matchIf_def Let_def split: if_splits option.splits)
  from p have s: "s = lit ''{{#if '' @ ?r"
    by (auto simp: prefix_def lit_def)
  have r: "?r = w @ ?r2" unfolding w by simp
  from p2 have r2: "?r2 = lit ''}}'' @ drop 2 ?r2"
    by (auto simp: prefix_def lit_def)
  from findFirst_sound [OF f] have d: "drop 2 ?r2 = content @ lit ''{{/if}}'' @ rest" .
  have all: "list_all isWordChar w"
    unfolding w list_all_iff using set_takeWhileD by fastforce
  have "s = lit ''{{#if '' @ w @ lit ''}}'' @ content @ lit ''{{/if}}'' @ rest"
    by (subst s, subst r, subst r2, subst d) simp
  with ne all show ?thesis by simp
qed

lemma matchIf_complete:
  assumes "key \<noteq> []" "list_all isWordChar key" "sublist (lit ''{{/if}}'') tail"
  shows "matchIf (lit ''{{#if '' @ key @ lit ''}}'' @ tail) \<noteq> None"
proof -
  let ?tail = "lit ''}}'' @ tail"
  have tw: "takeWhile isWordChar (key @ ?tail) = key"
    using assms(2) by (simp add: takeWhile_append2 list_all_iff lit_def isWordChar_def)
  have dw: "dropWhile isWordChar (key @ ?tail) = ?tail"
    using assms(2) by (simp add: dropWhile_append2 list_all_iff lit_def isWordChar_def)
  have d6: "drop 6 (lit ''{{#if '' @ key @ ?tail) = key @ ?tail"
    by (simp add: lit_def)
  have d2: "drop 2 ?tail = tail"
    by (simp add: lit_def)
  have p1: "prefix (lit ''{{#if '') (lit ''{{#if '' @ key @ ?tail)" by simp
  have p2: "prefix (lit ''}}'') ?tail" by simp
  from findFirst_complete [OF assms(3)] obtain b a
    where "findFirst (lit ''{{/if}}'') tail = Some (b, a)" by auto
  then show ?thesis
    unfolding matchIf_def Let_def d6 tw dw d2
    using p1 p2 assms(1) by simp
qed

lemma matchIf_None_iff:
  "matchIf s = None \<longleftrightarrow>
   \<not> (\<exists>key tail. s = lit ''{{#if '' @ key @ lit ''}}'' @ tail \<and> key \<noteq> []
         \<and> list_all isWordChar key \<and> sublist (lit ''{{/if}}'') tail)"
proof
  assume n: "matchIf s = None"
  show "\<not> (\<exists>key tail. s = lit ''{{#if '' @ key @ lit ''}}'' @ tail \<and> key \<noteq> []
         \<and> list_all isWordChar key \<and> sublist (lit ''{{/if}}'') tail)"
  proof
    assume "\<exists>key tail. s = lit ''{{#if '' @ key @ lit ''}}'' @ tail \<and> key \<noteq> []
         \<and> list_all isWordChar key \<and> sublist (lit ''{{/if}}'') tail"
    then obtain key tail where "s = lit ''{{#if '' @ key @ lit ''}}'' @ tail" "key \<noteq> []"
      "list_all isWordChar key" "sublist (lit ''{{/if}}'') tail" by blast
    with matchIf_complete [of key tail] n show False by simp
  qed
next
  assume h: "\<not> (\<exists>key tail. s = lit ''{{#if '' @ key @ lit ''}}'' @ tail \<and> key \<noteq> []
         \<and> list_all isWordChar key \<and> sublist (lit ''{{/if}}'') tail)"
  show "matchIf s = None"
  proof (rule ccontr)
    assume "matchIf s \<noteq> None"
    then obtain w content rest where m: "matchIf s = Some (w, content, rest)" by auto
    from matchIf_sound [OF m]
    have "s = lit ''{{#if '' @ w @ lit ''}}'' @ (content @ lit ''{{/if}}'' @ rest)"
      "w \<noteq> []" "list_all isWordChar w" by simp_all
    moreover have "sublist (lit ''{{/if}}'') (content @ lit ''{{/if}}'' @ rest)"
      by (simp add: sublist_append)
    ultimately show False using h by blast
  qed
qed

lemma resolveIfs_unfold:
  "s \<noteq> [] \<Longrightarrow> resolveIfs dat s =
     (case matchIf s of
        Some (condition, content, rest) \<Rightarrow>
          (if truthyProp (getProp dat condition) then content else []) @ resolveIfs dat rest
      | None \<Rightarrow> hd s # resolveIfs dat (tl s))"
  by (cases s) (auto split: option.splits)

lemma resolveIfs_block:
  assumes "key \<noteq> []" "list_all isWordChar key" "\<not> sublist (lit ''{{/if}}'') content"
  shows "resolveIfs dat (lit ''{{#if '' @ key @ lit ''}}'' @ content @ lit ''{{/if}}'' @ rest)
         = (if truthyProp (getProp dat key) then content else []) @ resolveIfs dat rest"
proof -
  have ne: "lit ''{{#if '' @ key @ lit ''}}'' @ content @ lit ''{{/if}}'' @ rest \<noteq> []"
    by (simp add: lit_def)
  show ?thesis
    by (simp only: resolveIfs_unfold [OF ne] matchIf_block [OF assms] option.case prod.case)
qed

lemma resolveIfs_other:
  assumes "\<not> (\<exists>key tail. c # cs = lit ''{{#if '' @ key @ lit ''}}'' @ tail \<and> key \<noteq> []
         \<and> list_all isWordChar key \<and> sublist (lit ''{{/if}}'') tail)"
  shows "resolveIfs dat (c # cs) = c # resolveIfs dat cs"
proof -
  from assms matchIf_None_iff [of "c # cs"] have "matchIf (c # cs) = None" by blast
  then show ?thesis by simp
qed

lemma matchIf_not_brace: "c \<noteq> 0x7B \<Longrightarrow> matchIf (c # cs) = None"
  by (simp add: matchIf_def lit_def)

lemma resolveIfs_text:
  "0x7B \<notin> set t \<Longrightarrow> resolveIfs dat (t @ s) = t @ resolveIfs dat s"
  by (induction t) (auto simp: matchIf_not_brace)

lemma resolveIfs_segments:
  "list_all wellFormedIf segs \<Longrightarrow>
   resolveIfs dat (concat (map ifSource segs) @ s) = concat (map (ifResolved dat) segs) @ resolveIfs dat s"
proof (induction segs)
  case Nil
  then show ?case by simp
next
  case (Cons seg segs)
  then have IH: "resolveIfs dat (concat (map ifSource segs) @ s)
      = concat (map (ifResolved dat) segs) @ resolveIfs dat s"
    by simp
  show ?case
  proof (cases seg)
    case (IfText t)
    with Cons.prems have "0x7B \<notin> set t" by simp
    with IH IfText show ?thesis by (simp add: resolveIfs_text)
  next
    case (IfBlock key content)
    with Cons.prems have wf: "key \<noteq> []" "list_all isWordChar key"
      "\<not> sublist (lit ''{{/if}}'') content" by simp_all
    from resolveIfs_block [OF wf, of dat "concat (map ifSource segs) @ s"] IH IfBlock
    show ?thesis by simp
  qed
qed

text \<open>
  C2, as the code has it. The conditional step reads its input from left to right.
  Where an opening marker \<open>{{#if key}}\<close> whose key is a non-empty run of word characters
  is followed by a closing marker, the text up to the nearest closing marker is
  replaced by the enclosed content, verbatim, when \<open>data[key]\<close> is truthy and by the
  empty string when it is not, and the step goes on after that closing marker;
  everywhere else one code unit is copied (so a block whose key is not a run of word
  characters stays in the output). These three equations determine the step on every
  input. For a template written as well-formed blocks and plain text, every block is
  resolved. The rendering applies the step to the template when no merge tag of the data
  occurs in it, and then the bold and newline steps; and the two renderings of the
  specification's example give \<open>Hello Sam, call now!\<close> and \<open>Hello Sam, \<close>.
\<close>

theorem conditional_blocks_resolved:
  "resolveIfs dat [] = []
   \<and> (key \<noteq> [] \<and> list_all isWordChar key \<and> \<not> sublist (lit ''{{/if}}'') content \<longrightarrow>
        resolveIfs dat (lit ''{{#if '' @ key @ lit ''}}'' @ content @ lit ''{{/if}}'' @ rest)
          = (if truthyProp (getProp dat key) then content else []) @ resolveIfs dat rest)
   \<and> (\<not> (\<exists>k tail. c # cs = lit ''{{#if '' @ k @ lit ''}}'' @ tail \<and> k \<noteq> []
             \<and> list_all isWordChar k \<and> sublist (lit ''{{/if}}'') tail) \<longrightarrow>
        resolveIfs dat (c # cs) = c # resolveIfs dat cs)
   \<and> (list_all wellFormedIf segs \<longrightarrow>
        resolveIfs dat (concat (map ifSource segs)) = concat (map (ifResolved dat) segs))
   \<and> (supported dat \<and> list_all (\<lambda>(k, v). \<not> sublist (tagOf k) template) dat \<longrightarrow>
        processTemplate template dat
          = Returns (newlineToBr (boldToStrong (resolveIfs dat template))))
   \<and> processTemplate (lit ''Hello {{name}}, {{#if urgent}}call now!{{/if}}'')
        [(lit ''name'', JStr (lit ''Sam'')), (lit ''urgent'', JBool True)]
       = Returns (lit ''Hello Sam, call now!'')
   \<and> processTemplate (lit ''Hello {{name}}, {{#if urgent}}call now!{{/if}}'')
        [(lit ''name'', JStr (lit ''Sam'')), (lit ''urgent'', JBool False)]
       = Returns (lit ''Hello Sam, '')"
proof (intro conjI impI)
  show "resolveIfs dat [] = []" by simp
next
  assume "key \<noteq> [] \<and> list_all isWordChar key \<and> \<not> sublist (lit ''{{/if}}'') content"
  then have wf: "key \<noteq> []" "list_all isWordChar key" "\<not> sublist (lit ''{{/if}}'') content"
    by simp_all
  show "resolveIfs dat (lit ''{{#if '' @ key @ lit ''}}'' @ content @ lit ''{{/if}}'' @ rest)
          = (if truthyProp (getProp dat key) then content else []) @ resolveIfs dat rest"
    by (rule resolveIfs_block [OF wf])
next
  assume "\<not> (\<exists>k tail. c # cs = lit ''{{#if '' @ k @ lit ''}}'' @ tail \<and> k \<noteq> []
             \<and> list_all isWordChar k \<and> sublist (lit ''{{/if}}'') tail)"
  then show "resolveIfs dat (c # cs) = c # resolveIfs dat cs"
    by (rule resolveIfs_other)
next
  assume "list_all wellFormedIf segs"
  from resolveIfs_segments [OF this, of dat "[]"]
  show "resolveIfs dat (concat (map ifSource segs)) = concat (map (ifResolved dat) segs)"
    by simp
next
  assume "supported dat \<and> list_all (\<lambda>(k, v). \<not> sublist (tagOf k) template) dat"
  then have "mergeTags dat template = Returns template"
    by (simp add: mergeTags_absent)
  then show "processTemplate template dat
          = Returns (newlineToBr (boldToStrong (resolveIfs dat template)))"
    by (simp add: processTemplate_def)
next
  show "processTemplate (lit ''Hello {{name}}, {{#if urgent}}call now!{{/if}}'')
        [(lit ''name'', JStr (lit ''Sam'')), (lit ''urgent'', JBool True)]
       = Returns (lit ''Hello Sam, call now!'')"
    by code_simp
next
  show "processTemplate (lit ''Hello {{name}}, {{#if urgent}}call now!{{/if}}'')
        [(lit ''name'', JStr (lit ''Sam'')), (lit ''urgent'', JBool False)]
       = Returns (lit ''Hello Sam, '')"
    by code_simp
qed

theorem conditional_blocks_resolved_witness:
  "(lit ''late'' \<noteq> [] \<and> list_all isWordChar (lit ''late'')
      \<and> \<not> sublist (lit ''{{/if}}'') (lit ''overdue {{#if x}}''))
   \<and> resolveIfs [(lit ''urgent'', JBool True), (lit ''late'', JStr [])]
       (lit ''{{#if late}}overdue {{#if x}}{{/if}}!{{/if}}'')
     = resolveIfs [(lit ''urgent'', JBool True), (lit ''late'', JStr [])] (lit ''!{{/if}}'')
   \<and> \<not> (\<exists>k tail. lit ''{{#if first-name}}Hi{{/if}}'' = lit ''{{#if '' @ k @ lit ''}}'' @ tail
           \<and> k \<noteq> [] \<and> list_all isWordChar k \<and> sublist (lit ''{{/if}}'') tail)
   \<and> resolveIfs [(lit ''first-name'', JBool True)] (lit ''{{#if first-name}}Hi{{/if}}'')
     = 0x7B # resolveIfs [(lit ''first-name'', JBool True)] (lit ''{#if first-name}}Hi{{/if}}'')
   \<and> list_all wellFormedIf
       [IfText (lit ''Hello Sam, ''), IfBlock (lit ''urgent'') (lit ''call now!''),
        IfBlock (lit ''late'') (lit ''overdue {{x}}''), IfText (lit ''.'')]
   \<and> resolveIfs [(lit ''urgent'', JBool True), (lit ''late'', JStr [])]
       (lit ''Hello Sam, {{#if urgent}}call now!{{/if}}{{#if late}}overdue {{x}}{{/if}}.'')
     = lit ''Hello Sam, call now!.''
   \<and> supported [(lit ''urgent'', JBool True), (lit ''late'', JStr [])]
   \<and> list_all (\<lambda>(k, v). \<not> sublist (tagOf k)
         (lit ''Hello Sam, {{#if urgent}}call now!{{/if}}{{#if late}}overdue {{x}}{{/if}}.''))
        [(lit ''urgent'', JBool True), (lit ''late'', JStr [])]
   \<and> processTemplate
       (lit ''Hello Sam, {{#if urgent}}call now!{{/if}}{{#if late}}overdue {{x}}{{/if}}.'')
       [(lit ''urgent'', JBool True), (lit ''late'', JStr [])]
     = Returns (lit ''Hello Sam, call now!.'')"
proof -
  let ?segs = "[IfText (lit ''Hello Sam, ''), IfBlock (lit ''urgent'') (lit ''call now!''),
      IfBlock (lit ''late'') (lit ''overdue {{x}}''), IfText (lit ''.'')]"
  let ?dat = "[(lit ''urgent'', JBool True), (lit ''late'', JStr [])]"
  let ?src = "lit ''Hello Sam, {{#if urgent}}call now!{{/if}}{{#if late}}overdue {{x}}{{/if}}.''"
  let ?other = "lit ''{{#if first-name}}Hi{{/if}}''"
  have src: "concat (map ifSource ?segs) = ?src"
    by (simp add: lit_def)
  have res: "concat (map (ifResolved ?dat) ?segs) = lit ''Hello Sam, call now!.''"
    by (simp add: lit_def getProp_def)
  have blk: "lit ''{{#if '' @ lit ''late'' @ lit ''}}'' @ lit ''overdue {{#if x}}'' @ lit ''{{/if}}''
               @ lit ''!{{/if}}'' = lit ''{{#if late}}overdue {{#if x}}{{/if}}!{{/if}}''"
    by (simp add: lit_def)
  have fal: "\<not> truthyProp (getProp ?dat (lit ''late''))"
    by (simp add: getProp_def lit_def)
  have h2: "lit ''late'' \<noteq> [] \<and> list_all isWordChar (lit ''late'')
      \<and> \<not> sublist (lit ''{{/if}}'') (lit ''overdue {{#if x}}'')"
    by (simp add: lit_def isWordChar_def sublist_code)
  have oth: "?other = 0x7B # lit ''{#if first-name}}Hi{{/if}}''"
    by (simp add: lit_def)
  have "matchIf ?other = None"
    by (simp add: matchIf_def lit_def isWordChar_def)
  with matchIf_None_iff [of ?other]
  have h3: "\<not> (\<exists>k tail. ?other = lit ''{{#if '' @ k @ lit ''}}'' @ tail
           \<and> k \<noteq> [] \<and> list_all isWordChar k \<and> sublist (lit ''{{/if}}'') tail)"
    by blast
  have h4: "list_all wellFormedIf ?segs"
    by (simp add: lit_def isWordChar_def sublist_code)
  have h5: "supported ?dat"
    by (simp add: supported_def plainKey_def syntaxChars_def lit_def replacementOf_def)
  have h6: "list_all (\<lambda>(k, v). \<not> sublist (tagOf k) ?src) ?dat"
    by (simp add: tagOf_def lit_def sublist_code)
  have out: "newlineToBr (boldToStrong (lit ''Hello Sam, call now!.'')) = lit ''Hello Sam, call now!.''"
    by code_simp
  note t = conditional_blocks_resolved [of ?dat "lit ''late''" "lit ''overdue {{#if x}}''"
      "lit ''!{{/if}}''" "0x7B" "lit ''{#if first-name}}Hi{{/if}}''" ?segs ?src]
  note u = conditional_blocks_resolved [of "[(lit ''first-name'', JBool True)]" "lit ''late''"
      "lit ''overdue {{#if x}}''" "lit ''!{{/if}}''" "0x7B" "lit ''{#if first-name}}Hi{{/if}}''"
      ?segs ?src]
  from t h2 have a: "resolveIfs ?dat (lit ''{{#if late}}overdue {{#if x}}{{/if}}!{{/if}}'')
      = resolveIfs ?dat (lit ''!{{/if}}'')"
    unfolding blk using fal by simp
  from u h3 have b: "resolveIfs [(lit ''first-name'', JBool True)] ?other
      = 0x7B # resolveIfs [(lit ''first-name'', JBool True)] (lit ''{#if first-name}}Hi{{/if}}'')"
    unfolding oth by blast
  from t h4 have c: "resolveIfs ?dat ?src = lit ''Hello Sam, call now!.''"
    unfolding src res by blast
  from t h5 h6 have "processTemplate ?src ?dat
      = Returns (newlineToBr (boldToStrong (resolveIfs ?dat ?src)))"
    by blast
  then have d: "processTemplate ?src ?dat = Returns (lit ''Hello Sam, call now!.'')"
    by (simp only: c out)
  from h2 have h2a: "lit ''late'' \<noteq> []" and h2b: "list_all isWordChar (lit ''late'')"
    and h2c: "\<not> sublist (lit ''{{/if}}'') (lit ''overdue {{#if x}}'')"
    by blast+
  show ?thesis
    using h2a h2b h2c a h3 b h4 c h5 h6 d by (intro conjI)
qed

text \<open>
  A block whose key is not a run of word characters is not resolved, although the data
  mapping holds the key with a truthy value.
\<close>

theorem other_key_left_in_place:
  "processTemplate (lit ''{{#if first-name}}Hi{{/if}}'') [(lit ''first-name'', JBool True)]
     = Returns (lit ''{{#if first-name}}Hi{{/if}}'')
   \<and> truthyProp (getProp [(lit ''first-name'', JBool True)] (lit ''first-name''))"
proof
  show "processTemplate (lit ''{{#if first-name}}Hi{{/if}}'') [(lit ''first-name'', JBool True)]
     = Returns (lit ''{{#if first-name}}Hi{{/if}}'')"
    by code_simp
  show "truthyProp (getProp [(lit ''first-name'', JBool True)] (lit ''first-name''))"
    by (simp add: getProp_def)
qed

section \<open>Bold markers\<close>














section \<open>Validation of the email requests\<close>

text \<open>
  A request is rejected unsent when the handler answers with a status of the 400 class
  and a non-empty error message and has made no call to the provider.
\<close>

definition rejectedUnsent :: "(response \<times> 'c list) option \<Rightarrow> bool" where
  "rejectedUnsent r =
     (case r of
        Some (resp, calls) \<Rightarrow>
          400 \<le> status resp \<and> status resp < 500 \<and> calls = [] \<and>
          (case body resp of ErrorBody m \<Rightarrow> m \<noteq> [] | _ \<Rightarrow> False)
      | None \<Rightarrow> False)"

lemma rejectedUnsent_notConfigured: "rejectedUnsent (Some (notConfigured, []))"
  by (simp add: rejectedUnsent_def notConfigured_def lit_def)

lemma rejectedUnsent_recipientRequired: "rejectedUnsent (Some (recipientRequired, []))"
  by (simp add: rejectedUnsent_def recipientRequired_def lit_def)

lemma weekly_no_recipient:
  "\<not> truthyField (field reqBody ''to'') \<Longrightarrow> rejectedUnsent (sendWeeklyUpdate env provider reqBody)"
  by (cases "field reqBody ''to''")
     (simp_all add: sendWeeklyUpdate_def rejectedUnsent_notConfigured rejectedUnsent_recipientRequired)

lemma invoice_no_recipient:
  "\<not> truthyField (field reqBody ''to'') \<Longrightarrow> rejectedUnsent (sendInvoice env provider reqBody)"
  by (cases "field reqBody ''to''")
     (simp_all add: sendInvoice_def rejectedUnsent_notConfigured rejectedUnsent_recipientRequired)

lemma quote_no_recipient:
  "\<not> truthyField (field reqBody ''to'') \<Longrightarrow> rejectedUnsent (sendQuote env provider reqBody)"
  by (cases "field reqBody ''to''")
     (simp_all add: sendQuote_def rejectedUnsent_notConfigured rejectedUnsent_recipientRequired)

lemma generic_missing_field:
  assumes "\<not> truthyField (field reqBody ''to'') \<or> \<not> truthyField (field reqBody ''subject'')
           \<or> \<not> truthyField (field reqBody ''body'')"
  shows "rejectedUnsent (sendEmail env provider reqBody)"
proof (cases "emailConfigured env")
  case False
  then show ?thesis by (simp add: sendEmail_def rejectedUnsent_notConfigured)
next
  case True
  have r: "rejectedUnsent
     (Some (\<lparr>status = 400, body = ErrorBody (lit ''to, subject, and body are required'')\<rparr>, []))"
    by (simp add: rejectedUnsent_def lit_def)
  from assms True r show ?thesis
    by (cases "field reqBody ''to''"; cases "field reqBody ''subject''"; cases "field reqBody ''body''")
       (auto simp: sendEmail_def)
qed

text \<open>
  C5: when the recipient \<open>to\<close> is missing (or falsy), each of the four send handlers
  answers with a 400-class error and does not call the email provider; the generic
  handler does the same when \<open>subject\<close> or \<open>body\<close> is missing.
\<close>

theorem missing_recipient_rejected:
  "(\<not> truthyField (field reqBody ''to'') \<longrightarrow>
      rejectedUnsent (sendWeeklyUpdate env provider reqBody) \<and>
      rejectedUnsent (sendInvoice env provider reqBody) \<and>
      rejectedUnsent (sendQuote env provider reqBody) \<and>
      rejectedUnsent (sendEmail env provider reqBody))
   \<and> (\<not> truthyField (field reqBody ''subject'') \<or> \<not> truthyField (field reqBody ''body'') \<longrightarrow>
      rejectedUnsent (sendEmail env provider reqBody))"
  by (simp add: weekly_no_recipient invoice_no_recipient quote_no_recipient generic_missing_field)

theorem missing_recipient_rejected_witness:
  "\<not> truthyField (field [(lit ''subject'', JStr (lit ''Hello''))] ''to'')
   \<and> \<not> truthyField (field [(lit ''subject'', JStr (lit ''Hello''))] ''body'')
   \<and> sendWeeklyUpdate sampleEnvironment acceptingProvider [(lit ''subject'', JStr (lit ''Hello''))]
       = Some (recipientRequired, [])
   \<and> rejectedUnsent (sendInvoice sampleEnvironment acceptingProvider [(lit ''subject'', JStr (lit ''Hello''))])
   \<and> rejectedUnsent (sendQuote sampleEnvironment acceptingProvider [(lit ''subject'', JStr (lit ''Hello''))])
   \<and> rejectedUnsent (sendEmail sampleEnvironment acceptingProvider [(lit ''subject'', JStr (lit ''Hello''))])"
proof -
  have h: "\<not> truthyField (field [(lit ''subject'', JStr (lit ''Hello''))] ''to'')"
    "\<not> truthyField (field [(lit ''subject'', JStr (lit ''Hello''))] ''body'')"
    by (simp_all add: field_def lit_def)
  have w: "sendWeeklyUpdate sampleEnvironment acceptingProvider [(lit ''subject'', JStr (lit ''Hello''))]
       = Some (recipientRequired, [])"
    by (simp add: sendWeeklyUpdate_def emailConfigured_def RESEND_API_KEY_def envOr_def
        sampleEnvironment_def field_def lit_def)
  from missing_recipient_rejected
    [of "[(lit ''subject'', JStr (lit ''Hello''))]" sampleEnvironment acceptingProvider] h w
  show ?thesis by simp
qed

text \<open>
  C6: when the variable \<open>RESEND_API_KEY\<close> is not set, each of the five email handlers
  returns the same 400 response, whatever the request body is, and calls no provider.
\<close>

theorem unconfigured_email_rejected:
  assumes "envRESEND_API_KEY env = None"
  shows "sendWeeklyUpdate env provider reqBody = Some (notConfigured, [])
    \<and> sendInvoice env provider reqBody = Some (notConfigured, [])
    \<and> sendQuote env provider reqBody = Some (notConfigured, [])
    \<and> sendEmail env provider reqBody = Some (notConfigured, [])
    \<and> testEmail env provider reqBody = (notConfigured, [])
    \<and> status notConfigured = 400
    \<and> body notConfigured = ErrorBody (lit ''Email not configured. Set RESEND_API_KEY.'')"
  using assms
  by (simp add: sendWeeklyUpdate_def sendInvoice_def sendQuote_def sendEmail_def testEmail_def
      emailConfigured_def RESEND_API_KEY_def envOr_def notConfigured_def)

theorem unconfigured_email_rejected_witness:
  "envRESEND_API_KEY bareEnvironment = None
   \<and> sendEmail bareEnvironment acceptingProvider
        [(lit ''to'', JStr (lit ''a@example.com'')), (lit ''subject'', JStr (lit ''Hi'')),
         (lit ''body'', JNum (Fin 5))]
      = Some (\<lparr>status = 400, body = ErrorBody (lit ''Email not configured. Set RESEND_API_KEY.'')\<rparr>, [])"
proof -
  have h: "envRESEND_API_KEY bareEnvironment = None"
    by (simp add: bareEnvironment_def)
  from unconfigured_email_rejected [OF h, of acceptingProvider
      "[(lit ''to'', JStr (lit ''a@example.com'')), (lit ''subject'', JStr (lit ''Hi'')),
         (lit ''body'', JNum (Fin 5))]"] h
  show ?thesis by (simp add: notConfigured_def)
qed

section \<open>The test endpoint\<close>

definition testSucceeded :: response where
  "testSucceeded = \<lparr>status = 200, body = SuccessBody (lit ''Test email sent!'')\<rparr>"

definition gmailNotConfigured :: response where
  "gmailNotConfigured =
     \<lparr>status = 400,
      body = ErrorBody (lit ''Email not configured. Set GMAIL_USER and GMAIL_APP_PASSWORD.'')\<rparr>"

lemma sendAndRespond_calls:
  "RESEND_API_KEY env \<noteq> [] \<Longrightarrow>
   map mailTo (snd (sendAndRespond env provider to subject html fromName logged msg)) = [[to]]"
  by (auto simp: sendAndRespond_def sendEmailWithResend_def Let_def
      split: resendAnswer.splits option.splits if_splits)

lemma sendAndRespond_accepted:
  "RESEND_API_KEY env \<noteq> [] \<Longrightarrow>
   list_all (\<lambda>r. provider r = Accepted)
     (snd (sendAndRespond env provider to subject html fromName (Some (JStr text)) msg)) \<Longrightarrow>
   fst (sendAndRespond env provider to subject html fromName (Some (JStr text)) msg)
     = \<lparr>status = 200, body = SuccessBody msg\<rparr>"
  by (simp add: sendAndRespond_def sendEmailWithResend_def Let_def split: resendAnswer.splits)

lemma sendAndRespond_thrown:
  "RESEND_API_KEY env \<noteq> [] \<Longrightarrow>
   list_all (\<lambda>r. provider r = FetchThrows m)
     (snd (sendAndRespond env provider to subject html fromName logged msg)) \<Longrightarrow>
   fst (sendAndRespond env provider to subject html fromName logged msg)
     = \<lparr>status = 500, body = ErrorBody m\<rparr>"
  by (auto simp: sendAndRespond_def sendEmailWithResend_def Let_def
      split: resendAnswer.splits option.splits if_splits)

lemma sendAndRespond_refused:
  "RESEND_API_KEY env \<noteq> [] \<Longrightarrow>
   list_all (\<lambda>r. provider r = NotOk m)
     (snd (sendAndRespond env provider to subject html fromName logged msg)) \<Longrightarrow>
   fst (sendAndRespond env provider to subject html fromName logged msg)
     = \<lparr>status = 500, body = ErrorBody (envOr m (lit ''Failed to send email''))\<rparr>"
  by (auto simp: sendAndRespond_def sendEmailWithResend_def Let_def
      split: resendAnswer.splits option.splits if_splits)

lemma orElse_falsy: "\<not> truthyField x \<Longrightarrow> orElse x d = d"
  by (cases x) (simp_all add: orElse_def)

lemma testEmail_default:
  "emailConfigured env \<Longrightarrow> \<not> truthyField (field reqBody ''to'') \<Longrightarrow>
   testEmail env provider reqBody =
     sendAndRespond env provider (JStr (REPLY_TO_EMAIL env)) (JStr (lit ''Pool Authority - Email Test''))
       (lit ''<h1>'' @ [0x2705] @
        lit '' Email is working!</h1><p>Your Pool Authority email configuration is correct.</p>'')
       (lit ''Pool Authority'') (Some (JStr (REPLY_TO_EMAIL env))) (lit ''Test email sent!'')"
  by (simp add: testEmail_def Let_def orElse_falsy)

lemma gmailTestEmail_calls:
  "emailTransporter env \<Longrightarrow>
   map optTo (snd (gmailTestEmail env sendMail reqBody))
     = [orElse (field reqBody ''to'') (JStr (GMAIL_USER env))]"
  by (auto simp: gmailTestEmail_def Let_def split: option.splits)

lemma gmailTestEmail_accepted:
  "emailTransporter env \<Longrightarrow>
   list_all (\<lambda>r. sendMail r = None) (snd (gmailTestEmail env sendMail reqBody)) \<Longrightarrow>
   fst (gmailTestEmail env sendMail reqBody) = testSucceeded"
  by (auto simp: gmailTestEmail_def testSucceeded_def Let_def split: option.splits)

lemma gmailTestEmail_refused:
  "emailTransporter env \<Longrightarrow>
   list_all (\<lambda>r. sendMail r = Some m) (snd (gmailTestEmail env sendMail reqBody)) \<Longrightarrow>
   fst (gmailTestEmail env sendMail reqBody) = \<lparr>status = 500, body = ErrorBody m\<rparr>"
  by (auto simp: gmailTestEmail_def Let_def split: option.splits)

lemma GMAIL_USER_value: "emailTransporter env \<Longrightarrow> envGMAIL_USER env = Some (GMAIL_USER env)"
  by (auto simp: emailTransporter_def GMAIL_USER_def envOr_def split: option.splits if_splits)

text \<open>
  C10, as the code has it: when \<open>to\<close> is absent or falsy and email is configured, the
  test message goes to the reply-to address, which is the value of \<open>GMAIL_USER\<close> or the
  built-in default; the endpoint reports success when the provider accepts the message,
  and answers 500 with the message of the error when it does not: the message of the
  exception that the request throws, or the message of the provider's answer, or
  \<open>Failed to send email\<close> when that answer has none. Without the credential the answer
  is the fixed 400 response and nothing is sent. The Gmail variant sends to the
  \<open>GMAIL_USER\<close> mailbox when its transporter exists, reports success when \<open>sendMail\<close>
  returns and answers 500 with the message of the error that \<open>sendMail\<close> throws;
  without the transporter it answers 400 and sends nothing.
\<close>

theorem test_email_default_recipient:
  assumes "\<not> truthyField (field reqBody ''to'')"
  shows "(emailConfigured env \<longrightarrow>
           map mailTo (snd (testEmail env provider reqBody)) = [[JStr (REPLY_TO_EMAIL env)]]
           \<and> (list_all (\<lambda>r. provider r = Accepted) (snd (testEmail env provider reqBody)) \<longrightarrow>
                fst (testEmail env provider reqBody) = testSucceeded)
           \<and> (list_all (\<lambda>r. provider r = FetchThrows m) (snd (testEmail env provider reqBody)) \<longrightarrow>
                fst (testEmail env provider reqBody) = \<lparr>status = 500, body = ErrorBody m\<rparr>)
           \<and> (list_all (\<lambda>r. provider r = NotOk answer) (snd (testEmail env provider reqBody)) \<longrightarrow>
                fst (testEmail env provider reqBody)
                  = \<lparr>status = 500, body = ErrorBody (envOr answer (lit ''Failed to send email''))\<rparr>))
     \<and> (\<not> emailConfigured env \<longrightarrow> testEmail env provider reqBody = (notConfigured, []))
     \<and> REPLY_TO_EMAIL env = envOr (envGMAIL_USER env) (lit ''jack@poolauthoritycny.com'')
     \<and> (emailTransporter env \<longrightarrow>
           map optTo (snd (gmailTestEmail env sendMail reqBody)) = [JStr (GMAIL_USER env)]
           \<and> envGMAIL_USER env = Some (GMAIL_USER env)
           \<and> (list_all (\<lambda>r. sendMail r = None) (snd (gmailTestEmail env sendMail reqBody)) \<longrightarrow>
                fst (gmailTestEmail env sendMail reqBody) = testSucceeded)
           \<and> (list_all (\<lambda>r. sendMail r = Some m) (snd (gmailTestEmail env sendMail reqBody)) \<longrightarrow>
                fst (gmailTestEmail env sendMail reqBody) = \<lparr>status = 500, body = ErrorBody m\<rparr>))
     \<and> (\<not> emailTransporter env \<longrightarrow>
           gmailTestEmail env sendMail reqBody = (gmailNotConfigured, []))"
proof (intro conjI impI)
  assume c: "emailConfigured env"
  then have k: "RESEND_API_KEY env \<noteq> []" by (simp add: emailConfigured_def)
  note d = testEmail_default [OF c assms]
  show "map mailTo (snd (testEmail env provider reqBody)) = [[JStr (REPLY_TO_EMAIL env)]]"
    unfolding d by (rule sendAndRespond_calls [OF k])
  show "fst (testEmail env provider reqBody) = testSucceeded"
    if "list_all (\<lambda>r. provider r = Accepted) (snd (testEmail env provider reqBody))"
    using that unfolding d testSucceeded_def by (rule sendAndRespond_accepted [OF k])
  show "fst (testEmail env provider reqBody) = \<lparr>status = 500, body = ErrorBody m\<rparr>"
    if "list_all (\<lambda>r. provider r = FetchThrows m) (snd (testEmail env provider reqBody))"
    using that unfolding d by (rule sendAndRespond_thrown [OF k])
  show "fst (testEmail env provider reqBody)
          = \<lparr>status = 500, body = ErrorBody (envOr answer (lit ''Failed to send email''))\<rparr>"
    if "list_all (\<lambda>r. provider r = NotOk answer) (snd (testEmail env provider reqBody))"
    using that unfolding d by (rule sendAndRespond_refused [OF k])
next
  assume "\<not> emailConfigured env"
  then show "testEmail env provider reqBody = (notConfigured, [])"
    by (simp add: testEmail_def)
next
  show "REPLY_TO_EMAIL env = envOr (envGMAIL_USER env) (lit ''jack@poolauthoritycny.com'')"
    by (simp add: REPLY_TO_EMAIL_def)
next
  assume t: "emailTransporter env"
  show "map optTo (snd (gmailTestEmail env sendMail reqBody)) = [JStr (GMAIL_USER env)]"
    using assms by (simp add: gmailTestEmail_calls [OF t] orElse_falsy)
  show "envGMAIL_USER env = Some (GMAIL_USER env)"
    by (rule GMAIL_USER_value [OF t])
  show "fst (gmailTestEmail env sendMail reqBody) = testSucceeded"
    if "list_all (\<lambda>r. sendMail r = None) (snd (gmailTestEmail env sendMail reqBody))"
    using that by (rule gmailTestEmail_accepted [OF t])
  show "fst (gmailTestEmail env sendMail reqBody) = \<lparr>status = 500, body = ErrorBody m\<rparr>"
    if "list_all (\<lambda>r. sendMail r = Some m) (snd (gmailTestEmail env sendMail reqBody))"
    using that by (rule gmailTestEmail_refused [OF t])
next
  assume "\<not> emailTransporter env"
  then show "gmailTestEmail env sendMail reqBody = (gmailNotConfigured, [])"
    by (simp add: gmailTestEmail_def gmailNotConfigured_def)
qed

theorem test_email_default_recipient_witness:
  "\<not> truthyField (field [(lit ''to'', JStr [])] ''to'')
   \<and> emailConfigured sampleEnvironment
   \<and> emailTransporter sampleEnvironment
   \<and> \<not> emailConfigured bareEnvironment
   \<and> \<not> emailTransporter bareEnvironment
   \<and> list_all (\<lambda>r. acceptingProvider r = Accepted)
        (snd (testEmail sampleEnvironment acceptingProvider [(lit ''to'', JStr [])]))
   \<and> list_all (\<lambda>r. throwingProvider r = FetchThrows (lit ''fetch failed''))
        (snd (testEmail sampleEnvironment throwingProvider [(lit ''to'', JStr [])]))
   \<and> list_all (\<lambda>r. rejectingProvider r = NotOk (Some (lit ''Invalid API key'')))
        (snd (testEmail sampleEnvironment rejectingProvider [(lit ''to'', JStr [])]))
   \<and> list_all (\<lambda>r. silentProvider r = NotOk None)
        (snd (testEmail sampleEnvironment silentProvider [(lit ''to'', JStr [])]))
   \<and> list_all (\<lambda>r. acceptingMailer r = None)
        (snd (gmailTestEmail sampleEnvironment acceptingMailer [(lit ''to'', JStr [])]))
   \<and> list_all (\<lambda>r. failingMailer r = Some (lit ''Invalid login''))
        (snd (gmailTestEmail sampleEnvironment failingMailer [(lit ''to'', JStr [])]))
   \<and> map mailTo (snd (testEmail sampleEnvironment acceptingProvider [(lit ''to'', JStr [])]))
       = [[JStr (lit ''owner@example.com'')]]
   \<and> fst (testEmail sampleEnvironment acceptingProvider [(lit ''to'', JStr [])]) = testSucceeded
   \<and> fst (testEmail sampleEnvironment throwingProvider [(lit ''to'', JStr [])])
       = \<lparr>status = 500, body = ErrorBody (lit ''fetch failed'')\<rparr>
   \<and> fst (testEmail sampleEnvironment rejectingProvider [(lit ''to'', JStr [])])
       = \<lparr>status = 500, body = ErrorBody (lit ''Invalid API key'')\<rparr>
   \<and> fst (testEmail sampleEnvironment silentProvider [(lit ''to'', JStr [])])
       = \<lparr>status = 500, body = ErrorBody (lit ''Failed to send email'')\<rparr>
   \<and> testEmail bareEnvironment acceptingProvider [(lit ''to'', JStr [])] = (notConfigured, [])
   \<and> map optTo (snd (gmailTestEmail sampleEnvironment acceptingMailer [(lit ''to'', JStr [])]))
       = [JStr (lit ''owner@example.com'')]
   \<and> fst (gmailTestEmail sampleEnvironment acceptingMailer [(lit ''to'', JStr [])]) = testSucceeded
   \<and> fst (gmailTestEmail sampleEnvironment failingMailer [(lit ''to'', JStr [])])
       = \<lparr>status = 500, body = ErrorBody (lit ''Invalid login'')\<rparr>
   \<and> gmailTestEmail bareEnvironment acceptingMailer [(lit ''to'', JStr [])] = (gmailNotConfigured, [])"
proof -
  let ?req = "[(lit ''to'', JStr [])]"
  have h1: "\<not> truthyField (field ?req ''to'')"
    by (simp add: field_def)
  have h2: "emailConfigured sampleEnvironment"
    by (simp add: emailConfigured_def RESEND_API_KEY_def envOr_def sampleEnvironment_def lit_def)
  have h3: "emailTransporter sampleEnvironment"
    by (simp add: emailTransporter_def GMAIL_USER_def GMAIL_APP_PASSWORD_def envOr_def
        sampleEnvironment_def lit_def)
  have h2n: "\<not> emailConfigured bareEnvironment"
    by (simp add: emailConfigured_def RESEND_API_KEY_def envOr_def bareEnvironment_def)
  have h3n: "\<not> emailTransporter bareEnvironment"
    by (simp add: emailTransporter_def GMAIL_USER_def GMAIL_APP_PASSWORD_def envOr_def
        bareEnvironment_def)
  have p1: "list_all (\<lambda>r. acceptingProvider r = Accepted) calls" for calls
    by (simp add: acceptingProvider_def list_all_iff)
  have p2: "list_all (\<lambda>r. throwingProvider r = FetchThrows (lit ''fetch failed'')) calls" for calls
    by (simp add: throwingProvider_def list_all_iff)
  have p3: "list_all (\<lambda>r. rejectingProvider r = NotOk (Some (lit ''Invalid API key''))) calls" for calls
    by (simp add: rejectingProvider_def list_all_iff)
  have p4: "list_all (\<lambda>r. silentProvider r = NotOk None) calls" for calls
    by (simp add: silentProvider_def list_all_iff)
  have p5: "list_all (\<lambda>r. acceptingMailer r = None) calls" for calls
    by (simp add: acceptingMailer_def list_all_iff)
  have p6: "list_all (\<lambda>r. failingMailer r = Some (lit ''Invalid login'')) calls" for calls
    by (simp add: failingMailer_def list_all_iff)
  have r: "REPLY_TO_EMAIL sampleEnvironment = lit ''owner@example.com''"
    "GMAIL_USER sampleEnvironment = lit ''owner@example.com''"
    by (simp_all add: REPLY_TO_EMAIL_def GMAIL_USER_def envOr_def sampleEnvironment_def lit_def)
  have e: "envOr (Some (lit ''Invalid API key'')) (lit ''Failed to send email'') = lit ''Invalid API key''"
    "envOr None (lit ''Failed to send email'') = lit ''Failed to send email''"
    by (simp_all add: envOr_def lit_def)
  note t1 = test_email_default_recipient [OF h1, where env = sampleEnvironment
      and provider = acceptingProvider and sendMail = acceptingMailer]
  note t2 = test_email_default_recipient [OF h1, where env = sampleEnvironment
      and provider = throwingProvider and m = "lit ''fetch failed''"]
  note t3 = test_email_default_recipient [OF h1, where env = sampleEnvironment
      and provider = rejectingProvider and answer = "Some (lit ''Invalid API key'')"]
  note t4 = test_email_default_recipient [OF h1, where env = sampleEnvironment
      and provider = silentProvider and answer = None]
  note t5 = test_email_default_recipient [OF h1, where env = sampleEnvironment
      and sendMail = failingMailer and m = "lit ''Invalid login''"]
  note t6 = test_email_default_recipient [OF h1, where env = bareEnvironment
      and provider = acceptingProvider and sendMail = acceptingMailer]
  from t1 h2 have a: "map mailTo (snd (testEmail sampleEnvironment acceptingProvider ?req))
       = [[JStr (REPLY_TO_EMAIL sampleEnvironment)]]"
    by blast
  from t1 h2 p1 have b: "fst (testEmail sampleEnvironment acceptingProvider ?req) = testSucceeded"
    by blast
  from t2 h2 p2 have c: "fst (testEmail sampleEnvironment throwingProvider ?req)
       = \<lparr>status = 500, body = ErrorBody (lit ''fetch failed'')\<rparr>"
    by blast
  from t3 h2 p3 have d: "fst (testEmail sampleEnvironment rejectingProvider ?req)
       = \<lparr>status = 500, body = ErrorBody (lit ''Invalid API key'')\<rparr>"
    unfolding e by blast
  from t4 h2 p4 have f: "fst (testEmail sampleEnvironment silentProvider ?req)
       = \<lparr>status = 500, body = ErrorBody (lit ''Failed to send email'')\<rparr>"
    unfolding e by blast
  from t6 h2n have g: "testEmail bareEnvironment acceptingProvider ?req = (notConfigured, [])"
    by blast
  from t1 h3 have i: "map optTo (snd (gmailTestEmail sampleEnvironment acceptingMailer ?req))
       = [JStr (GMAIL_USER sampleEnvironment)]"
    by blast
  from t1 h3 p5 have j: "fst (gmailTestEmail sampleEnvironment acceptingMailer ?req) = testSucceeded"
    by blast
  from t5 h3 p6 have k: "fst (gmailTestEmail sampleEnvironment failingMailer ?req)
       = \<lparr>status = 500, body = ErrorBody (lit ''Invalid login'')\<rparr>"
    by blast
  from t6 h3n have l: "gmailTestEmail bareEnvironment acceptingMailer ?req = (gmailNotConfigured, [])"
    by blast
  show ?thesis
    using h1 h2 h3 h2n h3n p1 p2 p3 p4 p5 p6 a b c d f g i j k l unfolding r by (intro conjI)
qed

text \<open>
  The endpoint does not report success for every such request: without the credential
  nothing is sent and the answer is 400, and a refusal of the provider gives 500.
\<close>

theorem test_email_can_fail:
  "testEmail bareEnvironment acceptingProvider [] = (notConfigured, [])
   \<and> fst (testEmail sampleEnvironment rejectingProvider [])
       = \<lparr>status = 500, body = ErrorBody (lit ''Invalid API key'')\<rparr>"
  by (simp add: testEmail_def emailConfigured_def RESEND_API_KEY_def envOr_def
      bareEnvironment_def sampleEnvironment_def sendAndRespond_def sendEmailWithResend_def
      rejectingProvider_def lit_def Let_def)

section \<open>The merge data\<close>










definition posted :: "(response \<times> resendRequest list) option \<Rightarrow> resendRequest list" where
  "posted r = (case r of Some answer \<Rightarrow> snd answer | None \<Rightarrow> [])"



lemma posted_rejected [simp]: "posted (Some (resp, [])) = []"
  by (simp add: posted_def)








section \<open>Rounding to doubles\<close>

text \<open>
  The binary logarithm and the rounding do what their names say, so that
  \<open>roundToDouble\<close> is the nearest double; within the normal range its relative error
  is at most \<open>2^-53\<close>.
\<close>

lemma pow2_powi: "pow2 e = 2 powi e"
  by (simp add: pow2_def power_int_def field_simps)

lemma pow2_pos: "0 < pow2 e"
  by (simp add: pow2_powi)

lemma pow2_add: "pow2 (a + b) = pow2 a * pow2 b"
  by (simp add: pow2_powi power_int_add)

lemma pow2_mono: "a \<le> b \<Longrightarrow> pow2 a \<le> pow2 b"
  by (simp add: pow2_powi power_int_increasing)

lemma pow2_strict_mono: "a < b \<Longrightarrow> pow2 a < pow2 b"
  by (simp add: pow2_powi power_int_strict_increasing)

lemma pow2_nat: "pow2 (int n) = 2 ^ n"
  by (simp add: pow2_def)

lemma bitLength_bounds: "0 < n \<Longrightarrow> 2 ^ (bitLength n - 1) \<le> n \<and> n < 2 ^ bitLength n"
proof (induction n rule: bitLength.induct)
  case (1 n)
  show ?case
  proof (cases "n div 2 = 0")
    case True
    with "1.prems" have "n = 1" by (simp add: div_eq_0_iff)
    then show ?thesis by (simp add: bitLength.simps)
  next
    case False
    with "1.IH" "1.prems" have IH: "2 ^ (bitLength (n div 2) - 1) \<le> n div 2"
      "n div 2 < 2 ^ bitLength (n div 2)" by simp_all
    from False have b: "bitLength (n div 2) \<noteq> 0"
      by (subst bitLength.simps) simp
    have eq: "bitLength n = Suc (bitLength (n div 2))"
      using "1.prems" by (subst bitLength.simps) simp
    from b have e2: "(2::nat) ^ bitLength (n div 2) = 2 * 2 ^ (bitLength (n div 2) - 1)"
      by (cases "bitLength (n div 2)") simp_all
    from IH(1) have "2 * 2 ^ (bitLength (n div 2) - 1) \<le> n" by linarith
    moreover from IH(2) have "n < 2 * 2 ^ bitLength (n div 2)" by linarith
    ultimately show ?thesis unfolding eq using e2 by simp
  qed
qed

lemma pow2_diff_nat: "pow2 (int m - int n) = 2 ^ m / 2 ^ n"
  by (simp add: pow2_powi power_int_diff)

lemma nat_le_rat: "(2::nat) ^ k \<le> n \<Longrightarrow> (2::rat) ^ k \<le> of_nat n"
proof -
  assume "(2::nat) ^ k \<le> n"
  then have "(of_nat (2 ^ k) :: rat) \<le> of_nat n" by (simp only: of_nat_le_iff)
  then show ?thesis by simp
qed

lemma nat_less_rat: "n < (2::nat) ^ k \<Longrightarrow> (of_nat n :: rat) < 2 ^ k"
proof -
  assume "n < (2::nat) ^ k"
  then have "(of_nat n :: rat) < of_nat (2 ^ k)" by (simp only: of_nat_less_iff)
  then show ?thesis by simp
qed

lemma floorLog2_bounds:
  assumes "0 < a"
  shows "pow2 (floorLog2 a) \<le> a \<and> a < pow2 (floorLog2 a + 1)"
proof -
  obtain p q where pq: "quotient_of a = (p, q)" by (cases "quotient_of a")
  then have q: "0 < q" by (rule quotient_of_denom_pos)
  from pq have a: "a = of_int p / of_int q" by (rule quotient_of_div)
  with assms q have p: "0 < p" by (simp add: zero_less_divide_iff)
  let ?P = "nat p" and ?Q = "nat q"
  let ?bp = "bitLength ?P" and ?bq = "bitLength ?Q"
  let ?d = "int ?bp - int ?bq"
  from p q have P: "0 < ?P" and Q: "0 < ?Q" by simp_all
  from bitLength_bounds [OF P] have Pb: "2 ^ (?bp - 1) \<le> ?P" "?P < 2 ^ ?bp" by simp_all
  from bitLength_bounds [OF Q] have Qb: "2 ^ (?bq - 1) \<le> ?Q" "?Q < 2 ^ ?bq" by simp_all
  from P have bp: "1 \<le> ?bp" by (subst bitLength.simps) simp
  from Q have bq: "1 \<le> ?bq" by (subst bitLength.simps) simp
  have ar: "a = of_nat ?P / of_nat ?Q"
    using a p q by simp
  have Pr: "(2::rat) ^ (?bp - 1) \<le> of_nat ?P" "(of_nat ?P :: rat) < 2 ^ ?bp"
    using Pb nat_le_rat nat_less_rat by blast+
  have Qr: "(2::rat) ^ (?bq - 1) \<le> of_nat ?Q" "(of_nat ?Q :: rat) < 2 ^ ?bq"
    using Qb nat_le_rat nat_less_rat by blast+
  have Qpos: "(0::rat) < of_nat ?Q" using Q by simp
  have lower: "pow2 (?d - 1) < a"
  proof -
    have "?d - 1 = int (?bp - 1) - int ?bq"
      using bp by linarith
    then have "pow2 (?d - 1) = pow2 (int (?bp - 1) - int ?bq)"
      by (simp only:)
    also have "\<dots> = 2 ^ (?bp - 1) / 2 ^ ?bq" by (rule pow2_diff_nat)
    also have "\<dots> \<le> of_nat ?P / 2 ^ ?bq"
      using Pr(1) by (simp add: divide_right_mono)
    also have "\<dots> < of_nat ?P / of_nat ?Q"
      using Qr(2) Qpos P by (simp add: divide_strict_left_mono)
    finally show ?thesis unfolding ar .
  qed
  have upper: "a < pow2 (?d + 1)"
  proof -
    have "a = of_nat ?P / of_nat ?Q" by (rule ar)
    also have "\<dots> < 2 ^ ?bp / of_nat ?Q"
      using Pr(2) Qpos by (simp add: divide_strict_right_mono)
    also have "\<dots> \<le> 2 ^ ?bp / 2 ^ (?bq - 1)"
      by (rule frac_le) (use Qr(1) in simp_all)
    also have "\<dots> = pow2 (int ?bp - int (?bq - 1))" by (rule pow2_diff_nat [symmetric])
    also have "int ?bp - int (?bq - 1) = ?d + 1"
      using bq by linarith
    finally show ?thesis .
  qed
  show ?thesis
  proof (cases "pow2 ?d \<le> a")
    case True
    then have "floorLog2 a = ?d" by (simp add: floorLog2_def pq)
    with True upper show ?thesis by simp
  next
    case False
    then have "floorLog2 a = ?d - 1" by (simp add: floorLog2_def pq)
    with False lower show ?thesis by simp
  qed
qed

lemma floorLog2_unique:
  assumes "0 < a" "pow2 k \<le> a" "a < pow2 (k + 1)"
  shows "floorLog2 a = k"
proof (rule ccontr)
  assume ne: "floorLog2 a \<noteq> k"
  from floorLog2_bounds [OF assms(1)]
  have b: "pow2 (floorLog2 a) \<le> a" "a < pow2 (floorLog2 a + 1)" by simp_all
  show False
  proof (cases "floorLog2 a < k")
    case True
    then have "pow2 (floorLog2 a + 1) \<le> pow2 k" by (simp add: pow2_mono)
    with b(2) assms(2) show False by simp
  next
    case False
    with ne have "k + 1 \<le> floorLog2 a" by simp
    then have "pow2 (k + 1) \<le> pow2 (floorLog2 a)" by (rule pow2_mono)
    with b(1) assms(3) show False by simp
  qed
qed

lemma roundHalfEven_error: "\<bar>of_int (roundHalfEven x) - x\<bar> \<le> 1 / 2"
  unfolding roundHalfEven_def Let_def
  by (auto simp: abs_if) linarith+

lemma roundHalfEven_unique:
  assumes "\<bar>x - of_int m\<bar> < 1 / 2"
  shows "roundHalfEven x = m"
proof -
  have "\<bar>of_int (roundHalfEven x) - x\<bar> \<le> 1 / 2" by (rule roundHalfEven_error)
  with assms have "\<bar>(of_int (roundHalfEven x) :: rat) - of_int m\<bar> < 1" by linarith
  then have "\<bar>(of_int (roundHalfEven x - m) :: rat)\<bar> < 1" by simp
  then have "\<bar>roundHalfEven x - m\<bar> < 1"
    by (metis of_int_abs of_int_less_1_iff)
  then show ?thesis by simp
qed

lemma roundToDouble_nearest:
  assumes x: "0 < x"
    and lo: "pow2 (e + 52) \<le> x" and hi: "x < pow2 (e + 53)"
    and e: "- 1074 \<le> e"
    and near: "\<bar>x - of_int m * pow2 e\<bar> < pow2 e / 2"
    and fin: "of_int m * pow2 e < 2 ^ 1024"
  shows "roundToDouble x = Fin (of_int m * pow2 e)"
proof -
  have "x < pow2 (e + 52 + 1)" using hi by (simp add: add.commute add.left_commute)
  with x lo have fl: "floorLog2 x = e + 52" by (rule floorLog2_unique)
  have ex: "max (floorLog2 \<bar>x\<bar> - 52) (- 1074) = e"
    using x e by (simp add: fl)
  have pe: "0 < pow2 e" by (rule pow2_pos)
  have "\<bar>x / pow2 e - of_int m\<bar> = \<bar>x - of_int m * pow2 e\<bar> / pow2 e"
    using pe by (simp add: field_simps abs_if)
  also have "\<dots> < (pow2 e / 2) / pow2 e"
    using near pe by (simp add: divide_strict_right_mono)
  also have "\<dots> = 1 / 2" using pe by simp
  finally have "roundHalfEven (x / pow2 e) = m" by (rule roundHalfEven_unique)
  with x fin ex show ?thesis
    by (simp add: roundToDouble_def Let_def)
qed

lemma roundToDouble_error:
  assumes lo: "pow2 (- 1022) \<le> x" and hi: "x < 2 ^ 1023"
  shows "\<exists>y. roundToDouble x = Fin y \<and> \<bar>y - x\<bar> \<le> x / 2 ^ 53"
proof -
  have x: "0 < x" using lo pow2_pos [of "- 1022"] by linarith
  let ?k = "floorLog2 x"
  from floorLog2_bounds [OF x] have kb: "pow2 ?k \<le> x" "x < pow2 (?k + 1)" by simp_all
  have k: "- 1022 \<le> ?k"
  proof (rule ccontr)
    assume "\<not> - 1022 \<le> ?k"
    then have "?k + 1 \<le> - 1022" by simp
    then have "pow2 (?k + 1) \<le> pow2 (- 1022)" by (rule pow2_mono)
    with kb(2) lo show False by simp
  qed
  let ?e = "?k - 52"
  have ex: "max (floorLog2 \<bar>x\<bar> - 52) (- 1074) = ?e"
    using x k by simp
  have pe: "0 < pow2 ?e" by (rule pow2_pos)
  let ?m = "roundHalfEven (x / pow2 ?e)"
  let ?y = "of_int ?m * pow2 ?e"
  have "\<bar>?y - x\<bar> = \<bar>of_int ?m - x / pow2 ?e\<bar> * pow2 ?e"
    using pe by (simp add: field_simps abs_if)
  also have "\<dots> \<le> (1 / 2) * pow2 ?e"
    using roundHalfEven_error [of "x / pow2 ?e"] pe by (simp add: mult_right_mono)
  also have "\<dots> = pow2 ?k / 2 ^ 53"
  proof -
    have "pow2 ?k = pow2 (?e + 52)" by simp
    also have "\<dots> = pow2 ?e * pow2 52" by (rule pow2_add)
    also have "pow2 52 = 2 ^ 52" by (simp add: pow2_def)
    finally show ?thesis by simp
  qed
  also have "\<dots> \<le> x / 2 ^ 53"
    using kb(1) by (simp add: divide_right_mono)
  finally have err: "\<bar>?y - x\<bar> \<le> x / 2 ^ 53" .
  have "?y \<le> x + x / 2 ^ 53" using err by linarith
  also have "\<dots> < 2 ^ 1023 + 2 ^ 1023 / 2 ^ 53"
    using hi by (simp add: add_strict_mono divide_strict_right_mono)
  also have "\<dots> \<le> 2 ^ 1024" by simp
  finally have fin: "?y < 2 ^ 1024" .
  have "roundToDouble x = Fin ?y"
    using x fin ex by (simp add: roundToDouble_def Let_def)
  with err show ?thesis by blast
qed

lemma pow2_small: "pow2 (- 1022) \<le> 1 / 2 ^ 53"
proof -
  have "pow2 (- 1022) \<le> pow2 (- 53)" by (rule pow2_mono) simp
  also have "\<dots> = 1 / 2 ^ 53" by (simp add: pow2_def)
  finally show ?thesis .
qed

lemma cents_round_trip:
  assumes c: "1 \<le> c" "c \<le> 2 ^ 49" and d: "roundToDouble (of_nat c / 100) = Fin d"
  shows "mathRound (numTimes (Fin d) (Fin 100)) = Fin (of_nat c)"
proof -
  let ?c = "of_nat c :: rat"
  have c1: "1 \<le> ?c" using c(1) by simp
  have c2: "?c \<le> 2 ^ 49"
  proof -
    from c(2) have "?c \<le> of_nat (2 ^ 49)" by (simp only: of_nat_le_iff)
    then show ?thesis by simp
  qed
  let ?x = "?c / 100"
  have xlo: "pow2 (- 1022) \<le> ?x"
  proof -
    have "(1::rat) / 2 ^ 53 \<le> 1 / 100" by simp
    also have "\<dots> \<le> ?x" using c1 by (simp add: divide_right_mono)
    finally show ?thesis using pow2_small by linarith
  qed
  have xhi: "?x < 2 ^ 1023"
  proof -
    have "?x \<le> 2 ^ 49" using c2 by simp
    also have "(2::rat) ^ 49 < 2 ^ 1023" by simp
    finally show ?thesis .
  qed
  from roundToDouble_error [OF xlo xhi] d have derr: "\<bar>d - ?x\<bar> \<le> ?x / 2 ^ 53"
    by simp
  let ?p = "d * 100"
  have perr: "\<bar>?p - ?c\<bar> \<le> ?c / 2 ^ 53"
    using derr by (simp add: abs_if field_simps split: if_splits)
  have plo: "pow2 (- 1022) \<le> ?p"
  proof -
    have "?c - ?c / 2 ^ 53 \<le> ?p" using perr by linarith
    moreover have "1 / 2 \<le> ?c - ?c / 2 ^ 53" using c1 by simp
    moreover have "(1::rat) / 2 ^ 53 \<le> 1 / 2" by simp
    ultimately show ?thesis using pow2_small by linarith
  qed
  have pup: "?p \<le> 2 * ?c"
  proof -
    have "?p \<le> ?c + ?c / 2 ^ 53" using perr by linarith
    also have "\<dots> \<le> 2 * ?c" using c1 by simp
    finally show ?thesis .
  qed
  have phi: "?p < 2 ^ 1023"
  proof -
    have "?p \<le> 2 * 2 ^ 49" using pup c2 by linarith
    also have "(2::rat) * 2 ^ 49 < 2 ^ 1023" by simp
    finally show ?thesis .
  qed
  from roundToDouble_error [OF plo phi] obtain z where
    z: "roundToDouble ?p = Fin z" and zerr: "\<bar>z - ?p\<bar> \<le> ?p / 2 ^ 53"
    by blast
  have "\<bar>z - ?c\<bar> \<le> ?p / 2 ^ 53 + ?c / 2 ^ 53" using zerr perr by linarith
  also have "\<dots> \<le> 2 * ?c / 2 ^ 53 + ?c / 2 ^ 53"
    using pup by (simp add: divide_right_mono)
  also have "\<dots> = 3 * ?c / 2 ^ 53" by simp
  also have "\<dots> \<le> 3 * 2 ^ 49 / 2 ^ 53" using c2 by (simp add: divide_right_mono)
  also have "\<dots> < 1 / 2" by simp
  finally have close: "\<bar>z - ?c\<bar> < 1 / 2" .
  have "\<lfloor>z + 1 / 2\<rfloor> = int c"
  proof (rule floor_unique)
    show "of_int (int c) \<le> z + 1 / 2" using close by (simp add: abs_if split: if_splits)
    show "z + 1 / 2 < of_int (int c) + 1" using close by (simp add: abs_if split: if_splits)
  qed
  then show ?thesis
    by (simp add: z)
qed

lemma parse_4999: "roundToDouble (4999 / 100) = Fin (7035467042882847 / 2 ^ 47)"
proof -
  have "roundToDouble (4999 / 100) = Fin (of_int 7035467042882847 * pow2 (- 47))"
    by (rule roundToDouble_nearest) (simp_all add: pow2_def)
  then show ?thesis by (simp add: pow2_def)
qed

lemma double_015: "roundToDouble (15 / 1000) = Fin (1080863910568919 / 2 ^ 56)"
proof -
  have "roundToDouble (15 / 1000) = Fin (of_int 8646911284551352 * pow2 (- 59))"
    by (rule roundToDouble_nearest) (simp_all add: pow2_def)
  then show ?thesis by (simp add: pow2_def)
qed

lemma times_015: "roundToDouble (1080863910568919 / 2 ^ 56 * 100) = Fin (3 / 2)"
proof -
  have "roundToDouble (1080863910568919 / 2 ^ 56 * 100) = Fin (of_int 6755399441055744 * pow2 (- 52))"
    by (rule roundToDouble_nearest) (simp_all add: pow2_def)
  then show ?thesis by (simp add: pow2_def)
qed

lemma exact_015: "\<lfloor>(1080863910568919 / 2 ^ 56 * 100 :: rat) + 1 / 2\<rfloor> = 1"
  by (rule floor_unique) simp_all

lemma double_5: "roundToDouble 5 = Fin 5"
proof -
  have "roundToDouble 5 = Fin (of_int 5629499534213120 * pow2 (- 50))"
    by (rule roundToDouble_nearest) (simp_all add: pow2_def)
  then show ?thesis by (simp add: pow2_def)
qed

lemma double_500: "roundToDouble 500 = Fin 500"
proof -
  have "roundToDouble 500 = Fin (of_int 8796093022208000 * pow2 (- 44))"
    by (rule roundToDouble_nearest) (simp_all add: pow2_def)
  then show ?thesis by (simp add: pow2_def)
qed

section \<open>The amount guard of the checkout endpoint\<close>

text \<open>
  The values that pass the guard \<open>!amount || amount <= 0\<close>: a positive number,
  \<open>true\<close> (which counts as 1), a non-empty string or an array that reads as a positive
  number or as no number at all (NaN is not below zero), and an object (which counts
  as NaN), unless the conversion throws.
\<close>

definition amountRejected :: "response \<times> sessionConfig list" where
  "amountRejected = (\<lparr>status = 400, body = ErrorBody (lit ''Invalid amount'')\<rparr>, [])"

fun acceptedAmount :: "json \<Rightarrow> bool" where
  "acceptedAmount (JNum (Fin q)) = (0 < q)"
| "acceptedAmount (JNum PosInf) = True"
| "acceptedAmount (JNum n) = False"
| "acceptedAmount (JBool b) = b"
| "acceptedAmount JNull = False"
| "acceptedAmount (JStr s) = (s \<noteq> [] \<and> \<not> numLeqZero (stringToNumber s))"
| "acceptedAmount (JArr xs) =
     (case toString (JArr xs) of Some s \<Rightarrow> \<not> numLeqZero (stringToNumber s) | None \<Rightarrow> False)"
| "acceptedAmount (JObj ps) = (map_of ps (lit ''toString'') = None)"

lemma invalid_rejected:
  "invalidAmount (field reqBody ''amount'') = Some True \<Longrightarrow>
   createCheckoutSession stripe origin reqBody = amountRejected"
  by (simp add: createCheckoutSession_def amountRejected_def Let_def)

lemma invalidAmount_cases:
  "invalidAmount None = Some True"
  "\<not> truthy a \<Longrightarrow> invalidAmount (Some a) = Some True"
  "toNumber a = Some n \<Longrightarrow> numLeqZero n \<Longrightarrow> invalidAmount (Some a) = Some True"
  "q \<le> 0 \<Longrightarrow> invalidAmount (Some (JNum (Fin q))) = Some True"
  "invalidAmount (Some (JNum NegInf)) = Some True"
  by (simp_all add: invalidAmount_def)

lemma invalidAmount_False_iff:
  "invalidAmount amount = Some False \<longleftrightarrow>
   (\<exists>a n. amount = Some a \<and> truthy a \<and> toNumber a = Some n \<and> \<not> numLeqZero n)"
  by (cases amount) (auto simp: invalidAmount_def split: option.splits)

lemma objectText: "stringToNumber (lit ''[object Object]'') = JNaN"
  by (simp add: stringToNumber_def trimString_def strWhiteSpace_def nonDecimalInteger_def
      signedDecimal_def unsignedDecimal_def isDigit_def lit_def Let_def)

lemma acceptedAmount_iff:
  "acceptedAmount a \<longleftrightarrow> truthy a \<and> (\<exists>n. toNumber a = Some n \<and> \<not> numLeqZero n)"
proof (cases a)
  case (JNum n)
  then show ?thesis by (cases n) auto
next
  case (JObj ps)
  then show ?thesis by (auto simp: objectText)
qed (auto split: option.splits)

lemma called_accepted:
  assumes "snd (createCheckoutSession stripe origin reqBody) \<noteq> []"
  shows "\<exists>a. field reqBody ''amount'' = Some a \<and> acceptedAmount a"
proof -
  have "invalidAmount (field reqBody ''amount'') = Some False"
  proof (cases "invalidAmount (field reqBody ''amount'')")
    case None
    with assms show ?thesis by (simp add: createCheckoutSession_def Let_def)
  next
    case (Some b)
    with assms show ?thesis
      by (cases b) (auto simp: createCheckoutSession_def Let_def)
  qed
  then show ?thesis
    unfolding invalidAmount_False_iff acceptedAmount_iff by blast
qed

lemma checkout_calls:
  assumes "field reqBody ''amount'' = Some a" "invalidAmount (Some a) = Some False"
    and "toNumber a = Some n"
    and "toString (orElse (field reqBody ''customerName'') (JStr (lit ''Customer''))) = Some name"
  shows "\<exists>resp cfg. createCheckoutSession stripe origin reqBody = (resp, [cfg])
           \<and> unit_amount cfg = mathRound (numTimes n (Fin 100))"
  using assms
  by (simp add: createCheckoutSession_def Let_def split: sum.splits prod.splits)

lemma accepted_called:
  assumes "field reqBody ''amount'' = Some a" "acceptedAmount a"
    and "toString (orElse (field reqBody ''customerName'') (JStr (lit ''Customer''))) = Some name"
  shows "\<exists>resp cfg n. createCheckoutSession stripe origin reqBody = (resp, [cfg])
           \<and> toNumber a = Some n \<and> unit_amount cfg = mathRound (numTimes n (Fin 100))"
proof -
  from assms(2) obtain n where n: "truthy a" "toNumber a = Some n" "\<not> numLeqZero n"
    unfolding acceptedAmount_iff by blast
  then have "invalidAmount (Some a) = Some False"
    unfolding invalidAmount_False_iff by blast
  from checkout_calls [OF assms(1) this n(2) assms(3)] n(2) show ?thesis by blast
qed

lemma conversion_throws:
  assumes "field reqBody ''amount'' = Some a" "truthy a" "toNumber a = None"
  shows "createCheckoutSession stripe origin reqBody = (runtimeError, [])"
  using assms by (simp add: createCheckoutSession_def invalidAmount_def Let_def)

lemma round_100: "mathRound (numTimes (Fin 1) (Fin 100)) = Fin 100"
proof -
  have "roundToDouble 100 = Fin (of_int 7036874417766400 * pow2 (- 46))"
    by (rule roundToDouble_nearest) (simp_all add: pow2_def)
  then have "roundToDouble 100 = Fin 100" by (simp add: pow2_def)
  moreover have "\<lfloor>(100::rat) + 1 / 2\<rfloor> = 100" by (rule floor_unique) simp_all
  ultimately show ?thesis by simp
qed

lemma round_500: "mathRound (numTimes (Fin 5) (Fin 100)) = Fin 500"
proof -
  have "\<lfloor>(500::rat) + 1 / 2\<rfloor> = 500" by (rule floor_unique) simp_all
  with double_500 show ?thesis by simp
qed

lemma number_5: "stringToNumber (lit ''5'') = Fin 5"
proof -
  have "stringToNumber (lit ''5'') = roundToDouble 5"
    by (simp add: stringToNumber_def trimString_def strWhiteSpace_def nonDecimalInteger_def
        signedDecimal_def unsignedDecimal_def digitsValue_def digitValue_def isDigit_def
        pow10_def lit_def Let_def)
  then show ?thesis by (simp only: double_5)
qed

lemma number_abc: "stringToNumber (lit ''abc'') = JNaN"
  by (simp add: stringToNumber_def trimString_def strWhiteSpace_def nonDecimalInteger_def
      signedDecimal_def unsignedDecimal_def isDigit_def lit_def Let_def)

text \<open>
  C4, as the code has it: a request whose amount is absent, falsy (zero included) or
  not above zero as a number is answered with status 400 and the message
  \<open>Invalid amount\<close> without a call to the payment provider; the provider is called
  only for an amount that passes the guard, and it is called once for every such
  amount (when the customer name has a string form). The amounts that pass the guard
  are not only the positive numbers.
\<close>

theorem invalid_amount_rejected:
  "(field reqBody ''amount'' = None \<longrightarrow>
      createCheckoutSession stripe origin reqBody = amountRejected)
   \<and> (field reqBody ''amount'' = Some a \<and> \<not> truthy a \<longrightarrow>
      createCheckoutSession stripe origin reqBody = amountRejected)
   \<and> (field reqBody ''amount'' = Some (JNum (Fin q)) \<and> q \<le> 0 \<longrightarrow>
      createCheckoutSession stripe origin reqBody = amountRejected)
   \<and> (field reqBody ''amount'' = Some a \<and> toNumber a = Some n \<and> numLeqZero n \<longrightarrow>
      createCheckoutSession stripe origin reqBody = amountRejected)
   \<and> (snd (createCheckoutSession stripe origin reqBody) \<noteq> [] \<longrightarrow>
      (\<exists>v. field reqBody ''amount'' = Some v \<and> acceptedAmount v))
   \<and> (field reqBody ''amount'' = Some v \<and> acceptedAmount v
        \<and> toString (orElse (field reqBody ''customerName'') (JStr (lit ''Customer''))) = Some name \<longrightarrow>
      (\<exists>resp cfg m. createCheckoutSession stripe origin reqBody = (resp, [cfg])
          \<and> toNumber v = Some m \<and> unit_amount cfg = mathRound (numTimes m (Fin 100))))
   \<and> (acceptedAmount v \<longleftrightarrow> truthy v \<and> (\<exists>m. toNumber v = Some m \<and> \<not> numLeqZero m))
   \<and> amountRejected = (\<lparr>status = 400, body = ErrorBody (lit ''Invalid amount'')\<rparr>, [])"
proof (intro conjI impI)
  assume "field reqBody ''amount'' = None"
  then show "createCheckoutSession stripe origin reqBody = amountRejected"
    by (simp add: invalid_rejected invalidAmount_cases)
next
  assume "field reqBody ''amount'' = Some a \<and> \<not> truthy a"
  then show "createCheckoutSession stripe origin reqBody = amountRejected"
    by (simp add: invalid_rejected invalidAmount_cases)
next
  assume "field reqBody ''amount'' = Some (JNum (Fin q)) \<and> q \<le> 0"
  then show "createCheckoutSession stripe origin reqBody = amountRejected"
    by (simp add: invalid_rejected invalidAmount_cases)
next
  assume "field reqBody ''amount'' = Some a \<and> toNumber a = Some n \<and> numLeqZero n"
  then show "createCheckoutSession stripe origin reqBody = amountRejected"
    by (simp add: invalid_rejected invalidAmount_cases)
next
  assume "snd (createCheckoutSession stripe origin reqBody) \<noteq> []"
  then show "\<exists>v. field reqBody ''amount'' = Some v \<and> acceptedAmount v"
    by (rule called_accepted)
next
  assume "field reqBody ''amount'' = Some v \<and> acceptedAmount v
        \<and> toString (orElse (field reqBody ''customerName'') (JStr (lit ''Customer''))) = Some name"
  then have h: "field reqBody ''amount'' = Some v" "acceptedAmount v"
    "toString (orElse (field reqBody ''customerName'') (JStr (lit ''Customer''))) = Some name"
    by simp_all
  show "\<exists>resp cfg m. createCheckoutSession stripe origin reqBody = (resp, [cfg])
          \<and> toNumber v = Some m \<and> unit_amount cfg = mathRound (numTimes m (Fin 100))"
    by (rule accepted_called [OF h])
next
  show "acceptedAmount v \<longleftrightarrow> truthy v \<and> (\<exists>m. toNumber v = Some m \<and> \<not> numLeqZero m)"
    by (rule acceptedAmount_iff)
next
  show "amountRejected = (\<lparr>status = 400, body = ErrorBody (lit ''Invalid amount'')\<rparr>, [])"
    by (rule amountRejected_def)
qed

theorem invalid_amount_rejected_witness:
  "field [] ''amount'' = None
   \<and> createCheckoutSession acceptingPayments None [] = amountRejected
   \<and> field [(lit ''amount'', JNum (Fin (- 5)))] ''amount'' = Some (JNum (Fin (- 5)))
   \<and> (- 5 :: rat) \<le> 0
   \<and> createCheckoutSession acceptingPayments None [(lit ''amount'', JNum (Fin (- 5)))]
       = (\<lparr>status = 400, body = ErrorBody (lit ''Invalid amount'')\<rparr>, [])
   \<and> field [(lit ''amount'', JStr [])] ''amount'' = Some (JStr []) \<and> \<not> truthy (JStr [])
   \<and> createCheckoutSession acceptingPayments None [(lit ''amount'', JStr [])] = amountRejected
   \<and> field [(lit ''amount'', JStr (lit ''0''))] ''amount'' = Some (JStr (lit ''0''))
   \<and> toNumber (JStr (lit ''0'')) = Some (Fin 0) \<and> numLeqZero (Fin 0)
   \<and> createCheckoutSession acceptingPayments None [(lit ''amount'', JStr (lit ''0''))] = amountRejected
   \<and> field [(lit ''amount'', JStr (lit ''5''))] ''amount'' = Some (JStr (lit ''5''))
   \<and> acceptedAmount (JStr (lit ''5''))
   \<and> toString (orElse (field [(lit ''amount'', JStr (lit ''5''))] ''customerName'')
         (JStr (lit ''Customer''))) = Some (lit ''Customer'')
   \<and> (\<exists>resp cfg. createCheckoutSession acceptingPayments None [(lit ''amount'', JStr (lit ''5''))]
           = (resp, [cfg]) \<and> unit_amount cfg = Fin 500)
   \<and> snd (createCheckoutSession acceptingPayments None [(lit ''amount'', JStr (lit ''abc''))]) \<noteq> []
   \<and> (\<exists>v. field [(lit ''amount'', JStr (lit ''abc''))] ''amount'' = Some v \<and> acceptedAmount v)"
proof -
  let ?neg = "[(lit ''amount'', JNum (Fin (- 5)))]"
  let ?empty = "[(lit ''amount'', JStr [])]"
  let ?zero = "[(lit ''amount'', JStr (lit ''0''))]"
  let ?five = "[(lit ''amount'', JStr (lit ''5''))]"
  let ?abc = "[(lit ''amount'', JStr (lit ''abc''))]"
  have h0: "field [] ''amount'' = None" by (simp add: field_def)
  have h1: "field ?neg ''amount'' = Some (JNum (Fin (- 5)))" by (simp add: field_def)
  have h2: "field ?empty ''amount'' = Some (JStr [])" "\<not> truthy (JStr [])"
    by (simp_all add: field_def)
  have h3: "field ?zero ''amount'' = Some (JStr (lit ''0''))" by (simp add: field_def)
  have z: "stringToNumber (lit ''0'') = Fin 0"
    by (simp add: stringToNumber_def trimString_def strWhiteSpace_def nonDecimalInteger_def
        signedDecimal_def unsignedDecimal_def digitsValue_def digitValue_def isDigit_def
        pow10_def roundToDouble_def lit_def Let_def)
  have h4: "toNumber (JStr (lit ''0'')) = Some (Fin 0)" "numLeqZero (Fin 0)"
    by (simp_all add: z)
  have h5: "field ?five ''amount'' = Some (JStr (lit ''5''))" by (simp add: field_def)
  have h6: "acceptedAmount (JStr (lit ''5''))"
    by (simp add: number_5) (simp add: lit_def)
  have h7: "toString (orElse (field ?five ''customerName'') (JStr (lit ''Customer'')))
      = Some (lit ''Customer'')"
    by (simp add: field_def orElse_def lit_def)
  have f: "field ?abc ''amount'' = Some (JStr (lit ''abc''))"
    "field ?abc ''customerName'' = None"
    by (simp_all add: field_def lit_def)
  have i: "invalidAmount (Some (JStr (lit ''abc''))) = Some False"
    by (simp add: invalidAmount_def number_abc) (simp add: lit_def)
  have h8: "snd (createCheckoutSession acceptingPayments None ?abc) \<noteq> []"
    unfolding createCheckoutSession_def Let_def f i
    by (simp add: orElse_def acceptingPayments_def number_abc)
  note t0 = invalid_amount_rejected [where reqBody = "[]" and stripe = acceptingPayments
      and origin = None]
  note t1 = invalid_amount_rejected [where reqBody = ?neg and stripe = acceptingPayments
      and origin = None and q = "- 5"]
  note t2 = invalid_amount_rejected [where reqBody = ?empty and stripe = acceptingPayments
      and origin = None and a = "JStr []"]
  note t3 = invalid_amount_rejected [where reqBody = ?zero and stripe = acceptingPayments
      and origin = None and a = "JStr (lit ''0'')" and n = "Fin 0"]
  note t4 = invalid_amount_rejected [where reqBody = ?five and stripe = acceptingPayments
      and origin = None and v = "JStr (lit ''5'')" and name = "lit ''Customer''"]
  note t5 = invalid_amount_rejected [where reqBody = ?abc and stripe = acceptingPayments
      and origin = None]
  from t0 h0 have a: "createCheckoutSession acceptingPayments None [] = amountRejected"
    by blast
  from t1 h1 have "createCheckoutSession acceptingPayments None ?neg = amountRejected"
    by simp
  then have b: "createCheckoutSession acceptingPayments None ?neg
       = (\<lparr>status = 400, body = ErrorBody (lit ''Invalid amount'')\<rparr>, [])"
    by (simp only: amountRejected_def)
  from t2 h2 have c: "createCheckoutSession acceptingPayments None ?empty = amountRejected"
    by blast
  from t3 h3 h4 have d: "createCheckoutSession acceptingPayments None ?zero = amountRejected"
    by blast
  from t4 h5 h6 h7 obtain resp cfg m where
    r: "createCheckoutSession acceptingPayments None ?five = (resp, [cfg])"
    and m: "toNumber (JStr (lit ''5'')) = Some m"
    and u: "unit_amount cfg = mathRound (numTimes m (Fin 100))"
    by blast
  from m have "m = Fin 5" by (simp add: number_5)
  with u have "unit_amount cfg = Fin 500" by (simp only: round_500)
  with r have e: "\<exists>resp cfg. createCheckoutSession acceptingPayments None ?five
           = (resp, [cfg]) \<and> unit_amount cfg = Fin 500"
    by blast
  from t5 h8 have g: "\<exists>v. field ?abc ''amount'' = Some v \<and> acceptedAmount v"
    by blast
  have le: "(- 5 :: rat) \<le> 0" by simp
  show ?thesis
    using h0 a h1 le b h2 c h3 h4 d h5 h6 h7 e h8 g by (intro conjI)
qed

text \<open>
  The provider is also called for an amount that is not a number: \<open>true\<close> is charged
  as one unit of currency.
\<close>

theorem non_number_amount_charged:
  "createCheckoutSession acceptingPayments None [(lit ''amount'', JBool True)]
     = (\<lparr>status = 200,
          body = SessionBody (JStr (lit ''cs_test_1''))
                   (JStr (lit ''https://checkout.example/cs_test_1''))\<rparr>,
        [\<lparr>payment_method_types = [lit ''card''],
          currency = lit ''usd'',
          product_name = JStr (lit ''Pool Service''),
          product_description = lit ''Invoice for Customer'',
          unit_amount = Fin 100,
          quantity = 1,
          mode = lit ''payment'',
          success_url = lit ''http://localhost:3000?payment=success'',
          cancel_url = lit ''http://localhost:3000?payment=cancelled'',
          metadata = JObj [],
          customer_email = None\<rparr>])"
proof -
  have f: "field [(lit ''amount'', JBool True)] ''amount'' = Some (JBool True)"
    "field [(lit ''amount'', JBool True)] ''customerEmail'' = None"
    "field [(lit ''amount'', JBool True)] ''description'' = None"
    "field [(lit ''amount'', JBool True)] ''customerName'' = None"
    "field [(lit ''amount'', JBool True)] ''metadata'' = None"
    by (simp_all add: field_def lit_def)
  have n: "mathRound (numTimes (Fin 1) (Fin 100)) = Fin 100" by (rule round_100)
  show ?thesis
    unfolding createCheckoutSession_def Let_def f
    by (simp add: invalidAmount_def orElse_def envOr_def acceptingPayments_def n lit_def
        del: numTimes.simps mathRound.simps)
qed

section \<open>The amount in minor units\<close>

lemma positive_not_invalid: "0 < q \<Longrightarrow> invalidAmount (Some (JNum (Fin q))) = Some False"
  by (simp add: invalidAmount_def)

text \<open>
  C3, as the code has it: for a positive amount the provider receives as
  \<open>unit_amount\<close> the double product \<open>amount * 100\<close> rounded by \<open>Math.round\<close>. When
  the amount is the double nearest to a whole number of cents (at most \<open>2^49\<close> of them),
  that is exactly the number of cents; the amount 49.99 gives 4999.
\<close>

theorem unit_amount_rounding:
  assumes amt: "field reqBody ''amount'' = Some (JNum (Fin q))" and pos: "0 < q"
    and nm: "toString (orElse (field reqBody ''customerName'') (JStr (lit ''Customer''))) = Some name"
  shows "(\<exists>resp cfg. createCheckoutSession stripe origin reqBody = (resp, [cfg])
            \<and> unit_amount cfg = mathRound (roundToDouble (q * 100)))
     \<and> (1 \<le> c \<and> c \<le> 2 ^ 49 \<and> roundToDouble (of_nat c / 100) = Fin q \<longrightarrow>
            mathRound (roundToDouble (q * 100)) = Fin (of_nat c))
     \<and> roundToDouble (4999 / 100) = Fin (7035467042882847 / 2 ^ 47)
     \<and> mathRound (roundToDouble (7035467042882847 / 2 ^ 47 * 100)) = Fin 4999"
proof (intro conjI impI)
  from checkout_calls [OF amt positive_not_invalid [OF pos] _ nm, of "Fin q" stripe origin]
  show "\<exists>resp cfg. createCheckoutSession stripe origin reqBody = (resp, [cfg])
            \<and> unit_amount cfg = mathRound (roundToDouble (q * 100))"
    by simp
next
  assume "1 \<le> c \<and> c \<le> 2 ^ 49 \<and> roundToDouble (of_nat c / 100) = Fin q"
  then have "mathRound (numTimes (Fin q) (Fin 100)) = Fin (of_nat c)"
    by (blast intro: cents_round_trip)
  then show "mathRound (roundToDouble (q * 100)) = Fin (of_nat c)" by simp
next
  show "roundToDouble (4999 / 100) = Fin (7035467042882847 / 2 ^ 47)" by (rule parse_4999)
next
  have "mathRound (numTimes (Fin (7035467042882847 / 2 ^ 47)) (Fin 100)) = Fin (of_nat 4999)"
    by (rule cents_round_trip) (simp_all add: parse_4999)
  then show "mathRound (roundToDouble (7035467042882847 / 2 ^ 47 * 100)) = Fin 4999" by simp
qed

theorem unit_amount_rounding_witness:
  "field [(lit ''amount'', JNum (Fin (7035467042882847 / 2 ^ 47)))] ''amount''
     = Some (JNum (Fin (7035467042882847 / 2 ^ 47)))
   \<and> (0::rat) < 7035467042882847 / 2 ^ 47
   \<and> toString (orElse (field [(lit ''amount'', JNum (Fin (7035467042882847 / 2 ^ 47)))] ''customerName'')
         (JStr (lit ''Customer''))) = Some (lit ''Customer'')
   \<and> (1::nat) \<le> 4999 \<and> (4999::nat) \<le> 2 ^ 49
   \<and> roundToDouble (of_nat 4999 / 100) = Fin (7035467042882847 / 2 ^ 47)
   \<and> (\<exists>resp cfg.
         createCheckoutSession acceptingPayments None
           [(lit ''amount'', JNum (Fin (7035467042882847 / 2 ^ 47)))] = (resp, [cfg])
         \<and> unit_amount cfg = Fin 4999)"
proof -
  let ?body = "[(lit ''amount'', JNum (Fin (7035467042882847 / 2 ^ 47)))]"
  have h1: "field ?body ''amount'' = Some (JNum (Fin (7035467042882847 / 2 ^ 47)))"
    by (simp add: field_def)
  have h2: "(0::rat) < 7035467042882847 / 2 ^ 47" by simp
  have h3: "toString (orElse (field ?body ''customerName'') (JStr (lit ''Customer'')))
      = Some (lit ''Customer'')"
    by (simp add: field_def orElse_def lit_def)
  have h4: "(1::nat) \<le> 4999" "(4999::nat) \<le> 2 ^ 49" by simp_all
  have h5: "roundToDouble (of_nat 4999 / 100) = Fin (7035467042882847 / 2 ^ 47)"
    using parse_4999 by simp
  note t = unit_amount_rounding [OF h1 h2 h3, of acceptingPayments None 4999]
  from t h4 h5 have r: "mathRound (roundToDouble (7035467042882847 / 2 ^ 47 * 100)) = Fin (of_nat 4999)"
    by blast
  from t have "\<exists>resp cfg.
         createCheckoutSession acceptingPayments None ?body = (resp, [cfg])
         \<and> unit_amount cfg = mathRound (roundToDouble (7035467042882847 / 2 ^ 47 * 100))"
    by (rule conjunct1)
  then have e: "\<exists>resp cfg.
         createCheckoutSession acceptingPayments None ?body = (resp, [cfg])
         \<and> unit_amount cfg = Fin 4999"
    unfolding r by simp
  show ?thesis
    using h1 h2 h3 h4 h5 e by (intro conjI)
qed

text \<open>
  The result is not always the exact product rounded to the nearest integer. The
  double that the amount 0.014999999999999999 is parsed to, times 100, is a little less
  than 1.5, whose nearest integer is 1; the double product is 1.5 and the amount sent
  is 2.
\<close>

theorem unit_amount_not_exact:
  "createCheckoutSession acceptingPayments None
     [(lit ''amount'', JNum (Fin (1080863910568919 / 2 ^ 56)))]
     = (\<lparr>status = 200,
          body = SessionBody (JStr (lit ''cs_test_1''))
                   (JStr (lit ''https://checkout.example/cs_test_1''))\<rparr>,
        [\<lparr>payment_method_types = [lit ''card''],
          currency = lit ''usd'',
          product_name = JStr (lit ''Pool Service''),
          product_description = lit ''Invoice for Customer'',
          unit_amount = Fin 2,
          quantity = 1,
          mode = lit ''payment'',
          success_url = lit ''http://localhost:3000?payment=success'',
          cancel_url = lit ''http://localhost:3000?payment=cancelled'',
          metadata = JObj [],
          customer_email = None\<rparr>])
   \<and> round (1080863910568919 / 2 ^ 56 * 100 :: rat) = 1
   \<and> roundToDouble (14999999999999999 / 10 ^ 18) = Fin (1080863910568919 / 2 ^ 56)"
proof (intro conjI)
  let ?body = "[(lit ''amount'', JNum (Fin (1080863910568919 / 2 ^ 56)))]"
  have f: "field ?body ''amount'' = Some (JNum (Fin (1080863910568919 / 2 ^ 56)))"
    "field ?body ''customerEmail'' = None"
    "field ?body ''description'' = None"
    "field ?body ''customerName'' = None"
    "field ?body ''metadata'' = None"
    by (simp_all add: field_def lit_def)
  have fl: "\<lfloor>(3 / 2 :: rat) + 1 / 2\<rfloor> = 2" by (rule floor_unique) simp_all
  have "mathRound (numTimes (Fin (1080863910568919 / 2 ^ 56)) (Fin 100)) = Fin (of_int \<lfloor>(3 / 2 :: rat) + 1 / 2\<rfloor>)"
    by (simp only: numTimes.simps times_015 mathRound.simps)
  then have n: "mathRound (numTimes (Fin (1080863910568919 / 2 ^ 56)) (Fin 100)) = Fin 2"
    by (simp only: fl of_int_numeral)
  then have n': "mathRound (numTimes (Fin (1080863910568919 / 72057594037927936)) (Fin 100)) = Fin 2"
    by (simp del: numTimes.simps mathRound.simps)
  have i: "invalidAmount (Some (JNum (Fin (1080863910568919 / 2 ^ 56)))) = Some False"
    by (rule positive_not_invalid) simp
  show "createCheckoutSession acceptingPayments None ?body
     = (\<lparr>status = 200,
          body = SessionBody (JStr (lit ''cs_test_1''))
                   (JStr (lit ''https://checkout.example/cs_test_1''))\<rparr>,
        [\<lparr>payment_method_types = [lit ''card''],
          currency = lit ''usd'',
          product_name = JStr (lit ''Pool Service''),
          product_description = lit ''Invoice for Customer'',
          unit_amount = Fin 2,
          quantity = 1,
          mode = lit ''payment'',
          success_url = lit ''http://localhost:3000?payment=success'',
          cancel_url = lit ''http://localhost:3000?payment=cancelled'',
          metadata = JObj [],
          customer_email = None\<rparr>])"
    unfolding createCheckoutSession_def Let_def f i
    by (simp add: orElse_def envOr_def acceptingPayments_def n' lit_def
        del: numTimes.simps mathRound.simps)
  show "round (1080863910568919 / 2 ^ 56 * 100 :: rat) = 1"
    unfolding round_def by (rule exact_015)
  have "roundToDouble (14999999999999999 / 10 ^ 18) = Fin (of_int 8646911284551352 * pow2 (- 59))"
    by (rule roundToDouble_nearest) (simp_all add: pow2_def)
  then show "roundToDouble (14999999999999999 / 10 ^ 18) = Fin (1080863910568919 / 2 ^ 56)"
    by (simp add: pow2_def)
qed

end
